(* ===== verification/Prelude.thy ===== *)
theory Prelude
  imports Main "HOL-Library.Word"
begin

text \<open>
  Shared vocabulary of the development: machine integers and byte strings, the parts of the
  Rust standard library the crates use (saturating arithmetic, \<open>str::split_once\<close>,
  \<open>str::strip_prefix\<close>, decimal printing, UTF-8 validity), the \<open>?\<close> operator on
  state-passing computations, and the collections of facts the component proofs draw on.
\<close>

named_theorems pres_intros \<open>rules that push an invariant through a state-passing computation\<close>
named_theorems hub_simps \<open>field equations of the hub's state transformers\<close>

section \<open>Types\<close>

type_synonym u8 = "8 word"
type_synonym u32 = "32 word"
type_synonym u64 = "64 word"
type_synonym bytes = "u8 list"

text \<open>Rust's \<open>Result<a, e>\<close>: \<open>Inl\<close> is \<open>Err\<close>, \<open>Inr\<close> is \<open>Ok\<close>.\<close>

type_synonym ('e, 'a) result = "'e + 'a"

text \<open>A computation that threads a state and may fail, keeping the state it reached.\<close>

type_synonym ('s, 'e, 'a) comp = "'s \<Rightarrow> ('e, 'a) result \<times> 's"

text \<open>\<open>Instant\<close> and \<open>Duration\<close> count nanoseconds.\<close>

type_synonym instant = nat
type_synonym duration = nat

section \<open>Saturating arithmetic on \<open>u64\<close>\<close>

definition saturating_add :: "u64 \<Rightarrow> u64 \<Rightarrow> u64" where
  "saturating_add a b = (if unat a + unat b < 2 ^ 64 then a + b else - 1)"

definition saturating_sub :: "u64 \<Rightarrow> u64 \<Rightarrow> u64" where
  "saturating_sub a b = (if b \<le> a then a - b else 0)"

lemma unat_minus_one_u64 [simp]: "unat (- 1 :: u64) = 2 ^ 64 - 1"
  by (simp add: unsigned_minus_1_eq_mask mask_eq_exp_minus_1)

lemma unat_u64_less: "unat (a :: u64) < 2 ^ 64"
  using unsigned_less [of a] by simp

lemma u64_not_max: "(a :: u64) \<noteq> - 1 \<longleftrightarrow> unat a < 2 ^ 64 - 1"
proof -
  have "a = - 1 \<longleftrightarrow> unat a = unat (- 1 :: u64)" by (rule word_unat_eq_iff)
  with unat_u64_less [of a] show ?thesis by auto
qed

lemma unat_succ: "(a :: u64) \<noteq> - 1 \<Longrightarrow> unat (a + 1) = unat a + 1"
  by (simp add: u64_not_max unat_word_ariths)

lemma unat_saturating_add: "unat (saturating_add a b) = min (unat a + unat b) (2 ^ 64 - 1)"
  by (auto simp: saturating_add_def unat_word_ariths)

lemma unat_saturating_sub: "unat (saturating_sub a b) = unat a - unat b"
  by (auto simp: saturating_sub_def unat_sub word_le_nat_alt)

section \<open>Strings\<close>

text \<open>\<open>str::split_once\<close>: the parts before and after the first occurrence of a character.\<close>

fun split_once :: "char \<Rightarrow> string \<Rightarrow> (string \<times> string) option" where
  "split_once c [] = None"
| "split_once c (x # xs) =
     (if x = c then Some ([], xs)
      else (case split_once c xs of None \<Rightarrow> None | Some (a, b) \<Rightarrow> Some (x # a, b)))"

lemma split_once_None [simp]: "split_once c s = None \<longleftrightarrow> c \<notin> set s"
  by (induction s) (auto split: option.splits)

lemma split_once_append [simp]: "c \<notin> set a \<Longrightarrow> split_once c (a @ c # b) = Some (a, b)"
  by (induction a) auto

lemma split_once_SomeD: "split_once c s = Some (a, b) \<Longrightarrow> s = a @ c # b \<and> c \<notin> set a"
proof (induction s arbitrary: a)
  case Nil
  then show ?case by simp
next
  case (Cons x xs)
  show ?case
  proof (cases "x = c")
    case True
    with Cons.prems show ?thesis by simp
  next
    case False
    with Cons.prems obtain a' where "split_once c xs = Some (a', b)" and "a = x # a'"
      by (auto split: option.splits)
    with Cons.IH False show ?thesis by auto
  qed
qed

lemma split_once_Some: "split_once c s = Some (a, b) \<longleftrightarrow> s = a @ c # b \<and> c \<notin> set a"
  using split_once_SomeD by auto

text \<open>\<open>str::strip_prefix\<close>.\<close>

fun strip_prefix :: "string \<Rightarrow> string \<Rightarrow> string option" where
  "strip_prefix [] s = Some s"
| "strip_prefix (p # ps) [] = None"
| "strip_prefix (p # ps) (c # cs) = (if p = c then strip_prefix ps cs else None)"

lemma strip_prefix_Some: "strip_prefix p s = Some r \<longleftrightarrow> s = p @ r"
  by (induction p s rule: strip_prefix.induct) auto

text \<open>\<open>str::split\<close> on a character.\<close>

fun split_on :: "char \<Rightarrow> string \<Rightarrow> string list" where
  "split_on c [] = [[]]"
| "split_on c (x # xs) =
     (if x = c then [] # split_on c xs
      else (case split_on c xs of [] \<Rightarrow> [[x]] | t # ts \<Rightarrow> (x # t) # ts))"

lemma split_on_whole: "c \<notin> set s \<Longrightarrow> split_on c s = [s]"
  by (induction s) auto

lemma split_on_append: "c \<notin> set s \<Longrightarrow> split_on c (s @ c # t) = s # split_on c t"
  by (induction s) auto

text \<open>Decimal printing of unsigned integers (\<open>Display for u64\<close>).\<close>

definition digit_char :: "nat \<Rightarrow> char" where
  "digit_char d = char_of (48 + d)"

fun show_nat :: "nat \<Rightarrow> string" where
  "show_nat n = (if n < 10 then [digit_char n] else show_nat (n div 10) @ [digit_char (n mod 10)])"

declare show_nat.simps [simp del]

definition show_u64 :: "u64 \<Rightarrow> string" where
  "show_u64 w = show_nat (unat w)"

text \<open>
  The UTF-8 check that \<open>String::from_utf8\<close> performs, on the code units as numbers; it is the
  invariant of every Rust \<open>String\<close>.
\<close>

definition utf8_cont :: "nat \<Rightarrow> bool" where
  "utf8_cont b \<longleftrightarrow> 128 \<le> b \<and> b < 192"

fun utf8_units :: "nat list \<Rightarrow> bool" where
  "utf8_units [] = True"
| "utf8_units (a # r0) =
     (if a < 128 then utf8_units r0
      else case r0 of [] \<Rightarrow> False | b # r1 \<Rightarrow>
        if 194 \<le> a \<and> a < 224 then utf8_cont b \<and> utf8_units r1
        else case r1 of [] \<Rightarrow> False | c # r2 \<Rightarrow>
          if 224 \<le> a \<and> a < 240 then
            utf8_cont b \<and> (a = 224 \<longrightarrow> 160 \<le> b) \<and> (a = 237 \<longrightarrow> b < 160) \<and>
            utf8_cont c \<and> utf8_units r2
          else case r2 of [] \<Rightarrow> False | d # r3 \<Rightarrow>
            240 \<le> a \<and> a < 245 \<and>
            utf8_cont b \<and> (a = 240 \<longrightarrow> 144 \<le> b) \<and> (a = 244 \<longrightarrow> b < 144) \<and>
            utf8_cont c \<and> utf8_cont d \<and> utf8_units r3)"

definition utf8 :: "string \<Rightarrow> bool" where
  "utf8 s = utf8_units (map of_char s)"

lemma utf8_units_ascii: "(\<And>u. u \<in> set us \<Longrightarrow> u < 128) \<Longrightarrow> utf8_units us"
proof (induction us)
  case Nil
  then show ?case by simp
next
  case (Cons u us)
  then show ?case by simp
qed

lemma utf8_ascii: "(\<And>c. c \<in> set s \<Longrightarrow> of_char c < (128 :: nat)) \<Longrightarrow> utf8 s"
  unfolding utf8_def by (rule utf8_units_ascii) auto

text \<open>\<open>str::as_bytes\<close> and back.\<close>

definition as_bytes :: "string \<Rightarrow> bytes" where
  "as_bytes s = map (\<lambda>c. of_nat (of_char c)) s"

definition of_bytes :: "bytes \<Rightarrow> string" where
  "of_bytes bs = map (\<lambda>b. char_of (unat b)) bs"

lemma length_as_bytes [simp]: "length (as_bytes s) = length s"
  by (simp add: as_bytes_def)

lemma unat_of_char_u8 [simp]: "unat (of_nat (of_char c) :: u8) = of_char c"
  by (simp add: unat_of_nat)

lemma of_bytes_as_bytes [simp]: "of_bytes (as_bytes s) = s"
  by (simp add: of_bytes_def as_bytes_def comp_def)

lemma as_bytes_Nil [simp]: "as_bytes s = [] \<longleftrightarrow> s = []"
  by (simp add: as_bytes_def)

section \<open>The question-mark operator\<close>

definition ok :: "'a \<Rightarrow> ('s, 'e, 'a) comp" where
  "ok x s = (Inr x, s)"

definition err :: "'e \<Rightarrow> ('s, 'e, 'a) comp" where
  "err e s = (Inl e, s)"

text \<open>
  \<open>m?\<close> followed by the rest of the function: an \<open>Err\<close> returns at once, with the state
  changes made so far kept, as mutations before an early return are.
\<close>

definition try_bind :: "('s, 'e, 'a) comp \<Rightarrow> ('a \<Rightarrow> ('s, 'e, 'b) comp) \<Rightarrow> ('s, 'e, 'b) comp" where
  "try_bind m f s = (case m s of (Inl e, s') \<Rightarrow> (Inl e, s') | (Inr x, s') \<Rightarrow> f x s')"

lemma ok_simps [simp]: "fst (ok x s) = Inr x" "snd (ok x s) = s"
  by (simp_all add: ok_def)

lemma err_simps [simp]: "fst (err e s) = Inl e" "snd (err e s) = s"
  by (simp_all add: err_def)

lemma try_bind_ok [simp]: "try_bind (ok x) f = f x"
  by (simp add: fun_eq_iff try_bind_def ok_def)

lemma try_bind_err [simp]: "try_bind (err e) f = err e"
  by (simp add: fun_eq_iff try_bind_def err_def)

lemma try_bind_Inr:
  "fst (try_bind m f s) = Inr y \<longleftrightarrow>
     (\<exists>x s'. m s = (Inr x, s') \<and> fst (f x s') = Inr y)"
  by (auto simp: try_bind_def split: prod.splits sum.splits)

lemma try_bind_Inl:
  "fst (try_bind m f s) = Inl e \<longleftrightarrow>
     fst (m s) = Inl e \<or> (\<exists>x s'. m s = (Inr x, s') \<and> fst (f x s') = Inl e)"
  by (auto simp: try_bind_def split: prod.splits sum.splits)

text \<open>\<open>pres I m\<close>: running \<open>m\<close> keeps the invariant \<open>I\<close>, whether it succeeds or fails.\<close>

definition pres :: "('s \<Rightarrow> bool) \<Rightarrow> ('s, 'e, 'a) comp \<Rightarrow> bool" where
  "pres I m \<longleftrightarrow> (\<forall>s. I s \<longrightarrow> I (snd (m s)))"

lemma presI: "(\<And>s. I s \<Longrightarrow> I (snd (m s))) \<Longrightarrow> pres I m"
  by (simp add: pres_def)

lemma presD: "pres I m \<Longrightarrow> I s \<Longrightarrow> I (snd (m s))"
  by (simp add: pres_def)

lemma pres_ok [pres_intros]: "pres I (ok x)"
  by (simp add: pres_def)

lemma pres_err [pres_intros]: "pres I (err e)"
  by (simp add: pres_def)

lemma pres_try_bind [pres_intros]:
  assumes "pres I m" and "\<And>x. pres I (f x)"
  shows "pres I (try_bind m f)"
proof (rule presI)
  fix s assume "I s"
  then have m: "I (snd (m s))" by (rule presD [OF assms(1)])
  show "I (snd (try_bind m f s))"
  proof (cases "m s")
    case (Pair r s')
    then show ?thesis using m presD [OF assms(2)]
      by (cases r) (auto simp: try_bind_def)
  qed
qed

lemma pres_if [pres_intros]: "pres I m \<Longrightarrow> pres I n \<Longrightarrow> pres I (if b then m else n)"
  by simp

text \<open>
  \<open>valid P m Q E\<close>: from a state with \<open>P\<close>, a success of \<open>m\<close> ends in \<open>Q\<close> of
  its result and a failure ends in \<open>E\<close>.
\<close>

definition valid ::
    "('s \<Rightarrow> bool) \<Rightarrow> ('s, 'e, 'a) comp \<Rightarrow> ('a \<Rightarrow> 's \<Rightarrow> bool) \<Rightarrow> ('s \<Rightarrow> bool) \<Rightarrow> bool" where
  "valid P m Q E \<longleftrightarrow>
     (\<forall>s. P s \<longrightarrow> (case m s of (Inl e, s') \<Rightarrow> E s' | (Inr x, s') \<Rightarrow> Q x s'))"

lemma validI:
  "(\<And>s e s'. P s \<Longrightarrow> m s = (Inl e, s') \<Longrightarrow> E s') \<Longrightarrow>
   (\<And>s x s'. P s \<Longrightarrow> m s = (Inr x, s') \<Longrightarrow> Q x s') \<Longrightarrow> valid P m Q E"
  by (auto simp: valid_def split: prod.splits sum.splits)

lemma validD:
  "valid P m Q E \<Longrightarrow> P s \<Longrightarrow> m s = (Inr x, s') \<Longrightarrow> Q x s'"
  "valid P m Q E \<Longrightarrow> P s \<Longrightarrow> m s = (Inl e, s') \<Longrightarrow> E s'"
  by (force simp: valid_def)+

lemma valid_inv: "valid I m (\<lambda>_. I) I \<Longrightarrow> I s \<Longrightarrow> I (snd (m s))"
  by (cases "fst (m s)"; cases "m s") (auto dest: validD)

lemma valid_of_inv: "(\<And>s. P s \<Longrightarrow> Q (snd (m s))) \<Longrightarrow> valid P m (\<lambda>_. Q) Q"
  by (rule validI) (metis snd_conv)+

lemma valid_try_bind:
  assumes "valid P m R E" and "\<And>x. valid (R x) (f x) Q E"
  shows "valid P (try_bind m f) Q E"
  unfolding valid_def
proof (intro allI impI)
  fix s assume "P s"
  obtain r s' where m: "m s = (r, s')" by (cases "m s")
  show "case try_bind m f s of (Inl e, s') \<Rightarrow> E s' | (Inr x, s') \<Rightarrow> Q x s'"
  proof (cases r)
    case (Inl e)
    with m validD(2) [OF assms(1) \<open>P s\<close>] show ?thesis by (simp add: try_bind_def)
  next
    case (Inr x)
    with m validD(1) [OF assms(1) \<open>P s\<close>] have "R x s'" by simp
    with assms(2) [of x] have "case f x s' of (Inl e, s') \<Rightarrow> E s' | (Inr x, s') \<Rightarrow> Q x s'"
      by (simp add: valid_def)
    with m Inr show ?thesis by (simp add: try_bind_def)
  qed
qed

lemma valid_ok: "(\<And>s. P s \<Longrightarrow> Q x s) \<Longrightarrow> valid P (ok x) Q E"
  by (simp add: valid_def ok_def)

lemma valid_err: "(\<And>s. P s \<Longrightarrow> E s) \<Longrightarrow> valid P (err e) Q E"
  by (simp add: valid_def err_def)

lemma valid_state: "(\<And>s0. valid P (g s0) Q E) \<Longrightarrow> valid P (\<lambda>s. g s s) Q E"
  by (simp add: valid_def)

lemma valid_mono:
  "valid P m Q E \<Longrightarrow> (\<And>s. P' s \<Longrightarrow> P s) \<Longrightarrow> (\<And>x s. Q x s \<Longrightarrow> Q' x s) \<Longrightarrow> (\<And>s. E s \<Longrightarrow> E' s) \<Longrightarrow>
   valid P' m Q' E'"
  by (fastforce simp: valid_def split: prod.splits sum.splits)

end
