(* ===== verification/Config.thy ===== *)
theory Config
  imports Prelude
begin

text \<open>
  \<open>cherenkov-server/src/config.rs\<close>: the configuration schema with its defaults, and how it is
  layered from a file and the environment; parsing them (\<open>figment\<close>) is a parameter. A
  \<open>BTreeMap\<close> is an association list in key order; \<open>'j\<close> is a JSON value.
\<close>

section \<open>Sections of the configuration\<close>

datatype socket_addr = SocketAddr "u8 list" "16 word"

record ws_config =
  ws_listen :: socket_addr
  ws_path :: string
  ws_outbox_capacity :: nat

definition ws_config_default :: ws_config where
  "ws_config_default = \<lparr>ws_listen = SocketAddr [127, 0, 0, 1] 7000, ws_path = ''/connect/v1'',
     ws_outbox_capacity = 1024\<rparr>"

record sse_config =
  sse_listen :: socket_addr
  sse_path_prefix :: string

definition sse_config_default :: sse_config where
  "sse_config_default = \<lparr>sse_listen = SocketAddr [127, 0, 0, 1] 7100, sse_path_prefix = ''/sse/v1''\<rparr>"

record transport_config =
  tc_ws :: ws_config
  tc_sse :: "sse_config option"

definition transport_config_default :: transport_config where
  "transport_config_default = \<lparr>tc_ws = ws_config_default, tc_sse = None\<rparr>"

datatype broker_backend = Memory | Redis | Nats

record broker_config =
  bc_backend :: broker_backend
  bc_capacity :: nat
  bc_redis_url :: "string option"
  bc_nats_url :: "string option"

definition broker_config_default :: broker_config where
  "broker_config_default =
     \<lparr>bc_backend = Memory, bc_capacity = 1024, bc_redis_url = None, bc_nats_url = None\<rparr>"

record admin_config =
  ac_listen :: socket_addr
  ac_enabled :: bool
  ac_auth_token :: "string option"

definition admin_config_default :: admin_config where
  "admin_config_default =
     \<lparr>ac_listen = SocketAddr [127, 0, 0, 1] 7200, ac_enabled = False, ac_auth_token = None\<rparr>"

text \<open>Durations are in nanoseconds, as in the pub/sub channel kind.\<close>

record channel_pubsub_config =
  cp_history_size :: nat
  cp_history_ttl_seconds :: u64

definition channel_pubsub_config_default :: channel_pubsub_config where
  "channel_pubsub_config_default = \<lparr>cp_history_size = 256, cp_history_ttl_seconds = 300\<rparr>"

definition history_ttl :: "channel_pubsub_config \<Rightarrow> duration" where
  "history_ttl c = unat (cp_history_ttl_seconds c) * 1000000000"

datatype schema_kind = JsonSchema

record 'j namespace_config =
  nc_kind :: schema_kind
  nc_schema :: "'j option"
  nc_schema_path :: "string option"

definition namespace_config_default :: "'j namespace_config" where
  "namespace_config_default = \<lparr>nc_kind = JsonSchema, nc_schema = None, nc_schema_path = None\<rparr>"

definition validate_schema_source :: "'j namespace_config \<Rightarrow> (string, unit) result" where
  "validate_schema_source c =
     (case (nc_schema c, nc_schema_path c) of
        (None, None) \<Rightarrow> Inl ''one of `schema` or `schema_path` must be set''
      | (Some _, Some _) \<Rightarrow> Inl ''`schema` and `schema_path` are mutually exclusive''
      | _ \<Rightarrow> Inr ())"

type_synonym 'j namespaces_config = "(string \<times> 'j namespace_config) list"

definition namespaces_is_empty :: "'j namespaces_config \<Rightarrow> bool" where
  "namespaces_is_empty c \<longleftrightarrow> c = []"

datatype channel_kind_name = Pubsub | CrdtYjs | CrdtAutomerge

type_synonym channel_kinds_config = "(string \<times> channel_kind_name) list"

record auth_config =
  au_hmac_secret :: string
  au_audiences :: "string list"
  au_issuer :: "string option"

datatype acl_effect_config = EffAllow | EffDeny

datatype acl_action_config = ActionSubscribe | ActionPublish | ActionAny

record acl_rule_config =
  rc_effect :: acl_effect_config
  rc_channel :: string
  rc_subject :: "string option"
  rc_action :: acl_action_config

record acl_config =
  al_rules :: "acl_rule_config list"
  al_default_allow :: bool

definition acl_config_default :: acl_config where
  "acl_config_default = \<lparr>al_rules = [], al_default_allow = False\<rparr>"

datatype log_format = Json | Pretty

record log_config =
  lc_level :: string
  lc_format :: log_format

definition log_config_default :: log_config where
  "log_config_default = \<lparr>lc_level = ''info'', lc_format = Pretty\<rparr>"

section \<open>The whole configuration\<close>

record 'j server_config =
  sc_transport :: transport_config
  sc_broker :: broker_config
  sc_channel_pubsub :: channel_pubsub_config
  sc_namespaces :: "'j namespaces_config"
  sc_auth :: "auth_config option"
  sc_acl :: "acl_config option"
  sc_channel_kinds :: channel_kinds_config
  sc_admin :: admin_config
  sc_log :: log_config

definition server_config_default :: "'j server_config" where
  "server_config_default =
     \<lparr>sc_transport = transport_config_default, sc_broker = broker_config_default,
      sc_channel_pubsub = channel_pubsub_config_default, sc_namespaces = [], sc_auth = None,
      sc_acl = None, sc_channel_kinds = [], sc_admin = admin_config_default,
      sc_log = log_config_default\<rparr>"

section \<open>Loading\<close>

text \<open>
  \<open>figment\<close> is a parameter: a configuration layered from providers, and its extraction. The
  environment is merged after the file and so has the last word.
\<close>

record ('f, 'p, 'j) figment =
  fig_new :: 'f
  fig_yaml :: "string \<Rightarrow> 'p"
  fig_env :: "string \<Rightarrow> string \<Rightarrow> 'p"
  fig_merge :: "'p \<Rightarrow> 'f \<Rightarrow> 'f"
  fig_extract :: "'f \<Rightarrow> (string, 'j server_config) result"

definition load :: "('f, 'p, 'j) figment \<Rightarrow> string \<Rightarrow> (string, 'j server_config) result" where
  "load F path =
     fig_extract F (fig_merge F (fig_env F ''CHERENKOV_'' ''__'') (fig_merge F (fig_yaml F path) (fig_new F)))"

lemma validate_schema_source_ok:
  "validate_schema_source c = Inr () \<longleftrightarrow> (nc_schema c = None) \<noteq> (nc_schema_path c = None)"
  by (auto simp: validate_schema_source_def split: option.splits)

end
