(* ===== verification/Frame.thy ===== *)
theory Frame
  imports Prelude
begin

text \<open>
  The wire protocol crate (\<open>cherenkov-protocol/src/frame.rs\<close>, messages of
  \<open>proto/v1.proto\<close>): the public wrapper types, the message types of the schema, the
  conversions between the two, and the encoders and decoders. The Protobuf codec itself
  (\<open>prost\<close>) is a parameter, a record of six functions; \<open>prost_codec\<close> states what
  the crate relies on.
\<close>

section \<open>Wrapper types\<close>

record subscribe =
  sub_request_id :: u64
  sub_channel :: string
  sub_since_offset :: u64

record unsubscribe =
  unsub_request_id :: u64
  unsub_channel :: string

record publish =
  publish_request_id :: u64
  publish_channel :: string
  publish_data :: bytes

record subscribe_ok =
  subok_request_id :: u64
  subok_channel :: string
  subok_epoch :: u64
  subok_offset :: u64

record unsubscribe_ok =
  unsubok_request_id :: u64
  unsubok_channel :: string

record publication =
  pub_channel :: string
  pub_offset :: u64
  pub_data :: bytes

record connect =
  conn_request_id :: u64
  conn_token :: string

record connect_ok =
  connok_request_id :: u64
  connok_subject :: string
  connok_expires_at :: u64

record protocol_error =
  err_request_id :: u64
  err_code :: u32
  err_message :: string

datatype client_frame =
    Subscribe subscribe
  | Unsubscribe unsubscribe
  | Publish publish
  | Connect connect

datatype server_frame =
    SubscribeOk subscribe_ok
  | UnsubscribeOk unsubscribe_ok
  | PublicationFrame publication
  | ErrorFrame protocol_error
  | ConnectOk connect_ok

datatype error_code =
    InvalidFrame
  | InvalidChannelCode
  | Unauthorized
  | Internal
  | ValidationFailed
  | InvalidTokenCode
  | AclDeniedCode
  | NotConnectedCode

fun error_code_u32 :: "error_code \<Rightarrow> u32" where
  "error_code_u32 InvalidFrame = 1"
| "error_code_u32 InvalidChannelCode = 2"
| "error_code_u32 Unauthorized = 3"
| "error_code_u32 Internal = 4"
| "error_code_u32 ValidationFailed = 5"
| "error_code_u32 InvalidTokenCode = 6"
| "error_code_u32 AclDeniedCode = 7"
| "error_code_u32 NotConnectedCode = 8"

section \<open>Message types of \<open>v1.proto\<close>\<close>

record proto_connect =
  p_conn_request_id :: u64
  p_conn_token :: string

record proto_connect_ok =
  p_connok_request_id :: u64
  p_connok_subject :: string
  p_connok_expires_at :: u64

record proto_subscribe =
  p_sub_request_id :: u64
  p_sub_channel :: string
  p_sub_since_offset :: u64

record proto_unsubscribe =
  p_unsub_request_id :: u64
  p_unsub_channel :: string

record proto_publish =
  p_publish_request_id :: u64
  p_publish_channel :: string
  p_publish_data :: bytes

record proto_subscribe_ok =
  p_subok_request_id :: u64
  p_subok_channel :: string
  p_subok_epoch :: u64
  p_subok_offset :: u64

record proto_unsubscribe_ok =
  p_unsubok_request_id :: u64
  p_unsubok_channel :: string

record proto_publication =
  p_pub_channel :: string
  p_pub_offset :: u64
  p_pub_data :: bytes

record proto_error =
  p_err_request_id :: u64
  p_err_code :: u32
  p_err_message :: string

datatype client_kind =
    KSubscribe proto_subscribe
  | KUnsubscribe proto_unsubscribe
  | KPublish proto_publish
  | KConnect proto_connect

datatype server_kind =
    KSubscribeOk proto_subscribe_ok
  | KUnsubscribeOk proto_unsubscribe_ok
  | KPublication proto_publication
  | KError proto_error
  | KConnectOk proto_connect_ok

text \<open>The two top-level messages hold one \<open>oneof\<close>, unset or set to one of its variants.\<close>

record proto_client_frame =
  c_kind :: "client_kind option"

record proto_server_frame =
  s_kind :: "server_kind option"

section \<open>Wrapper to proto\<close>

definition subscribe_into :: "subscribe \<Rightarrow> proto_subscribe" where
  "subscribe_into v =
     \<lparr>p_sub_request_id = sub_request_id v, p_sub_channel = sub_channel v,
      p_sub_since_offset = sub_since_offset v\<rparr>"

definition unsubscribe_into :: "unsubscribe \<Rightarrow> proto_unsubscribe" where
  "unsubscribe_into v =
     \<lparr>p_unsub_request_id = unsub_request_id v, p_unsub_channel = unsub_channel v\<rparr>"

definition publish_into :: "publish \<Rightarrow> proto_publish" where
  "publish_into v =
     \<lparr>p_publish_request_id = publish_request_id v, p_publish_channel = publish_channel v,
      p_publish_data = publish_data v\<rparr>"

definition connect_into :: "connect \<Rightarrow> proto_connect" where
  "connect_into v =
     \<lparr>p_conn_request_id = conn_request_id v, p_conn_token = conn_token v\<rparr>"

definition connect_ok_into :: "connect_ok \<Rightarrow> proto_connect_ok" where
  "connect_ok_into v =
     \<lparr>p_connok_request_id = connok_request_id v, p_connok_subject = connok_subject v,
      p_connok_expires_at = connok_expires_at v\<rparr>"

definition subscribe_ok_into :: "subscribe_ok \<Rightarrow> proto_subscribe_ok" where
  "subscribe_ok_into v =
     \<lparr>p_subok_request_id = subok_request_id v, p_subok_channel = subok_channel v,
      p_subok_epoch = subok_epoch v, p_subok_offset = subok_offset v\<rparr>"

definition unsubscribe_ok_into :: "unsubscribe_ok \<Rightarrow> proto_unsubscribe_ok" where
  "unsubscribe_ok_into v =
     \<lparr>p_unsubok_request_id = unsubok_request_id v, p_unsubok_channel = unsubok_channel v\<rparr>"

definition publication_into :: "publication \<Rightarrow> proto_publication" where
  "publication_into v =
     \<lparr>p_pub_channel = pub_channel v, p_pub_offset = pub_offset v, p_pub_data = pub_data v\<rparr>"

definition error_into :: "protocol_error \<Rightarrow> proto_error" where
  "error_into v =
     \<lparr>p_err_request_id = err_request_id v, p_err_code = err_code v,
      p_err_message = err_message v\<rparr>"

definition client_frame_into :: "client_frame \<Rightarrow> proto_client_frame" where
  "client_frame_into f =
     \<lparr>c_kind = Some (case f of
        Subscribe s \<Rightarrow> KSubscribe (subscribe_into s)
      | Unsubscribe u \<Rightarrow> KUnsubscribe (unsubscribe_into u)
      | Publish p \<Rightarrow> KPublish (publish_into p)
      | Connect c \<Rightarrow> KConnect (connect_into c))\<rparr>"

definition server_frame_into :: "server_frame \<Rightarrow> proto_server_frame" where
  "server_frame_into f =
     \<lparr>s_kind = Some (case f of
        SubscribeOk s \<Rightarrow> KSubscribeOk (subscribe_ok_into s)
      | UnsubscribeOk u \<Rightarrow> KUnsubscribeOk (unsubscribe_ok_into u)
      | PublicationFrame p \<Rightarrow> KPublication (publication_into p)
      | ErrorFrame e \<Rightarrow> KError (error_into e)
      | ConnectOk c \<Rightarrow> KConnectOk (connect_ok_into c))\<rparr>"

section \<open>Proto to wrapper\<close>

datatype 'pe decode_error =
    Prost 'pe
  | MissingClientKind
  | MissingServerKind

text \<open>The messages \<open>thiserror\<close> derives; \<open>show_pe\<close> displays the decoder's own error.\<close>

fun decode_error_msg :: "('pe \<Rightarrow> string) \<Rightarrow> 'pe decode_error \<Rightarrow> string" where
  "decode_error_msg show_pe (Prost e) = ''protobuf decode failed: '' @ show_pe e"
| "decode_error_msg show_pe MissingClientKind = ''client frame missing required `kind` oneof''"
| "decode_error_msg show_pe MissingServerKind = ''server frame missing required `kind` oneof''"

definition connect_from :: "proto_connect \<Rightarrow> connect" where
  "connect_from v = \<lparr>conn_request_id = p_conn_request_id v, conn_token = p_conn_token v\<rparr>"

definition connect_ok_from :: "proto_connect_ok \<Rightarrow> connect_ok" where
  "connect_ok_from v =
     \<lparr>connok_request_id = p_connok_request_id v, connok_subject = p_connok_subject v,
      connok_expires_at = p_connok_expires_at v\<rparr>"

definition subscribe_from :: "proto_subscribe \<Rightarrow> subscribe" where
  "subscribe_from v =
     \<lparr>sub_request_id = p_sub_request_id v, sub_channel = p_sub_channel v,
      sub_since_offset = p_sub_since_offset v\<rparr>"

definition unsubscribe_from :: "proto_unsubscribe \<Rightarrow> unsubscribe" where
  "unsubscribe_from v =
     \<lparr>unsub_request_id = p_unsub_request_id v, unsub_channel = p_unsub_channel v\<rparr>"

definition publish_from :: "proto_publish \<Rightarrow> publish" where
  "publish_from v =
     \<lparr>publish_request_id = p_publish_request_id v, publish_channel = p_publish_channel v,
      publish_data = p_publish_data v\<rparr>"

definition subscribe_ok_from :: "proto_subscribe_ok \<Rightarrow> subscribe_ok" where
  "subscribe_ok_from v =
     \<lparr>subok_request_id = p_subok_request_id v, subok_channel = p_subok_channel v,
      subok_epoch = p_subok_epoch v, subok_offset = p_subok_offset v\<rparr>"

definition unsubscribe_ok_from :: "proto_unsubscribe_ok \<Rightarrow> unsubscribe_ok" where
  "unsubscribe_ok_from v =
     \<lparr>unsubok_request_id = p_unsubok_request_id v, unsubok_channel = p_unsubok_channel v\<rparr>"

definition publication_from :: "proto_publication \<Rightarrow> publication" where
  "publication_from v =
     \<lparr>pub_channel = p_pub_channel v, pub_offset = p_pub_offset v, pub_data = p_pub_data v\<rparr>"

definition error_from :: "proto_error \<Rightarrow> protocol_error" where
  "error_from v =
     \<lparr>err_request_id = p_err_request_id v, err_code = p_err_code v,
      err_message = p_err_message v\<rparr>"

definition client_frame_try_from :: "proto_client_frame \<Rightarrow> ('pe decode_error, client_frame) result" where
  "client_frame_try_from v =
     (case c_kind v of
        None \<Rightarrow> Inl MissingClientKind
      | Some (KSubscribe s) \<Rightarrow> Inr (Subscribe (subscribe_from s))
      | Some (KUnsubscribe u) \<Rightarrow> Inr (Unsubscribe (unsubscribe_from u))
      | Some (KPublish p) \<Rightarrow> Inr (Publish (publish_from p))
      | Some (KConnect c) \<Rightarrow> Inr (Connect (connect_from c)))"

definition server_frame_try_from :: "proto_server_frame \<Rightarrow> ('pe decode_error, server_frame) result" where
  "server_frame_try_from v =
     (case s_kind v of
        None \<Rightarrow> Inl MissingServerKind
      | Some (KSubscribeOk s) \<Rightarrow> Inr (SubscribeOk (subscribe_ok_from s))
      | Some (KUnsubscribeOk u) \<Rightarrow> Inr (UnsubscribeOk (unsubscribe_ok_from u))
      | Some (KPublication p) \<Rightarrow> Inr (PublicationFrame (publication_from p))
      | Some (KError e) \<Rightarrow> Inr (ErrorFrame (error_from e))
      | Some (KConnectOk c) \<Rightarrow> Inr (ConnectOk (connect_ok_from c)))"

section \<open>Encoders and decoders\<close>

text \<open>
  The \<open>prost\<close> codec of the three message types that cross the wire on their own:
  \<open>Message::encode\<close> into a growing buffer, and \<open>Message::decode\<close>.
\<close>

record 'pe prost =
  enc_client :: "proto_client_frame \<Rightarrow> bytes"
  dec_client :: "bytes \<Rightarrow> ('pe, proto_client_frame) result"
  enc_server :: "proto_server_frame \<Rightarrow> bytes"
  dec_server :: "bytes \<Rightarrow> ('pe, proto_server_frame) result"
  enc_publication :: "proto_publication \<Rightarrow> bytes"
  dec_publication :: "bytes \<Rightarrow> ('pe, proto_publication) result"

definition encode_client :: "'pe prost \<Rightarrow> client_frame \<Rightarrow> bytes" where
  "encode_client P f = enc_client P (client_frame_into f)"

definition encode_server :: "'pe prost \<Rightarrow> server_frame \<Rightarrow> bytes" where
  "encode_server P f = enc_server P (server_frame_into f)"

definition encode_publication :: "'pe prost \<Rightarrow> publication \<Rightarrow> bytes" where
  "encode_publication P p = enc_publication P (publication_into p)"

definition decode_publication :: "'pe prost \<Rightarrow> bytes \<Rightarrow> ('pe decode_error, publication) result" where
  "decode_publication P bs =
     (case dec_publication P bs of Inl e \<Rightarrow> Inl (Prost e) | Inr m \<Rightarrow> Inr (publication_from m))"

definition decode_client :: "'pe prost \<Rightarrow> bytes \<Rightarrow> ('pe decode_error, client_frame) result" where
  "decode_client P bs =
     (case dec_client P bs of Inl e \<Rightarrow> Inl (Prost e) | Inr m \<Rightarrow> client_frame_try_from m)"

definition decode_server :: "'pe prost \<Rightarrow> bytes \<Rightarrow> ('pe decode_error, server_frame) result" where
  "decode_server P bs =
     (case dec_server P bs of Inl e \<Rightarrow> Inl (Prost e) | Inr m \<Rightarrow> server_frame_try_from m)"

section \<open>The invariant of Rust strings in frames\<close>

fun utf8_client_kind :: "client_kind \<Rightarrow> bool" where
  "utf8_client_kind (KSubscribe s) = utf8 (p_sub_channel s)"
| "utf8_client_kind (KUnsubscribe u) = utf8 (p_unsub_channel u)"
| "utf8_client_kind (KPublish p) = utf8 (p_publish_channel p)"
| "utf8_client_kind (KConnect c) = utf8 (p_conn_token c)"

fun utf8_server_kind :: "server_kind \<Rightarrow> bool" where
  "utf8_server_kind (KSubscribeOk s) = utf8 (p_subok_channel s)"
| "utf8_server_kind (KUnsubscribeOk u) = utf8 (p_unsubok_channel u)"
| "utf8_server_kind (KPublication p) = utf8 (p_pub_channel p)"
| "utf8_server_kind (KError e) = utf8 (p_err_message e)"
| "utf8_server_kind (KConnectOk c) = utf8 (p_connok_subject c)"

definition utf8_proto_client :: "proto_client_frame \<Rightarrow> bool" where
  "utf8_proto_client m = pred_option utf8_client_kind (c_kind m)"

definition utf8_proto_server :: "proto_server_frame \<Rightarrow> bool" where
  "utf8_proto_server m = pred_option utf8_server_kind (s_kind m)"

fun utf8_client :: "client_frame \<Rightarrow> bool" where
  "utf8_client (Subscribe s) = utf8 (sub_channel s)"
| "utf8_client (Unsubscribe u) = utf8 (unsub_channel u)"
| "utf8_client (Publish p) = utf8 (publish_channel p)"
| "utf8_client (Connect c) = utf8 (conn_token c)"

fun utf8_server :: "server_frame \<Rightarrow> bool" where
  "utf8_server (SubscribeOk s) = utf8 (subok_channel s)"
| "utf8_server (UnsubscribeOk u) = utf8 (unsubok_channel u)"
| "utf8_server (PublicationFrame p) = utf8 (pub_channel p)"
| "utf8_server (ErrorFrame e) = utf8 (err_message e)"
| "utf8_server (ConnectOk c) = utf8 (connok_subject c)"

section \<open>The conversions are inverse to each other\<close>

lemmas into_defs =
  subscribe_into_def unsubscribe_into_def publish_into_def connect_into_def
  connect_ok_into_def subscribe_ok_into_def unsubscribe_ok_into_def
  publication_into_def error_into_def

lemmas from_defs =
  subscribe_from_def unsubscribe_from_def publish_from_def connect_from_def
  connect_ok_from_def subscribe_ok_from_def unsubscribe_ok_from_def
  publication_from_def error_from_def

lemma message_from_into [simp]:
  "subscribe_from (subscribe_into a) = a"
  "unsubscribe_from (unsubscribe_into b) = b"
  "publish_from (publish_into c) = c"
  "connect_from (connect_into d) = d"
  "connect_ok_from (connect_ok_into e) = e"
  "subscribe_ok_from (subscribe_ok_into f) = f"
  "unsubscribe_ok_from (unsubscribe_ok_into g) = g"
  "publication_from (publication_into h) = h"
  "error_from (error_into i) = i"
  by (simp_all add: into_defs from_defs)

lemma message_into_from [simp]:
  "subscribe_into (subscribe_from a) = a"
  "unsubscribe_into (unsubscribe_from b) = b"
  "publish_into (publish_from c) = c"
  "connect_into (connect_from d) = d"
  "connect_ok_into (connect_ok_from e) = e"
  "subscribe_ok_into (subscribe_ok_from f) = f"
  "unsubscribe_ok_into (unsubscribe_ok_from g) = g"
  "publication_into (publication_from h) = h"
  "error_into (error_from i) = i"
  by (simp_all add: into_defs from_defs)

lemma client_frame_try_from_into [simp]: "client_frame_try_from (client_frame_into f) = Inr f"
  by (cases f) (simp_all add: client_frame_into_def client_frame_try_from_def)

lemma server_frame_try_from_into [simp]: "server_frame_try_from (server_frame_into f) = Inr f"
  by (cases f) (simp_all add: server_frame_into_def server_frame_try_from_def)

lemma client_frame_try_from_Inr:
  "client_frame_try_from m = Inr f \<longleftrightarrow> m = client_frame_into f"
proof
  assume "client_frame_try_from m = Inr f"
  then show "m = client_frame_into f"
    by (cases m) (auto simp: client_frame_try_from_def client_frame_into_def
        split: option.splits client_kind.splits)
qed simp

lemma server_frame_try_from_Inr:
  "server_frame_try_from m = Inr f \<longleftrightarrow> m = server_frame_into f"
proof
  assume "server_frame_try_from m = Inr f"
  then show "m = server_frame_into f"
    by (cases m) (auto simp: server_frame_try_from_def server_frame_into_def
        split: option.splits server_kind.splits)
qed simp

lemma utf8_client_frame_into [simp]: "utf8_proto_client (client_frame_into f) = utf8_client f"
  by (cases f) (simp_all add: utf8_proto_client_def client_frame_into_def into_defs)

lemma utf8_server_frame_into [simp]: "utf8_proto_server (server_frame_into f) = utf8_server f"
  by (cases f) (simp_all add: utf8_proto_server_def server_frame_into_def into_defs)

section \<open>What the crate relies on in \<open>prost\<close>\<close>

locale prost_codec =
  fixes P :: "'pe prost"
  assumes client_law: "utf8_proto_client m \<Longrightarrow> dec_client P (enc_client P m) = Inr m"
    and client_utf8: "dec_client P bs = Inr m \<Longrightarrow> utf8_proto_client m"
    and server_law: "utf8_proto_server n \<Longrightarrow> dec_server P (enc_server P n) = Inr n"
    and server_utf8: "dec_server P bs = Inr n \<Longrightarrow> utf8_proto_server n"
    and publication_law:
      "utf8 (p_pub_channel q) \<Longrightarrow> dec_publication P (enc_publication P q) = Inr q"
    and publication_utf8: "dec_publication P bs = Inr q \<Longrightarrow> utf8 (p_pub_channel q)"
begin

lemma client_roundtrip: "utf8_client f \<Longrightarrow> decode_client P (encode_client P f) = Inr f"
  by (simp add: decode_client_def encode_client_def client_law)

lemma server_roundtrip: "utf8_server f \<Longrightarrow> decode_server P (encode_server P f) = Inr f"
  by (simp add: decode_server_def encode_server_def server_law)

lemma publication_roundtrip:
  "utf8 (pub_channel p) \<Longrightarrow> decode_publication P (encode_publication P p) = Inr p"
  by (simp add: decode_publication_def encode_publication_def publication_law publication_into_def
      publication_from_def)

lemma decode_client_utf8: "decode_client P bs = Inr f \<Longrightarrow> utf8_client f"
  by (auto simp: decode_client_def client_frame_try_from_Inr dest: client_utf8 split: sum.splits)

lemma encode_client_inj:
  assumes "utf8_client f" and "utf8_client g" and "encode_client P f = encode_client P g"
  shows "f = g"
proof -
  have "Inr f = (decode_client P (encode_client P f) :: ('pe decode_error, client_frame) result)"
    using assms(1) by (simp add: client_roundtrip)
  also have "\<dots> = Inr g" using assms(2,3) by (simp add: client_roundtrip)
  finally show ?thesis by simp
qed

end

text \<open>The error paths of the decoders do not depend on any law.\<close>

lemma decode_client_cases:
  "decode_client P bs =
     (case dec_client P bs of
        Inl e \<Rightarrow> Inl (Prost e)
      | Inr m \<Rightarrow> if c_kind m = None then Inl MissingClientKind else client_frame_try_from m)"
  by (auto simp: decode_client_def client_frame_try_from_def split: sum.splits option.splits)

end
