(* ===== verification/Traits.thy ===== *)
theory Traits
  imports Frame
begin

text \<open>
  The extension points of \<open>cherenkov-core\<close>: the error enums with the messages
  \<open>thiserror\<close> derives for them, the claims and cursors that cross the traits, the traits
  themselves as records of operations (\<open>ChannelKind\<close>, \<open>Broker\<close>,
  \<open>SchemaValidator\<close>, \<open>Authenticator\<close>, \<open>AclChecker\<close>), and the allow-all defaults.
  A trait object's state is a type parameter; an \<open>async fn\<close> is a state-passing computation.
\<close>

section \<open>Errors\<close>

datatype channel_error =
    InvalidChannel string
  | RejectedPublication string
  | ChannelOther string

datatype broker_error =
    PublishRejected string string
  | Unavailable string
  | BrokerOther string

datatype schema_error =
    PayloadRejected string string
  | SchemaOther string

datatype auth_error =
    InvalidToken string
  | AuthOther string

datatype acl_action = ActSubscribe | ActPublish

fun acl_action_as_str :: "acl_action \<Rightarrow> string" where
  "acl_action_as_str ActSubscribe = ''subscribe''"
| "acl_action_as_str ActPublish = ''publish''"

datatype acl_decision = Allow | Deny

datatype acl_error =
    Denied (denied_subject: string) (denied_action: string) (denied_channel: string)
      (denied_reason: string)
  | AclOther string

datatype hub_error =
    SessionGone u64
  | UnknownChannel string
  | AlreadySubscribed u64 string
  | NotSubscribed u64 string
  | ChannelErr channel_error
  | BrokerErr broker_error
  | SchemaErr schema_error
  | AuthErr auth_error
  | AclErr acl_error
  | NotConnected u64
  | AlreadyConnected u64

datatype transport_error = Bind string | TransportOther string

subsection \<open>Messages\<close>

fun transport_error_msg :: "transport_error \<Rightarrow> string" where
  "transport_error_msg (Bind m) = ''transport failed to bind: '' @ m"
| "transport_error_msg (TransportOther m) = ''transport error: '' @ m"

fun channel_error_msg :: "channel_error \<Rightarrow> string" where
  "channel_error_msg (InvalidChannel c) = ''invalid channel name: '' @ c"
| "channel_error_msg (RejectedPublication r) = ''publication rejected by channel kind: '' @ r"
| "channel_error_msg (ChannelOther m) = ''channel kind error: '' @ m"

fun broker_error_msg :: "broker_error \<Rightarrow> string" where
  "broker_error_msg (PublishRejected t r) = ''broker rejected publish on `'' @ t @ ''`: '' @ r"
| "broker_error_msg (Unavailable m) = ''broker backend unavailable: '' @ m"
| "broker_error_msg (BrokerOther m) = ''broker error: '' @ m"

fun schema_error_msg :: "schema_error \<Rightarrow> string" where
  "schema_error_msg (PayloadRejected c r) = ''payload rejected by schema for `'' @ c @ ''`: '' @ r"
| "schema_error_msg (SchemaOther m) = ''schema validator error: '' @ m"

fun auth_error_msg :: "auth_error \<Rightarrow> string" where
  "auth_error_msg (InvalidToken r) = ''invalid token: '' @ r"
| "auth_error_msg (AuthOther m) = ''authenticator error: '' @ m"

fun acl_error_msg :: "acl_error \<Rightarrow> string" where
  "acl_error_msg (Denied s a c r) =
     ''session `'' @ s @ ''` denied '' @ a @ '' on `'' @ c @ ''`: '' @ r"
| "acl_error_msg (AclOther m) = ''acl checker error: '' @ m"

fun hub_error_msg :: "hub_error \<Rightarrow> string" where
  "hub_error_msg (SessionGone i) =
     ''session '' @ show_u64 i @ '' is not registered or has been closed''"
| "hub_error_msg (UnknownChannel c) = ''no channel kind registered for `'' @ c @ ''`''"
| "hub_error_msg (AlreadySubscribed i c) =
     ''session '' @ show_u64 i @ '' is already subscribed to `'' @ c @ ''`''"
| "hub_error_msg (NotSubscribed i c) =
     ''session '' @ show_u64 i @ '' is not subscribed to `'' @ c @ ''`''"
| "hub_error_msg (ChannelErr e) = ''channel kind error: '' @ channel_error_msg e"
| "hub_error_msg (BrokerErr e) = ''broker error: '' @ broker_error_msg e"
| "hub_error_msg (SchemaErr e) = ''schema validation failed: '' @ schema_error_msg e"
| "hub_error_msg (AuthErr e) = ''authentication failed: '' @ auth_error_msg e"
| "hub_error_msg (AclErr e) = ''acl check failed: '' @ acl_error_msg e"
| "hub_error_msg (NotConnected i) = ''session '' @ show_u64 i @ '' has not connected''"
| "hub_error_msg (AlreadyConnected i) = ''session '' @ show_u64 i @ '' is already connected''"

section \<open>Channel kinds\<close>

record channel_cursor =
  cur_epoch :: u64
  cur_offset :: u64

text \<open>
  \<open>ChannelKind\<close>. The operations that read the clock (\<open>Instant::now\<close>) take the instant
  as an argument.
\<close>

record 'k kind_ops =
  k_name :: "'k \<Rightarrow> string"
  k_on_subscribe :: "string \<Rightarrow> ('k, channel_error, channel_cursor) comp"
  k_on_unsubscribe :: "string \<Rightarrow> ('k, channel_error, unit) comp"
  k_on_publish :: "instant \<Rightarrow> string \<Rightarrow> bytes \<Rightarrow> ('k, channel_error, publication) comp"
  k_replay_since :: "instant \<Rightarrow> string \<Rightarrow> u64 \<Rightarrow> ('k, channel_error, publication list) comp"

text \<open>The trait's default \<open>replay_since\<close>, for kinds without history.\<close>

definition default_replay_since ::
    "instant \<Rightarrow> string \<Rightarrow> u64 \<Rightarrow> ('k, channel_error, publication list) comp" where
  "default_replay_since now ch since = ok []"

section \<open>Brokers\<close>

text \<open>What polling a \<open>BrokerStream\<close> gives: an item, nothing yet, or the end of the stream.\<close>

datatype stream_poll = Ready publication | Pending | Ended

text \<open>
  \<open>Broker\<close>. A subscription stream is a handle into the broker's state; polling and dropping the
  stream are operations on it.
\<close>

record 'b broker_ops =
  br_name :: string
  br_subscribe :: "string \<Rightarrow> ('b, broker_error, nat) comp"
  br_publish :: "string \<Rightarrow> publication \<Rightarrow> ('b, broker_error, unit) comp"
  br_next :: "nat \<Rightarrow> 'b \<Rightarrow> stream_poll \<times> 'b"
  br_drop :: "nat \<Rightarrow> 'b \<Rightarrow> 'b"

section \<open>Authentication, access control, validation\<close>

record session_claims =
  cl_subject :: string
  cl_permissions :: "string list"
  cl_expires_at :: u64

definition anonymous :: session_claims where
  "anonymous = \<lparr>cl_subject = ''anonymous'', cl_permissions = [], cl_expires_at = 0\<rparr>"

record authenticator =
  auth_name :: string
  allow_anonymous :: bool
  authenticate :: "instant \<Rightarrow> string \<Rightarrow> (auth_error, session_claims) result"

definition AllowAllAuthenticator :: authenticator where
  "AllowAllAuthenticator =
     \<lparr>auth_name = ''allow-all'', allow_anonymous = True, authenticate = (\<lambda>_ _. Inr anonymous)\<rparr>"

record acl_checker =
  acl_name :: string
  acl_check :: "session_claims \<Rightarrow> acl_action \<Rightarrow> string \<Rightarrow> (acl_error, acl_decision) result"

definition AllowAllAcl :: acl_checker where
  "AllowAllAcl = \<lparr>acl_name = ''allow-all'', acl_check = (\<lambda>_ _ _. Inr Allow)\<rparr>"

record schema_validator =
  validator_name :: string
  validate :: "string \<Rightarrow> bytes \<Rightarrow> (schema_error, unit) result"

definition AllowAllValidator :: schema_validator where
  "AllowAllValidator = \<lparr>validator_name = ''allow-all'', validate = (\<lambda>_ _. Inr ())\<rparr>"

section \<open>The contract of a channel kind\<close>

text \<open>
  \<open>nxt k c\<close> is the offset the next publication on channel \<open>c\<close> will get. Offsets are
  assigned in order; a cursor names the last one; a rejected operation assigns none; operations on
  one channel leave the others alone; replay returns retained publications of that channel only,
  after the given offset, in order, and none that has not been assigned.
\<close>

locale channel_kind =
  fixes K :: "'k kind_ops"
    and kinv :: "'k \<Rightarrow> bool"
    and nxt :: "'k \<Rightarrow> string \<Rightarrow> u64"
  assumes subscribe_inv: "kinv k \<Longrightarrow> kinv (snd (k_on_subscribe K c k))"
    and subscribe_nxt: "kinv k \<Longrightarrow> nxt (snd (k_on_subscribe K c k)) = nxt k"
    and subscribe_cursor: "kinv k \<Longrightarrow> k_on_subscribe K c k = (Inr cur, k') \<Longrightarrow>
          cur_offset cur = saturating_sub (nxt k c) 1"
    and unsubscribe_inv: "kinv k \<Longrightarrow> kinv (snd (k_on_unsubscribe K c k))"
    and unsubscribe_nxt: "kinv k \<Longrightarrow> nxt (snd (k_on_unsubscribe K c k)) = nxt k"
    and publish_inv: "kinv k \<Longrightarrow> kinv (snd (k_on_publish K now c d k))"
    and publish_ok: "kinv k \<Longrightarrow> k_on_publish K now c d k = (Inr p, k') \<Longrightarrow>
          pub_channel p = c \<and> pub_data p = d \<and> pub_offset p = nxt k c"
    and publish_nxt: "kinv k \<Longrightarrow> k_on_publish K now c d k = (Inr p, k') \<Longrightarrow>
          nxt k c \<noteq> - 1 \<Longrightarrow> nxt k' = (nxt k)(c := nxt k c + 1)"
    and publish_err: "kinv k \<Longrightarrow> k_on_publish K now c d k = (Inl e, k') \<Longrightarrow> nxt k' = nxt k"
    and publish_others: "kinv k \<Longrightarrow> c' \<noteq> c \<Longrightarrow> nxt (snd (k_on_publish K now c d k)) c' = nxt k c'"
    and replay_inv: "kinv k \<Longrightarrow> kinv (snd (k_replay_since K now c since k))"
    and replay_nxt: "kinv k \<Longrightarrow> nxt (snd (k_replay_since K now c since k)) = nxt k"
    and replay_ok: "kinv k \<Longrightarrow> k_replay_since K now c since k = (Inr ps, k') \<Longrightarrow> p \<in> set ps \<Longrightarrow>
          pub_channel p = c \<and> since < pub_offset p \<and> pub_offset p \<le> nxt k c"
    and replay_sorted: "kinv k \<Longrightarrow> k_replay_since K now c since k = (Inr ps, k') \<Longrightarrow>
          nxt k c \<noteq> - 1 \<Longrightarrow> sorted_wrt (<) (map pub_offset ps @ [nxt k c])"
begin

text \<open>A run of publications on one channel, stopping at nothing: rejected ones are skipped.\<close>

fun publish_all :: "(instant \<times> bytes) list \<Rightarrow> string \<Rightarrow> 'k \<Rightarrow> publication list \<times> 'k" where
  "publish_all [] c k = ([], k)"
| "publish_all ((now, d) # xs) c k =
     (case k_on_publish K now c d k of
        (Inl e, k') \<Rightarrow> publish_all xs c k'
      | (Inr p, k') \<Rightarrow> (let (ps, k'') = publish_all xs c k' in (p # ps, k'')))"

lemma publish_all_inv: "kinv k \<Longrightarrow> kinv (snd (publish_all xs c k))"
proof (induction xs c k rule: publish_all.induct)
  case (2 now d xs c k)
  have "kinv (snd (k_on_publish K now c d k))" by (rule publish_inv [OF "2.prems"])
  with "2.IH" show ?case
    by (auto split: prod.splits sum.splits)
qed simp

text \<open>
  Successive publications on a channel get consecutive offsets, starting from \<open>nxt\<close>, as long as
  the 64-bit counter does not reach its end.
\<close>

lemma publish_all_offsets:
  "kinv k \<Longrightarrow> unat (nxt k c) + length xs < 2 ^ 64 \<Longrightarrow>
     map (unat \<circ> pub_offset) (fst (publish_all xs c k)) =
     [unat (nxt k c) ..< unat (nxt k c) + length (fst (publish_all xs c k))]"
proof (induction xs c k rule: publish_all.induct)
  case (1 c k)
  then show ?case by simp
next
  case (2 now d xs c k)
  obtain r k' where step: "k_on_publish K now c d k = (r, k')" by (cases "k_on_publish K now c d k")
  have inv': "kinv k'" using publish_inv [OF "2.prems"(1), of now c d] step by simp
  show ?case
  proof (cases r)
    case (Inl e)
    then have "nxt k' = nxt k" using publish_err [OF "2.prems"(1)] step by simp
    with Inl step inv' "2.IH"(1) "2.prems"(2) show ?thesis by simp
  next
    case (Inr p)
    have bound: "unat (nxt k c) + 1 < 2 ^ 64" using "2.prems"(2) by simp
    then have "nxt k c \<noteq> - 1" by auto
    then have nxt': "nxt k' c = nxt k c + 1"
      using publish_nxt [OF "2.prems"(1)] step Inr by simp
    then have un: "unat (nxt k' c) = unat (nxt k c) + 1"
      using bound by (simp add: unat_word_ariths)
    have off: "pub_offset p = nxt k c" using publish_ok [OF "2.prems"(1)] step Inr by simp
    obtain ps k'' where rest: "publish_all xs c k' = (ps, k'')" by (cases "publish_all xs c k'")
    have "map (unat \<circ> pub_offset) ps = [unat (nxt k' c) ..< unat (nxt k' c) + length ps]"
      using "2.IH"(2) step Inr inv' "2.prems"(2) rest un by (simp add: o_def del: upt_Suc)
    then show ?thesis
      using step Inr rest off un by (simp add: upt_conv_Cons o_def del: upt_Suc)
  qed
qed

lemma publish_all_distinct:
  assumes "kinv k" and "unat (nxt k c) + length xs < 2 ^ 64"
  shows "distinct (map pub_offset (fst (publish_all xs c k)))"
proof -
  have "distinct (map (unat \<circ> pub_offset) (fst (publish_all xs c k)))"
    by (simp only: publish_all_offsets [OF assms] distinct_upt)
  then show ?thesis by (simp add: distinct_map inj_on_def)
qed

end

section \<open>The contract of a broker\<close>

text \<open>
  \<open>topic b s\<close> is the topic of a live stream and \<open>pending b s\<close> the publications it
  has not yielded yet, oldest first. A publication is appended to every stream of its topic and to
  no other; a slow stream may lose its oldest publications; polling takes the oldest one.
\<close>

locale broker =
  fixes B :: "'b broker_ops"
    and binv :: "'b \<Rightarrow> bool"
    and topic :: "'b \<Rightarrow> nat \<Rightarrow> string option"
    and pending :: "'b \<Rightarrow> nat \<Rightarrow> publication list"
  assumes subscribe_binv: "binv b \<Longrightarrow> binv (snd (br_subscribe B t b))"
    and subscribe_fresh: "binv b \<Longrightarrow> br_subscribe B t b = (Inr s, b') \<Longrightarrow> topic b s = None"
    and subscribe_topic: "binv b \<Longrightarrow> br_subscribe B t b = (Inr s, b') \<Longrightarrow>
          topic b' = (topic b)(s \<mapsto> t)"
    and subscribe_pending: "binv b \<Longrightarrow> br_subscribe B t b = (Inr s, b') \<Longrightarrow>
          pending b' = (pending b)(s := [])"
    and subscribe_err: "binv b \<Longrightarrow> br_subscribe B t b = (Inl e, b') \<Longrightarrow>
          topic b' = topic b \<and> pending b' = pending b"
    and publish_binv: "binv b \<Longrightarrow> binv (snd (br_publish B t p b))"
    and publish_topic: "binv b \<Longrightarrow> topic (snd (br_publish B t p b)) = topic b"
    and publish_pending: "binv b \<Longrightarrow> br_publish B t p b = (Inr (), b') \<Longrightarrow> topic b s = Some t \<Longrightarrow>
          \<exists>n. pending b' s = drop n (pending b s) @ [p]"
    and publish_other: "binv b \<Longrightarrow> topic b s \<noteq> Some t \<Longrightarrow>
          pending (snd (br_publish B t p b)) s = pending b s"
    and next_binv: "binv b \<Longrightarrow> binv (snd (br_next B s b))"
    and next_topic: "binv b \<Longrightarrow> topic (snd (br_next B s b)) = topic b"
    and next_ready: "binv b \<Longrightarrow> topic b s = Some t \<Longrightarrow> pending b s = p # ps \<Longrightarrow>
          \<exists>b'. br_next B s b = (Ready p, b') \<and> pending b' = (pending b)(s := ps)"
    and next_none: "binv b \<Longrightarrow> topic b s = Some t \<Longrightarrow> pending b s = [] \<Longrightarrow>
          fst (br_next B s b) \<in> {Pending, Ended} \<and> pending (snd (br_next B s b)) = pending b"
    and drop_binv: "binv b \<Longrightarrow> binv (br_drop B s b)"
    and drop_topic: "binv b \<Longrightarrow> topic (br_drop B s b) = (topic b)(s := None)"
    and drop_pending: "binv b \<Longrightarrow> s' \<noteq> s \<Longrightarrow> pending (br_drop B s b) s' = pending b s'"
begin

lemma subscribe_then_publish_pending:
  assumes "binv b" and "br_subscribe B t b = (Inr s, b')" and "br_publish B t p b' = (Inr (), b'')"
  shows "pending b'' s = [p]"
proof -
  have "binv b'" using subscribe_binv [OF assms(1), of t] assms(2) by simp
  moreover have "topic b' s = Some t" using subscribe_topic [OF assms(1,2)] by simp
  moreover have "pending b' s = []" using subscribe_pending [OF assms(1,2)] by simp
  ultimately show ?thesis using publish_pending [OF _ assms(3), of s] by simp
qed

end

end
