(* ===== verification/PubSub.thy ===== *)
theory PubSub
  imports Traits
begin

text \<open>
  \<open>cherenkov-channel-pubsub\<close>: the pub/sub channel kind with its bounded per-channel history.
  The first part translates \<open>PubSubChannel\<close>; the second gives its invariant and shows that it
  is a channel kind; the third specifies it by an unbounded log per channel and shows that every
  sequence of calls answers as the specification does.
\<close>

section \<open>The channel kind\<close>

definition DEFAULT_HISTORY_SIZE :: nat where "DEFAULT_HISTORY_SIZE = 256"

definition DEFAULT_HISTORY_TTL :: duration where "DEFAULT_HISTORY_TTL = 300 * 1000000000"

record history_entry =
  he_inserted_at :: instant
  he_offset :: u64
  he_data :: bytes

record channel_state =
  cs_next_offset :: u64
  cs_entries :: "history_entry list"

record pubsub =
  ps_epoch :: u64
  ps_history_size :: nat
  ps_history_ttl :: duration
  ps_state :: "string \<rightharpoonup> channel_state"

definition with_bounds :: "nat \<Rightarrow> duration \<Rightarrow> pubsub" where
  "with_bounds history_size history_ttl =
     \<lparr>ps_epoch = 1, ps_history_size = max history_size 1, ps_history_ttl = history_ttl,
      ps_state = Map.empty\<rparr>"

definition pubsub_new :: pubsub where
  "pubsub_new = with_bounds DEFAULT_HISTORY_SIZE DEFAULT_HISTORY_TTL"

text \<open>The loop of \<open>evict_expired\<close>: pop the front while it is older than the TTL.\<close>

fun evict_entries :: "duration \<Rightarrow> instant \<Rightarrow> history_entry list \<Rightarrow> history_entry list" where
  "evict_entries ttl now [] = []"
| "evict_entries ttl now (front # es) =
     (if now - he_inserted_at front > ttl then evict_entries ttl now es else front # es)"

definition evict_expired :: "pubsub \<Rightarrow> channel_state \<Rightarrow> instant \<Rightarrow> channel_state" where
  "evict_expired s st now =
     st\<lparr>cs_entries := evict_entries (ps_history_ttl s) now (cs_entries st)\<rparr>"

definition cursor_locked :: "pubsub \<Rightarrow> channel_state \<Rightarrow> channel_cursor" where
  "cursor_locked s st =
     \<lparr>cur_epoch = ps_epoch s, cur_offset = saturating_sub (cs_next_offset st) 1\<rparr>"

definition pubsub_cursor :: "pubsub \<Rightarrow> string \<Rightarrow> channel_cursor" where
  "pubsub_cursor s channel =
     (case ps_state s channel of
        Some st \<Rightarrow> cursor_locked s st
      | None \<Rightarrow> \<lparr>cur_epoch = ps_epoch s, cur_offset = 0\<rparr>)"

definition history_len :: "pubsub \<Rightarrow> string \<Rightarrow> nat" where
  "history_len s channel =
     (case ps_state s channel of Some st \<Rightarrow> length (cs_entries st) | None \<Rightarrow> 0)"

definition pubsub_name :: "pubsub \<Rightarrow> string" where "pubsub_name s = ''pubsub''"

definition pubsub_on_subscribe :: "string \<Rightarrow> (pubsub, channel_error, channel_cursor) comp" where
  "pubsub_on_subscribe channel s =
     (if channel = [] then (Inl (InvalidChannel channel), s) else (Inr (pubsub_cursor s channel), s))"

definition pubsub_on_unsubscribe :: "string \<Rightarrow> (pubsub, channel_error, unit) comp" where
  "pubsub_on_unsubscribe channel = ok ()"

text \<open>The final loop of \<open>on_publish\<close>: pop the front while the buffer is over its cap.\<close>

fun trim_front :: "nat \<Rightarrow> history_entry list \<Rightarrow> history_entry list" where
  "trim_front n [] = []"
| "trim_front n (e # es) = (if length (e # es) > n then trim_front n es else e # es)"

definition pubsub_on_publish ::
    "instant \<Rightarrow> string \<Rightarrow> bytes \<Rightarrow> (pubsub, channel_error, publication) comp" where
  "pubsub_on_publish now channel data s =
     (if channel = [] then (Inl (InvalidChannel channel), s)
      else
        let st = (case ps_state s channel of
                    Some st \<Rightarrow> st | None \<Rightarrow> \<lparr>cs_next_offset = 0, cs_entries = []\<rparr>);
            st = evict_expired s st now;
            off = cs_next_offset st;
            es = cs_entries st @ [\<lparr>he_inserted_at = now, he_offset = off, he_data = data\<rparr>];
            st = \<lparr>cs_next_offset = saturating_add off 1,
                  cs_entries = trim_front (ps_history_size s) es\<rparr>
        in (Inr \<lparr>pub_channel = channel, pub_offset = off, pub_data = data\<rparr>,
            s\<lparr>ps_state := (ps_state s)(channel \<mapsto> st)\<rparr>))"

definition pubsub_replay_since ::
    "instant \<Rightarrow> string \<Rightarrow> u64 \<Rightarrow> (pubsub, channel_error, publication list) comp" where
  "pubsub_replay_since now channel since s =
     (case ps_state s channel of
        None \<Rightarrow> (Inr [], s)
      | Some st \<Rightarrow>
          let st = evict_expired s st now
          in (Inr (map (\<lambda>e. \<lparr>pub_channel = channel, pub_offset = he_offset e, pub_data = he_data e\<rparr>)
                       (filter (\<lambda>e. he_offset e > since) (cs_entries st))),
              s\<lparr>ps_state := (ps_state s)(channel \<mapsto> st)\<rparr>))"

definition pubsub_ops :: "pubsub kind_ops" where
  "pubsub_ops =
     \<lparr>k_name = pubsub_name, k_on_subscribe = pubsub_on_subscribe,
      k_on_unsubscribe = pubsub_on_unsubscribe, k_on_publish = pubsub_on_publish,
      k_replay_since = pubsub_replay_since\<rparr>"

lemmas pubsub_defs =
  pubsub_on_subscribe_def pubsub_on_unsubscribe_def pubsub_on_publish_def pubsub_replay_since_def

section \<open>The loops\<close>

lemma evict_entries_dropWhile:
  "evict_entries ttl now es = dropWhile (\<lambda>e. now - he_inserted_at e > ttl) es"
  by (induction es) auto

lemma trim_front_drop [simp]: "trim_front n es = drop (length es - n) es"
  by (induction es) (auto simp: Suc_diff_le not_less)

lemma dropWhile_upt:
  "m \<le> n \<Longrightarrow> \<exists>m'. m \<le> m' \<and> m' \<le> n \<and> dropWhile P [m..<n] = [m'..<n] \<and> (\<forall>i. m \<le> i \<longrightarrow> i < m' \<longrightarrow> P i)"
proof (induction "n - m" arbitrary: m)
  case 0
  then show ?case by (intro exI [of _ m]) auto
next
  case (Suc d)
  then have *: "m < n" "[m..<n] = m # [Suc m..<n]" by (simp_all add: upt_rec)
  show ?case
  proof (cases "P m")
    case True
    have "d = n - Suc m" using Suc.hyps(2) by arith
    then obtain m' where m': "Suc m \<le> m'" "m' \<le> n" "dropWhile P [Suc m..<n] = [m'..<n]"
        "\<forall>i. Suc m \<le> i \<longrightarrow> i < m' \<longrightarrow> P i"
      using Suc.hyps(1) [of "Suc m"] *(1) by (auto simp: Suc_le_eq)
    have "P i" if "m \<le> i" "i < m'" for i
      using that True m'(4) by (cases "i = m") auto
    moreover have "dropWhile P [m..<n] = [m'..<n]"
      by (simp only: *(2) dropWhile.simps True if_True m'(3))
    ultimately show ?thesis using m'(1,2) Suc_leD by blast
  next
    case False
    then have "dropWhile P [m..<n] = [m..<n]" by (simp only: *(2) dropWhile.simps if_False)
    with Suc.prems show ?thesis by (intro exI [of _ m]) simp
  qed
qed

lemma dropWhile_filter_antimono:
  assumes anti: "\<And>i j. P j \<Longrightarrow> i \<le> j \<Longrightarrow> P i"
  shows "sorted xs \<Longrightarrow> dropWhile P xs = filter (\<lambda>x. \<not> P x) xs"
proof (induction xs)
  case (Cons x xs)
  show ?case
  proof (cases "P x")
    case False
    have "\<not> P y" if "y \<in> set xs" for y
      using anti [of y x] False Cons.prems that by auto
    then have "filter (\<lambda>x. \<not> P x) xs = xs" by (simp add: filter_id_conv)
    with False show ?thesis by simp
  qed (use Cons in simp)
qed simp

section \<open>The invariant\<close>

text \<open>The retained entries carry the offsets just below \<open>n\<close>, without gaps.\<close>

definition consecutive :: "nat \<Rightarrow> history_entry list \<Rightarrow> bool" where
  "consecutive n es \<longleftrightarrow>
     length es \<le> n \<and> map (\<lambda>e. unat (he_offset e)) es = [n - length es..<n]"

text \<open>
  The per-channel invariant: the history is within its cap, no retained offset is above the next
  one, and until the 64-bit counter saturates the retained offsets are consecutive.
\<close>

definition channel_ok :: "nat \<Rightarrow> channel_state \<Rightarrow> bool" where
  "channel_ok cap st \<longleftrightarrow>
     length (cs_entries st) \<le> cap \<and>
     (\<forall>e \<in> set (cs_entries st). he_offset e \<le> cs_next_offset st) \<and>
     (cs_next_offset st \<noteq> - 1 \<longrightarrow> consecutive (unat (cs_next_offset st)) (cs_entries st))"

definition pubsub_inv :: "pubsub \<Rightarrow> bool" where
  "pubsub_inv s \<longleftrightarrow>
     1 \<le> ps_history_size s \<and> ps_state s [] = None \<and>
     (\<forall>c st. ps_state s c = Some st \<longrightarrow> channel_ok (ps_history_size s) st)"

definition pubsub_next :: "pubsub \<Rightarrow> string \<Rightarrow> u64" where
  "pubsub_next s c = (case ps_state s c of Some st \<Rightarrow> cs_next_offset st | None \<Rightarrow> 0)"

lemma consecutive_drop: "consecutive n es \<Longrightarrow> consecutive n (drop k es)"
  by (cases "k \<le> length es") (auto simp: consecutive_def drop_map [symmetric] drop_upt)

lemma consecutive_push:
  "consecutive (unat off) es \<Longrightarrow> off \<noteq> - 1 \<Longrightarrow> he_offset e = off \<Longrightarrow>
     consecutive (unat (off + 1)) (es @ [e])"
  by (auto simp: consecutive_def unat_succ Suc_diff_le)

lemma channel_ok_drop:
  "channel_ok cap st \<Longrightarrow> channel_ok cap (st\<lparr>cs_entries := drop k (cs_entries st)\<rparr>)"
  by (auto simp: channel_ok_def consecutive_drop dest: in_set_dropD)

lemma evict_expired_drop: "\<exists>k. evict_expired s st now = st\<lparr>cs_entries := drop k (cs_entries st)\<rparr>"
  by (auto simp: evict_expired_def evict_entries_dropWhile dropWhile_eq_drop)

lemma evict_expired_ok: "channel_ok cap st \<Longrightarrow> channel_ok cap (evict_expired s st now)"
  using evict_expired_drop [of s st now] channel_ok_drop by fastforce

lemma evict_expired_next [simp]: "cs_next_offset (evict_expired s st now) = cs_next_offset st"
  by (simp add: evict_expired_def)

lemma saturating_succ: "off \<noteq> - 1 \<Longrightarrow> saturating_add off 1 = off + 1"
  by (simp add: saturating_add_def u64_not_max)

lemma saturating_succ_max [simp]: "saturating_add (- 1) 1 = - 1"
  by (simp add: saturating_add_def)

lemma saturating_succ_ge: "off \<le> saturating_add off 1"
  using unat_u64_less [of off] by (simp add: word_le_nat_alt unat_saturating_add)

lemma push_ok:
  assumes "channel_ok cap st" and "1 \<le> cap" and "he_offset e = cs_next_offset st"
  shows "channel_ok cap \<lparr>cs_next_offset = saturating_add (cs_next_offset st) 1,
           cs_entries = trim_front cap (cs_entries st @ [e])\<rparr>"
proof -
  let ?n = "cs_next_offset st"
  have "he_offset e' \<le> saturating_add ?n 1" if "e' \<in> set (cs_entries st @ [e])" for e'
    using that assms saturating_succ_ge [of ?n] order_trans
    by (fastforce simp: channel_ok_def)
  moreover have "consecutive (unat (saturating_add ?n 1)) (cs_entries st @ [e])"
    if "saturating_add ?n 1 \<noteq> - 1"
  proof -
    have "?n \<noteq> - 1" using that by auto
    with assms show ?thesis
      by (simp add: saturating_succ channel_ok_def consecutive_push)
  qed
  ultimately show ?thesis
    by (auto simp: channel_ok_def consecutive_drop simp del: drop_append dest!: in_set_dropD)
qed

lemma with_bounds_inv: "pubsub_inv (with_bounds n ttl)"
  by (simp add: pubsub_inv_def with_bounds_def)

lemma pubsub_inv_update:
  "pubsub_inv s \<Longrightarrow> c \<noteq> [] \<Longrightarrow> channel_ok (ps_history_size s) st \<Longrightarrow>
     pubsub_inv (s\<lparr>ps_state := (ps_state s)(c \<mapsto> st)\<rparr>)"
  by (simp add: pubsub_inv_def)

lemma fresh_channel_ok: "channel_ok n \<lparr>cs_next_offset = 0, cs_entries = []\<rparr>"
  by (simp add: channel_ok_def consecutive_def)

lemma pubsub_publish_inv:
  assumes "pubsub_inv s" shows "pubsub_inv (snd (pubsub_on_publish now c d s))"
proof (cases "c = []")
  case False
  let ?st = "case ps_state s c of Some st \<Rightarrow> st | None \<Rightarrow> \<lparr>cs_next_offset = 0, cs_entries = []\<rparr>"
  have "channel_ok (ps_history_size s) ?st"
    using assms by (auto simp: pubsub_inv_def fresh_channel_ok split: option.splits)
  then have "channel_ok (ps_history_size s) (evict_expired s ?st now)" by (rule evict_expired_ok)
  from push_ok [OF this, of "\<lparr>he_inserted_at = now, he_offset = cs_next_offset ?st, he_data = d\<rparr>"] assms
  have "channel_ok (ps_history_size s)
     \<lparr>cs_next_offset = saturating_add (cs_next_offset ?st) 1,
      cs_entries = trim_front (ps_history_size s) (cs_entries (evict_expired s ?st now) @
        [\<lparr>he_inserted_at = now, he_offset = cs_next_offset ?st, he_data = d\<rparr>])\<rparr>"
    by (simp add: pubsub_inv_def del: trim_front_drop)
  from pubsub_inv_update [OF assms False this] False show ?thesis
    by (simp add: pubsub_on_publish_def Let_def del: trim_front_drop)
qed (simp add: pubsub_on_publish_def assms)

lemma pubsub_replay_inv:
  assumes "pubsub_inv s" shows "pubsub_inv (snd (pubsub_replay_since now c since s))"
proof (cases "ps_state s c")
  case (Some st)
  with assms have "channel_ok (ps_history_size s) st" "c \<noteq> []"
    by (auto simp: pubsub_inv_def)
  with Some assms show ?thesis
    by (simp add: pubsub_replay_since_def Let_def pubsub_inv_update evict_expired_ok)
qed (simp add: pubsub_replay_since_def assms)

lemma pubsub_replay_next [simp]:
  "pubsub_next (snd (pubsub_replay_since now c since s)) = pubsub_next s"
  by (auto simp: pubsub_replay_since_def pubsub_next_def Let_def fun_eq_iff split: option.splits)

lemma pubsub_publish_result:
  "pubsub_on_publish now c d s = (Inr p, s') \<Longrightarrow>
     p = \<lparr>pub_channel = c, pub_offset = pubsub_next s c, pub_data = d\<rparr> \<and>
     pubsub_next s' = (pubsub_next s)(c := saturating_add (pubsub_next s c) 1)"
  by (auto simp: pubsub_on_publish_def pubsub_next_def Let_def fun_eq_iff
      split: if_splits option.splits)

lemma pubsub_publish_error:
  "pubsub_on_publish now c d s = (Inl e, s') \<longleftrightarrow> c = [] \<and> e = InvalidChannel c \<and> s' = s"
  by (auto simp: pubsub_on_publish_def Let_def)

lemma pubsub_replay_entries:
  assumes "pubsub_inv s" and "pubsub_replay_since now c since s = (Inr ps, s')"
    and "ps_state s c = Some st"
  obtains es where "channel_ok (ps_history_size s) (st\<lparr>cs_entries := es\<rparr>)"
    and "ps = map (\<lambda>e. \<lparr>pub_channel = c, pub_offset = he_offset e, pub_data = he_data e\<rparr>)
                (filter (\<lambda>e. he_offset e > since) es)"
proof
  let ?es = "cs_entries (evict_expired s st now)"
  have "channel_ok (ps_history_size s) st" using assms by (simp add: pubsub_inv_def)
  from evict_expired_ok [OF this, of s now]
  show "channel_ok (ps_history_size s) (st\<lparr>cs_entries := ?es\<rparr>)"
    by (simp add: evict_expired_def)
  show "ps = map (\<lambda>e. \<lparr>pub_channel = c, pub_offset = he_offset e, pub_data = he_data e\<rparr>)
                (filter (\<lambda>e. he_offset e > since) ?es)"
    using assms(2,3) by (simp add: pubsub_replay_since_def Let_def)
qed

lemma pubsub_replay_member:
  assumes "pubsub_inv s" and "pubsub_replay_since now c since s = (Inr ps, s')" and "p \<in> set ps"
  shows "pub_channel p = c \<and> since < pub_offset p \<and> pub_offset p \<le> pubsub_next s c"
proof (cases "ps_state s c")
  case (Some st)
  obtain es where "channel_ok (ps_history_size s) (st\<lparr>cs_entries := es\<rparr>)"
    and "ps = map (\<lambda>e. \<lparr>pub_channel = c, pub_offset = he_offset e, pub_data = he_data e\<rparr>)
                (filter (\<lambda>e. he_offset e > since) es)"
    using pubsub_replay_entries [OF assms(1,2) Some] by blast
  with Some assms(3) show ?thesis by (auto simp: channel_ok_def pubsub_next_def)
qed (use assms in \<open>simp add: pubsub_replay_since_def\<close>)

lemma consecutive_sorted:
  assumes "consecutive (unat n) es"
  shows "sorted_wrt (<) (map he_offset es @ [n])"
proof -
  have eq: "map unat (map he_offset es) = [unat n - length es..<unat n]"
    using assms by (simp add: consecutive_def o_def)
  have "sorted_wrt (<) (map unat (map he_offset es) @ [unat n])"
    by (simp only: eq) (auto simp: sorted_wrt_append)
  then show ?thesis
    by (simp add: sorted_wrt_append sorted_wrt_map word_less_nat_alt)
qed

lemma pubsub_replay_sorted:
  assumes "pubsub_inv s" and "pubsub_replay_since now c since s = (Inr ps, s')"
    and "pubsub_next s c \<noteq> - 1"
  shows "sorted_wrt (<) (map pub_offset ps @ [pubsub_next s c])"
proof (cases "ps_state s c")
  case (Some st)
  obtain es where es: "channel_ok (ps_history_size s) (st\<lparr>cs_entries := es\<rparr>)"
    and ps: "ps = map (\<lambda>e. \<lparr>pub_channel = c, pub_offset = he_offset e, pub_data = he_data e\<rparr>)
                (filter (\<lambda>e. he_offset e > since) es)"
    using pubsub_replay_entries [OF assms(1,2) Some] by blast
  have "consecutive (unat (pubsub_next s c)) es"
    using es assms(3) Some by (simp add: channel_ok_def pubsub_next_def)
  from consecutive_sorted [OF this] show ?thesis
    by (auto simp: ps o_def sorted_wrt_append sorted_wrt_map intro: sorted_wrt_filter)
qed (use assms in \<open>simp add: pubsub_replay_since_def\<close>)

interpretation pubsub: channel_kind pubsub_ops pubsub_inv pubsub_next
proof
  fix k :: pubsub and now :: instant and c :: string and d :: bytes and since :: u64
    and p :: publication and ps and k' :: pubsub and cur and e
  assume inv: "pubsub_inv k"
  show "k_on_subscribe pubsub_ops c k = (Inr cur, k') \<Longrightarrow>
      cur_offset cur = saturating_sub (pubsub_next k c) 1"
    by (auto simp: pubsub_ops_def pubsub_on_subscribe_def pubsub_cursor_def cursor_locked_def
        pubsub_next_def saturating_sub_def split: if_splits option.splits)
  show "k_replay_since pubsub_ops now c since k = (Inr ps, k') \<Longrightarrow> p \<in> set ps \<Longrightarrow>
      pub_channel p = c \<and> since < pub_offset p \<and> pub_offset p \<le> pubsub_next k c"
    using pubsub_replay_member [OF inv] by (simp add: pubsub_ops_def)
  show "c' \<noteq> c \<Longrightarrow> pubsub_next (snd (k_on_publish pubsub_ops now c d k)) c' = pubsub_next k c'" for c'
    by (simp add: pubsub_ops_def pubsub_on_publish_def pubsub_next_def Let_def)
qed (auto simp: pubsub_ops_def pubsub_on_subscribe_def pubsub_on_unsubscribe_def ok_def
       pubsub_publish_inv pubsub_replay_inv pubsub_replay_sorted saturating_succ
       pubsub_publish_error dest: pubsub_publish_result)

text \<open>
  With entries recorded in the order of the clock, a replay is a filter of the retained history, and
  the offsets it returns run without a gap up to the last one.
\<close>

lemma consecutive_after:
  assumes "consecutive (unat (n :: u64)) es"
  shows "consecutive (unat n) (filter (\<lambda>e. since < he_offset e) es)"
proof -
  have srt: "sorted_wrt (\<lambda>e e'. he_offset e < he_offset e') es"
    using consecutive_sorted [OF assms] by (simp add: sorted_wrt_append sorted_wrt_map)
  then have "filter (\<lambda>e. since < he_offset e) es = dropWhile (\<lambda>e. he_offset e \<le> since) es"
  proof (induction es)
    case (Cons e es)
    have "filter (\<lambda>e. since < he_offset e) es = es" if "since < he_offset e"
      using that Cons.prems by (auto simp: filter_id_conv intro: less_trans)
    with Cons show ?case by (auto simp: not_less)
  qed simp
  with assms show ?thesis by (simp add: dropWhile_eq_drop consecutive_drop)
qed

lemma evict_entries_filter:
  assumes "sorted (map he_inserted_at es)"
  shows "evict_entries ttl now es = filter (\<lambda>e. now - he_inserted_at e \<le> ttl) es"
  using assms
proof (induction es)
  case (Cons e es)
  have "filter (\<lambda>e. now - he_inserted_at e \<le> ttl) es = es" if "now - he_inserted_at e \<le> ttl"
    using that Cons.prems diff_le_mono2 [of "he_inserted_at e" _ now] by (fastforce simp: filter_id_conv)
  with Cons show ?case by auto
qed simp

lemma pubsub_replay_retained:
  assumes "ps_state s c = Some st" and "sorted (map he_inserted_at (cs_entries st))"
  shows "fst (pubsub_replay_since now c since s) =
     Inr (map (\<lambda>e. \<lparr>pub_channel = c, pub_offset = he_offset e, pub_data = he_data e\<rparr>)
       (filter (\<lambda>e. since < he_offset e \<and> now - he_inserted_at e \<le> ps_history_ttl s) (cs_entries st)))"
  by (simp add: pubsub_replay_since_def assms Let_def evict_expired_def evict_entries_filter
      conj_commute)

lemma pubsub_retained_consecutive:
  assumes "pubsub_inv s" and "ps_state s c = Some st" and "cs_next_offset st \<noteq> - 1"
    and "sorted (map he_inserted_at (cs_entries st))"
  shows "consecutive (unat (cs_next_offset st))
     (filter (\<lambda>e. since < he_offset e \<and> now - he_inserted_at e \<le> ps_history_ttl s) (cs_entries st))"
proof -
  have "channel_ok (ps_history_size s) (evict_expired s st now)"
    using assms(1,2) by (simp add: pubsub_inv_def evict_expired_ok)
  then have "consecutive (unat (cs_next_offset st)) (cs_entries (evict_expired s st now))"
    using assms(3) by (simp add: channel_ok_def)
  from consecutive_after [OF this, of since] assms(4) show ?thesis
    by (simp add: evict_expired_def evict_entries_filter conj_commute)
qed

section \<open>The specification: an unbounded log per channel\<close>

text \<open>
  The specification keeps every publication ever accepted, with its time. A channel's offsets are
  the positions in its log, counted from 0; a cursor names the last of them; replay answers from the
  window that the size cap and the TTL leave.
\<close>

type_synonym log = "string \<Rightarrow> (instant \<times> bytes) list"

datatype pubsub_call =
    CSubscribe string
  | CUnsubscribe string
  | CPublish instant string bytes
  | CReplay instant string u64

datatype pubsub_reply =
    RCursor "(channel_error, channel_cursor) result"
  | RDone "(channel_error, unit) result"
  | RPublication "(channel_error, publication) result"
  | RReplay "(channel_error, publication list) result"

fun pubsub_do :: "pubsub_call \<Rightarrow> pubsub \<Rightarrow> pubsub_reply \<times> pubsub" where
  "pubsub_do (CSubscribe c) s = map_prod RCursor id (pubsub_on_subscribe c s)"
| "pubsub_do (CUnsubscribe c) s = map_prod RDone id (pubsub_on_unsubscribe c s)"
| "pubsub_do (CPublish now c d) s = map_prod RPublication id (pubsub_on_publish now c d s)"
| "pubsub_do (CReplay now c since) s = map_prod RReplay id (pubsub_replay_since now c since s)"

definition log_pub :: "string \<Rightarrow> (instant \<times> bytes) list \<Rightarrow> nat \<Rightarrow> publication" where
  "log_pub c l i = \<lparr>pub_channel = c, pub_offset = of_nat i, pub_data = snd (l ! i)\<rparr>"

fun log_do :: "nat \<Rightarrow> duration \<Rightarrow> pubsub_call \<Rightarrow> log \<Rightarrow> pubsub_reply \<times> log" where
  "log_do cap ttl (CSubscribe c) L =
     (if c = [] then (RCursor (Inl (InvalidChannel c)), L)
      else (RCursor (Inr \<lparr>cur_epoch = 1, cur_offset = of_nat (length (L c) - 1)\<rparr>), L))"
| "log_do cap ttl (CUnsubscribe c) L = (RDone (Inr ()), L)"
| "log_do cap ttl (CPublish now c d) L =
     (if c = [] then (RPublication (Inl (InvalidChannel c)), L)
      else let l = L c @ [(now, d)]
           in (RPublication (Inr (log_pub c l (length (L c)))), L(c := l)))"
| "log_do cap ttl (CReplay now c since) L =
     (RReplay (Inr (map (log_pub c (L c))
        (filter (\<lambda>i. unat since < i \<and> now - fst (L c ! i) \<le> ttl)
                [length (L c) - cap..<length (L c)]))), L)"

fun run_calls :: "('c \<Rightarrow> 's \<Rightarrow> 'r \<times> 's) \<Rightarrow> 'c list \<Rightarrow> 's \<Rightarrow> 'r list" where
  "run_calls f [] s = []"
| "run_calls f (c # cs) s = (let (r, s') = f c s in r # run_calls f cs s')"

text \<open>The clock the calls read does not go backwards.\<close>

fun call_time :: "instant \<Rightarrow> pubsub_call \<Rightarrow> instant" where
  "call_time T (CPublish now c d) = now"
| "call_time T (CReplay now c since) = now"
| "call_time T _ = T"

fun monotone_clock :: "instant \<Rightarrow> pubsub_call list \<Rightarrow> bool" where
  "monotone_clock T [] = True"
| "monotone_clock T (c # cs) = (T \<le> call_time T c \<and> monotone_clock (call_time T c) cs)"

subsection \<open>The simulation\<close>

definition entry_of :: "(instant \<times> bytes) list \<Rightarrow> nat \<Rightarrow> history_entry" where
  "entry_of l i = \<lparr>he_inserted_at = fst (l ! i), he_offset = of_nat i, he_data = snd (l ! i)\<rparr>"

text \<open>
  A channel's ring buffer holds the log's entries from some position \<open>m\<close> on; what lies before
  \<open>m\<close> is outside the cap or expired at time \<open>T\<close>.
\<close>

definition suffix_from :: "nat \<Rightarrow> duration \<Rightarrow> instant \<Rightarrow> (instant \<times> bytes) list \<Rightarrow> nat \<Rightarrow>
    history_entry list \<Rightarrow> bool" where
  "suffix_from cap ttl T l m es \<longleftrightarrow>
     m \<le> length l \<and> length l - m \<le> cap \<and> es = map (entry_of l) [m..<length l] \<and>
     (\<forall>i. length l - cap \<le> i \<longrightarrow> i < m \<longrightarrow> ttl < T - fst (l ! i))"

definition sim_channel :: "nat \<Rightarrow> duration \<Rightarrow> instant \<Rightarrow> (instant \<times> bytes) list \<Rightarrow>
    channel_state option \<Rightarrow> bool" where
  "sim_channel cap ttl T l st \<longleftrightarrow>
     sorted (map fst l) \<and> (\<forall>x \<in> set l. fst x \<le> T) \<and>
     (case st of
        None \<Rightarrow> l = []
      | Some st \<Rightarrow> unat (cs_next_offset st) = length l \<and>
          (\<exists>m. suffix_from cap ttl T l m (cs_entries st)))"

definition sim :: "instant \<Rightarrow> log \<Rightarrow> pubsub \<Rightarrow> bool" where
  "sim T L s \<longleftrightarrow> ps_epoch s = 1 \<and> 1 \<le> ps_history_size s \<and>
     (\<forall>c. sim_channel (ps_history_size s) (ps_history_ttl s) T (L c) (ps_state s c))"

lemma evict_suffix:
  assumes "suffix_from cap ttl T l m es" and "T \<le> now"
  shows "\<exists>m'. suffix_from cap ttl now l m' (evict_entries ttl now es)"
proof -
  let ?P = "\<lambda>i. ttl < now - fst (l ! i)"
  have m: "m \<le> length l" and es: "es = map (entry_of l) [m..<length l]"
    and old: "\<And>i. length l - cap \<le> i \<Longrightarrow> i < m \<Longrightarrow> ?P i"
    using assms by (auto simp: suffix_from_def intro: less_le_trans)
  obtain m' where m': "m \<le> m'" "m' \<le> length l" "dropWhile ?P [m..<length l] = [m'..<length l]"
      "\<forall>i. m \<le> i \<longrightarrow> i < m' \<longrightarrow> ?P i"
    using dropWhile_upt [OF m, of ?P] by blast
  have "evict_entries ttl now es = map (entry_of l) [m'..<length l]"
    by (simp add: evict_entries_dropWhile es dropWhile_map o_def entry_of_def m'(3))
  moreover have "?P i" if "length l - cap \<le> i" "i < m'" for i
    using that old m'(4) by (cases "i < m") auto
  ultimately have "suffix_from cap ttl now l m' (evict_entries ttl now es)"
    using m' assms(1) by (auto simp: suffix_from_def)
  then show ?thesis ..
qed

lemma evict_filter:
  assumes "sorted (map fst l)"
  shows "evict_entries ttl now (map (entry_of l) [m..<length l]) =
         map (entry_of l) (filter (\<lambda>i. now - fst (l ! i) \<le> ttl) [m..<length l])"
proof -
  let ?P = "\<lambda>i. i < length l \<and> ttl < now - fst (l ! i)"
  have "dropWhile (\<lambda>i. ttl < now - fst (l ! i)) [m..<length l] = dropWhile ?P [m..<length l]"
    by (rule dropWhile_cong) auto
  also have "\<dots> = filter (\<lambda>i. \<not> ?P i) [m..<length l]"
  proof (rule dropWhile_filter_antimono)
    fix i j assume "?P j" and "i \<le> j"
    moreover from this have "fst (l ! i) \<le> fst (l ! j)"
      using sorted_nth_mono [OF assms, of i j] by simp
    ultimately show "?P i" by auto
  qed simp
  also have "\<dots> = filter (\<lambda>i. now - fst (l ! i) \<le> ttl) [m..<length l]"
    by (rule filter_cong) auto
  finally show ?thesis
    by (simp add: evict_entries_dropWhile dropWhile_map o_def entry_of_def)
qed

lemma window_filter:
  assumes "suffix_from cap ttl T l m es" and "T \<le> now"
  shows "filter (\<lambda>i. Q i \<and> now - fst (l ! i) \<le> ttl) [length l - cap..<length l] =
         filter (\<lambda>i. Q i \<and> now - fst (l ! i) \<le> ttl) [m..<length l]"
proof -
  have m: "length l - cap \<le> m" "m \<le> length l" using assms by (auto simp: suffix_from_def)
  have "\<not> now - fst (l ! i) \<le> ttl" if "length l - cap \<le> i" "i < m" for i
    using assms that by (fastforce simp: suffix_from_def)
  then have "filter (\<lambda>i. Q i \<and> now - fst (l ! i) \<le> ttl) [length l - cap..<m] = []"
    by (auto simp: filter_empty_conv)
  moreover have "[length l - cap..<length l] = [length l - cap..<m] @ [m..<length l]"
    using upt_add_eq_append [OF m(1), of "length l - m"] m(2) by simp
  ultimately show ?thesis by simp
qed

lemma replay_entries_spec:
  assumes "suffix_from cap ttl T l m es" and "T \<le> now" and "sorted (map fst l)"
    and "length l < 2 ^ 64"
  shows "map (\<lambda>e. \<lparr>pub_channel = c, pub_offset = he_offset e, pub_data = he_data e\<rparr>)
           (filter (\<lambda>e. he_offset e > since) (evict_entries ttl now es)) =
         map (log_pub c l) (filter (\<lambda>i. unat since < i \<and> now - fst (l ! i) \<le> ttl)
           [length l - cap..<length l])"
proof -
  have es: "es = map (entry_of l) [m..<length l]" using assms(1) by (simp add: suffix_from_def)
  have "unat (of_nat i :: u64) = i" if "i < length l" for i
    using that assms(4) by (simp add: unsigned_of_nat take_bit_nat_eq_self)
  then have "filter (\<lambda>i. (of_nat i :: u64) > since) (filter P [m..<length l]) =
      filter (\<lambda>i. unat since < i \<and> P i) [m..<length l]" for P
    by (auto simp: filter_filter word_less_nat_alt intro!: filter_cong)
  then show ?thesis
    by (simp add: es evict_filter [OF assms(3)] window_filter [OF assms(1,2)] filter_map o_def
        entry_of_def log_pub_def)
qed

lemma push_suffix:
  assumes "suffix_from cap ttl T l m es" and "1 \<le> cap"
  shows "\<exists>m'. suffix_from cap ttl T (l @ [(now, d)]) m'
           (trim_front cap (es @ [entry_of (l @ [(now, d)]) (length l)]))"
proof -
  let ?l = "l @ [(now, d)]" and ?n = "length l"
  let ?m = "max m (Suc ?n - cap)"
  have m: "m \<le> ?n" and es: "es = map (entry_of l) [m..<?n]"
    and old: "\<And>i. ?n - cap \<le> i \<Longrightarrow> i < m \<Longrightarrow> ttl < T - fst (l ! i)"
    using assms by (auto simp: suffix_from_def)
  have "map (entry_of l) [m..<?n] = map (entry_of ?l) [m..<?n]"
    by (auto simp: entry_of_def nth_append)
  then have "es @ [entry_of ?l ?n] = map (entry_of ?l) [m..<Suc ?n]" using es m by simp
  moreover have "drop (length [m..<Suc ?n] - cap) [m..<Suc ?n] = [?m..<Suc ?n]"
  proof -
    have "m + (Suc ?n - m - cap) = ?m" using m by arith
    then show ?thesis by (simp only: drop_upt length_upt)
  qed
  ultimately have "trim_front cap (es @ [entry_of ?l ?n]) = map (entry_of ?l) [?m..<Suc ?n]"
    by (simp add: drop_map del: upt_Suc)
  moreover have "ttl < T - fst (?l ! i)" if "Suc ?n - cap \<le> i" "i < ?m" for i
    using that old [of i] m by (auto simp: nth_append max_def split: if_splits)
  ultimately have "suffix_from cap ttl T ?l ?m (trim_front cap (es @ [entry_of ?l ?n]))"
    using m assms(2) by (auto simp: suffix_from_def simp del: upt_Suc)
  then show ?thesis ..
qed

lemma sim_channel_step:
  "sim_channel cap ttl T l st \<Longrightarrow> T \<le> now \<Longrightarrow> sim_channel cap ttl now l st"
  by (fastforce simp: sim_channel_def suffix_from_def split: option.splits)

lemma sim_later: "sim T L s \<Longrightarrow> T \<le> now \<Longrightarrow> sim now L s"
  by (auto simp: sim_def intro: sim_channel_step)

lemma sim_update:
  "sim T L s \<Longrightarrow> sim_channel (ps_history_size s) (ps_history_ttl s) T l (Some st) \<Longrightarrow>
     sim T (L(c := l)) (s\<lparr>ps_state := (ps_state s)(c \<mapsto> st)\<rparr>)"
  by (simp add: sim_def)

lemma sim_replay:
  assumes "sim T L s" and "T \<le> now" and "length (L c) < 2 ^ 64"
  shows "fst (pubsub_do (CReplay now c since) s) =
           fst (log_do (ps_history_size s) (ps_history_ttl s) (CReplay now c since) L)"
    and "sim now L (snd (pubsub_do (CReplay now c since) s))"
proof -
  have c: "sim_channel (ps_history_size s) (ps_history_ttl s) T (L c) (ps_state s c)"
    using assms(1) by (simp add: sim_def)
  have "fst (pubsub_do (CReplay now c since) s) =
          fst (log_do (ps_history_size s) (ps_history_ttl s) (CReplay now c since) L) \<and>
        sim now L (snd (pubsub_do (CReplay now c since) s))"
  proof (cases "ps_state s c")
    case None
    with c assms show ?thesis
      by (simp add: pubsub_replay_since_def sim_channel_def sim_later)
  next
    case (Some st)
    then obtain m where m: "suffix_from (ps_history_size s) (ps_history_ttl s) T (L c) m (cs_entries st)"
      and n: "unat (cs_next_offset st) = length (L c)" and srt: "sorted (map fst (L c))"
      using c by (auto simp: sim_channel_def)
    have "sim_channel (ps_history_size s) (ps_history_ttl s) now (L c)
            (Some (evict_expired s st now))"
      using c Some evict_suffix [OF m assms(2)] assms(2) n
      by (fastforce simp: sim_channel_def evict_expired_def)
    from sim_update [OF sim_later [OF assms(1,2)] this, of c] Some
    show ?thesis
      using replay_entries_spec [OF m assms(2) srt assms(3)]
      by (simp add: pubsub_replay_since_def Let_def evict_expired_def)
  qed
  then show "fst (pubsub_do (CReplay now c since) s) =
      fst (log_do (ps_history_size s) (ps_history_ttl s) (CReplay now c since) L)"
    and "sim now L (snd (pubsub_do (CReplay now c since) s))" by auto
qed

lemma sim_publish_channel:
  assumes "sim_channel cap ttl T l st" and "T \<le> now" and "1 \<le> cap" and "Suc (length l) < 2 ^ 64"
    and "st' = (case st of Some st \<Rightarrow> st | None \<Rightarrow> \<lparr>cs_next_offset = 0, cs_entries = []\<rparr>)"
  shows "cs_next_offset st' = of_nat (length l)"
    and "sim_channel cap ttl now (l @ [(now, d)])
      (Some \<lparr>cs_next_offset = saturating_add (cs_next_offset st') 1,
             cs_entries = trim_front cap (evict_entries ttl now (cs_entries st') @
               [\<lparr>he_inserted_at = now, he_offset = cs_next_offset st', he_data = d\<rparr>])\<rparr>)"
proof -
  have srt: "sorted (map fst l)" "\<forall>x \<in> set l. fst x \<le> now"
    using assms(1,2) by (auto simp: sim_channel_def)
  obtain m where n: "unat (cs_next_offset st') = length l"
    and m: "suffix_from cap ttl T l m (cs_entries st')"
    using assms(1,5) by (auto simp: sim_channel_def suffix_from_def split: option.splits)
  show off: "cs_next_offset st' = of_nat (length l)"
    using n assms(4) by (simp add: word_unat_eq_iff unsigned_of_nat take_bit_nat_eq_self)
  have "he_offset (entry_of (l @ [(now, d)]) (length l)) = cs_next_offset st'"
    by (simp add: entry_of_def off)
  then have e: "\<lparr>he_inserted_at = now, he_offset = cs_next_offset st', he_data = d\<rparr> =
      entry_of (l @ [(now, d)]) (length l)"
    by (simp add: entry_of_def)
  obtain m' where "suffix_from cap ttl now l m' (evict_entries ttl now (cs_entries st'))"
    using evict_suffix [OF m assms(2)] by blast
  from push_suffix [OF this assms(3), of now d]
  show "sim_channel cap ttl now (l @ [(now, d)])
      (Some \<lparr>cs_next_offset = saturating_add (cs_next_offset st') 1,
             cs_entries = trim_front cap (evict_entries ttl now (cs_entries st') @
               [\<lparr>he_inserted_at = now, he_offset = cs_next_offset st', he_data = d\<rparr>])\<rparr>)"
    using srt n assms(4) unfolding e
    by (auto simp: sim_channel_def sorted_append unat_saturating_add simp del: trim_front_drop)
qed

lemma pubsub_do_config [simp]:
  "ps_history_size (snd (pubsub_do call s)) = ps_history_size s"
  "ps_history_ttl (snd (pubsub_do call s)) = ps_history_ttl s"
  by (cases call; auto simp: pubsub_defs ok_def Let_def split: option.splits)+

lemma sim_publish:
  assumes "sim T L s" and "T \<le> now" and "Suc (length (L c)) < 2 ^ 64"
  shows "fst (pubsub_do (CPublish now c d) s) =
           fst (log_do (ps_history_size s) (ps_history_ttl s) (CPublish now c d) L) \<and>
         sim now (snd (log_do (ps_history_size s) (ps_history_ttl s) (CPublish now c d) L))
           (snd (pubsub_do (CPublish now c d) s))"
proof (cases "c = []")
  case False
  let ?st = "case ps_state s c of Some st \<Rightarrow> st | None \<Rightarrow> \<lparr>cs_next_offset = 0, cs_entries = []\<rparr>"
  have c: "sim_channel (ps_history_size s) (ps_history_ttl s) T (L c) (ps_state s c)"
    and size: "1 \<le> ps_history_size s"
    using assms(1) by (simp_all add: sim_def)
  note pc = sim_publish_channel [OF c assms(2) size assms(3) refl]
  from sim_update [OF sim_later [OF assms(1,2)] pc(2) [of d], of c] False pc(1)
  show ?thesis
    by (simp add: pubsub_on_publish_def Let_def evict_expired_def log_pub_def del: trim_front_drop)
qed (use assms sim_later in \<open>simp add: pubsub_on_publish_def\<close>)

lemma sim_subscribe:
  assumes "sim T L s" and "length (L c) < 2 ^ 64"
  shows "pubsub_on_subscribe c s =
     (if c = [] then Inl (InvalidChannel c)
      else Inr \<lparr>cur_epoch = 1, cur_offset = of_nat (length (L c) - 1)\<rparr>, s)"
proof -
  have c: "sim_channel (ps_history_size s) (ps_history_ttl s) T (L c) (ps_state s c)"
    and ep: "ps_epoch s = 1"
    using assms(1) by (simp_all add: sim_def)
  have "saturating_sub (cs_next_offset st) 1 = of_nat (length (L c) - 1)"
    if "ps_state s c = Some st" for st
    using c that assms(2)
    by (simp add: sim_channel_def word_unat_eq_iff unat_saturating_sub unsigned_of_nat
        take_bit_nat_eq_self)
  with c ep show ?thesis
    by (auto simp: pubsub_on_subscribe_def pubsub_cursor_def cursor_locked_def sim_channel_def
        split: option.splits)
qed

lemma sim_step:
  assumes "sim T L s" and "T \<le> call_time T call" and "\<And>c. Suc (length (L c)) < 2 ^ 64"
  shows "fst (pubsub_do call s) = fst (log_do (ps_history_size s) (ps_history_ttl s) call L) \<and>
         sim (call_time T call) (snd (log_do (ps_history_size s) (ps_history_ttl s) call L))
           (snd (pubsub_do call s))"
proof (cases call)
  case (CSubscribe c)
  with assms sim_subscribe [OF assms(1), of c] Suc_lessD show ?thesis by simp
next
  case (CUnsubscribe c)
  with assms show ?thesis by (simp add: pubsub_on_unsubscribe_def ok_def)
next
  case (CPublish now c d)
  with assms sim_publish [OF assms(1), of now c d] show ?thesis by simp
next
  case (CReplay now c since)
  with assms sim_replay [OF assms(1), of now c since] Suc_lessD show ?thesis by simp
qed

lemma log_do_length:
  "length (snd (log_do cap ttl call L) c) \<le> Suc (length (L c))"
  by (cases call) (auto simp: Let_def)

lemma sim_run:
  "sim T L s \<Longrightarrow> monotone_clock T calls \<Longrightarrow> (\<And>c. length (L c) + length calls < 2 ^ 64) \<Longrightarrow>
     run_calls pubsub_do calls s =
     run_calls (log_do (ps_history_size s) (ps_history_ttl s)) calls L"
proof (induction calls arbitrary: T L s)
  case (Cons call calls)
  let ?g = "log_do (ps_history_size s) (ps_history_ttl s)"
  have bound: "Suc (length (L c)) < 2 ^ 64" for c using Cons.prems(3) [of c] by simp
  have bound': "length (snd (?g call L) c) + length calls < 2 ^ 64" for c
    using Cons.prems(3) [of c] log_do_length [of _ _ call L c]
    by (metis add_Suc_right add_Suc_shift length_Cons add_le_mono1 le_less_trans)
  have "T \<le> call_time T call" using Cons.prems(2) by simp
  note step = sim_step [OF Cons.prems(1) this bound]
  have "run_calls pubsub_do calls (snd (pubsub_do call s)) = run_calls ?g calls (snd (?g call L))"
    using Cons.IH [OF conjunct2 [OF step] _ bound'] Cons.prems(2) by simp
  with step show ?case by (simp add: split_beta)
qed simp

lemma sim_init: "sim 0 (\<lambda>_. []) (with_bounds n ttl)"
  by (simp add: sim_def with_bounds_def sim_channel_def)

section \<open>Properties\<close>

fun exec_calls :: "('c \<Rightarrow> 's \<Rightarrow> 'r \<times> 's) \<Rightarrow> 'c list \<Rightarrow> 's \<Rightarrow> 's" where
  "exec_calls f [] s = s"
| "exec_calls f (c # cs) s = exec_calls f cs (snd (f c s))"

text \<open>The publications a sequence of replies accepted on a channel.\<close>

fun accepted :: "string \<Rightarrow> pubsub_reply list \<Rightarrow> publication list" where
  "accepted c [] = []"
| "accepted c (r # rs) =
     (case r of RPublication (Inr p) \<Rightarrow> if pub_channel p = c then p # accepted c rs else accepted c rs
      | _ \<Rightarrow> accepted c rs)"

lemma pubsub_do_inv: "pubsub_inv s \<Longrightarrow> pubsub_inv (snd (pubsub_do call s))"
  by (cases call)
     (simp_all add: pubsub_publish_inv pubsub_replay_inv pubsub_on_subscribe_def
        pubsub_on_unsubscribe_def ok_def)

lemma pubsub_exec_inv: "pubsub_inv s \<Longrightarrow> pubsub_inv (exec_calls pubsub_do calls s)"
  by (induction calls arbitrary: s) (simp_all add: pubsub_do_inv)

lemma pubsub_exec_config [simp]:
  "ps_history_size (exec_calls pubsub_do calls s) = ps_history_size s"
  by (induction calls arbitrary: s) simp_all

text \<open>Each call either accepts one publication on \<open>c\<close>, at the next offset, or leaves it alone.\<close>

lemma pubsub_do_accepted:
  "(\<exists>p. fst (pubsub_do call s) = RPublication (Inr p) \<and> pub_channel p = c \<and>
        pub_offset p = pubsub_next s c \<and>
        pubsub_next (snd (pubsub_do call s)) c = saturating_add (pubsub_next s c) 1) \<or>
   accepted c [fst (pubsub_do call s)] = [] \<and>
     pubsub_next (snd (pubsub_do call s)) c = pubsub_next s c"
proof (cases call)
  case (CPublish now c' d)
  obtain r s' where pub: "pubsub_on_publish now c' d s = (r, s')"
    by (cases "pubsub_on_publish now c' d s")
  then show ?thesis
  proof (cases r)
    case (Inl e)
    with pub have "s' = s" by (simp add: pubsub_publish_error)
    with pub Inl CPublish show ?thesis by simp
  next
    case (Inr p)
    with pub have "p = \<lparr>pub_channel = c', pub_offset = pubsub_next s c', pub_data = d\<rparr>"
      "pubsub_next s' = (pubsub_next s)(c' := saturating_add (pubsub_next s c') 1)"
      using pubsub_publish_result by blast+
    with pub Inr CPublish show ?thesis by (cases "c' = c") simp_all
  qed
qed (simp_all add: pubsub_on_subscribe_def pubsub_on_unsubscribe_def ok_def)

lemma accepted_offsets_from:
  "unat (pubsub_next s c) + length calls < 2 ^ 64 \<Longrightarrow>
     map (unat \<circ> pub_offset) (accepted c (run_calls pubsub_do calls s)) =
     [unat (pubsub_next s c)..<
      unat (pubsub_next s c) + length (accepted c (run_calls pubsub_do calls s))]"
proof (induction calls arbitrary: s)
  case (Cons call calls)
  let ?r = "fst (pubsub_do call s)" and ?s = "snd (pubsub_do call s)"
  have run: "run_calls pubsub_do (call # calls) s = ?r # run_calls pubsub_do calls ?s"
    by (simp add: split_beta)
  from pubsub_do_accepted [of call s c] show ?case
  proof (elim disjE exE conjE)
    fix p assume p: "?r = RPublication (Inr p)" "pub_channel p = c"
      "pub_offset p = pubsub_next s c" "pubsub_next ?s c = saturating_add (pubsub_next s c) 1"
    then have "unat (pubsub_next ?s c) = Suc (unat (pubsub_next s c))"
      using Cons.prems by (simp add: unat_saturating_add)
    with Cons.IH [of ?s] Cons.prems p run show ?thesis
      by (simp add: upt_conv_Cons del: upt_Suc)
  next
    assume "accepted c [?r] = []" "pubsub_next ?s c = pubsub_next s c"
    with Cons.IH [of ?s] Cons.prems run show ?thesis
      by (simp split: pubsub_reply.splits sum.splits if_splits)
  qed
qed simp

text \<open>
  C5. Refinement. Every sequence of calls on a fresh pub/sub channel kind, with a clock that does
  not go backwards and fewer calls than offsets, gets exactly the replies of the unbounded log:
  offsets are log positions from 0, the cursor is epoch 1 with the position of the last publication
  (0 if there is none), and replay returns precisely the entries after the given offset that are among
  the last \<open>history_size\<close> and not older than the TTL. The cursor is the code's:
  \<open>openspec/specs/pubsub-channel\<close> has epoch 0 for a new channel and offset \<open>N\<close>, not \<open>N - 1\<close>, after
  \<open>N\<close> publications.
\<close>

theorem pubsub_refines_log:
  assumes "monotone_clock 0 calls" and "length calls < 2 ^ 64"
  shows "run_calls pubsub_do calls (with_bounds n ttl) =
         run_calls (log_do (max n 1) ttl) calls (\<lambda>_. [])"
  using sim_run [OF sim_init assms(1), of n ttl] assms(2) by (simp add: with_bounds_def)

theorem pubsub_refines_log_witness:
  "let calls = [CPublish 1 ''a'' [104], CPublish 2 ''a'' [105], CPublish 3 ''a'' [106],
                CSubscribe ''a'', CReplay 4 ''a'' 0, CReplay 13 ''a'' 0, CPublish 14 [] []]
   in monotone_clock 0 calls \<and> run_calls pubsub_do calls (with_bounds 2 10) =
      run_calls (log_do 2 10) calls (\<lambda>_. [])"
  using pubsub_refines_log [of "[CPublish 1 ''a'' [104], CPublish 2 ''a'' [105],
      CPublish 3 ''a'' [106], CSubscribe ''a'', CReplay 4 ''a'' 0, CReplay 13 ''a'' 0,
      CPublish 14 [] []]" 2 10]
  by (simp add: Let_def)

text \<open>
  C35. The retained history of a channel never exceeds the configured cap (at least one entry),
  whatever sequence of calls has run.
\<close>

theorem history_bounded:
  "history_len (exec_calls pubsub_do calls (with_bounds n ttl)) c \<le> max n 1"
proof -
  let ?s = "exec_calls pubsub_do calls (with_bounds n ttl)"
  have "pubsub_inv ?s" by (rule pubsub_exec_inv [OF with_bounds_inv])
  moreover have "ps_history_size ?s = max n 1" by (simp add: with_bounds_def)
  ultimately show ?thesis
    by (auto simp: history_len_def pubsub_inv_def channel_ok_def split: option.splits)
qed

text \<open>
  The publications accepted on a channel, in any sequence of calls on any channels, carry the
  offsets 0, 1, 2, ... in order, as long as the 64-bit counter does not run out.
\<close>

lemma publication_offsets_consecutive:
  assumes "length calls < 2 ^ 64"
  shows "map (unat \<circ> pub_offset) (accepted c (run_calls pubsub_do calls (with_bounds n ttl))) =
         [0..<length (accepted c (run_calls pubsub_do calls (with_bounds n ttl)))]"
  using accepted_offsets_from [of "with_bounds n ttl" c calls] assms
  by (simp add: pubsub_next_def with_bounds_def)

end
