(* ===== verification/MemBroker.thy ===== *)
theory MemBroker
  imports Traits "HOL-Library.AList"
begin

text \<open>
  \<open>cherenkov-broker/src/lib.rs\<close>: the in-process broker. \<open>tokio::sync::broadcast\<close> is a
  parameter with its documented laws as a locale; under them the broker meets the broker contract.
\<close>

declare map_of_eq_Some_iff [simp del]

section \<open>What the broker uses of \<open>tokio::sync::broadcast\<close>\<close>

datatype bc_recv = RecvOk publication | RecvLagged nat | RecvEmpty | RecvClosed

text \<open>
  Senders and receivers are handles into the state of all broadcast channels. \<open>bc_send\<close> fails
  when there is no receiver. Dropping the receiver that \<open>channel\<close> returns is part of \<open>bc_channel\<close>.
\<close>

record 'c broadcast =
  bc_channel :: "nat \<Rightarrow> 'c \<Rightarrow> nat \<times> 'c"
  bc_subscribe :: "nat \<Rightarrow> 'c \<Rightarrow> nat \<times> 'c"
  bc_send :: "nat \<Rightarrow> publication \<Rightarrow> 'c \<Rightarrow> bool \<times> 'c"
  bc_receiver_count :: "nat \<Rightarrow> 'c \<Rightarrow> nat"
  bc_try_recv :: "nat \<Rightarrow> 'c \<Rightarrow> bc_recv \<times> 'c"
  bc_drop_receiver :: "nat \<Rightarrow> 'c \<Rightarrow> 'c"

section \<open>The broker\<close>

definition DEFAULT_TOPIC_CAPACITY :: nat where "DEFAULT_TOPIC_CAPACITY = 1024"

text \<open>
  \<open>mb_labels\<close> holds the topic label each subscription stream captures and \<open>mb_dropped\<close> the
  counter \<open>cherenkov_broker_dropped_total\<close> by topic.
\<close>

record 'c mem_broker =
  mb_topics :: "(string \<times> nat) list"
  mb_capacity :: nat
  mb_chans :: 'c
  mb_labels :: "nat \<Rightarrow> string option"
  mb_dropped :: "string \<Rightarrow> nat"

definition mem_with_capacity :: "nat \<Rightarrow> 'c \<Rightarrow> 'c mem_broker" where
  "mem_with_capacity capacity chans =
     \<lparr>mb_topics = [], mb_capacity = max capacity 1, mb_chans = chans, mb_labels = Map.empty,
      mb_dropped = (\<lambda>_. 0)\<rparr>"

definition mem_new :: "'c \<Rightarrow> 'c mem_broker" where
  "mem_new chans = mem_with_capacity DEFAULT_TOPIC_CAPACITY chans"

definition topic_count :: "'c mem_broker \<Rightarrow> nat" where
  "topic_count b = length (mb_topics b)"

definition sender_for :: "'c broadcast \<Rightarrow> string \<Rightarrow> 'c mem_broker \<Rightarrow> nat \<times> 'c mem_broker" where
  "sender_for BC topic b =
     (case map_of (mb_topics b) topic of
        Some s \<Rightarrow> (s, b)
      | None \<Rightarrow>
          (case bc_channel BC (mb_capacity b) (mb_chans b) of
             (s, c) \<Rightarrow> (s, b\<lparr>mb_topics := AList.update topic s (mb_topics b), mb_chans := c\<rparr>)))"

definition mem_subscribe :: "'c broadcast \<Rightarrow> string \<Rightarrow> ('c mem_broker, broker_error, nat) comp" where
  "mem_subscribe BC topic b =
     (let (s, b) = sender_for BC topic b;
          (r, c) = bc_subscribe BC s (mb_chans b)
      in (Inr r, b\<lparr>mb_chans := c, mb_labels := (mb_labels b)(r \<mapsto> topic)\<rparr>))"

definition mem_publish ::
    "'c broadcast \<Rightarrow> string \<Rightarrow> publication \<Rightarrow> ('c mem_broker, broker_error, unit) comp" where
  "mem_publish BC topic p b =
     (case map_of (mb_topics b) topic of
        None \<Rightarrow> (Inr (), b)
      | Some s \<Rightarrow>
          (case bc_send BC s p (mb_chans b) of
             (True, c) \<Rightarrow> (Inr (), b\<lparr>mb_chans := c\<rparr>)
           | (False, c) \<Rightarrow>
               (Inr (), if bc_receiver_count BC s c = 0
                        then b\<lparr>mb_chans := c, mb_topics := AList.delete topic (mb_topics b)\<rparr>
                        else b\<lparr>mb_chans := c\<rparr>)))"

text \<open>
  Polling the \<open>filter_map\<close>ped stream: a lag is counted and skipped, and the receiver is polled
  again. A second poll right after a lag is never a lag, so two rounds are enough.
\<close>

fun mem_poll :: "nat \<Rightarrow> 'c broadcast \<Rightarrow> nat \<Rightarrow> 'c mem_broker \<Rightarrow> stream_poll \<times> 'c mem_broker" where
  "mem_poll 0 BC r b = (Pending, b)"
| "mem_poll (Suc fuel) BC r b =
     (case bc_try_recv BC r (mb_chans b) of
        (RecvOk p, c) \<Rightarrow> (Ready p, b\<lparr>mb_chans := c\<rparr>)
      | (RecvEmpty, c) \<Rightarrow> (Pending, b\<lparr>mb_chans := c\<rparr>)
      | (RecvClosed, c) \<Rightarrow> (Ended, b\<lparr>mb_chans := c\<rparr>)
      | (RecvLagged skipped, c) \<Rightarrow>
          mem_poll fuel BC r (b\<lparr>mb_chans := c, mb_dropped :=
            (case mb_labels b r of
               Some t \<Rightarrow> (mb_dropped b)(t := mb_dropped b t + skipped)
             | None \<Rightarrow> mb_dropped b)\<rparr>))"

definition mem_next :: "'c broadcast \<Rightarrow> nat \<Rightarrow> 'c mem_broker \<Rightarrow> stream_poll \<times> 'c mem_broker" where
  "mem_next BC r b = mem_poll 2 BC r b"

definition mem_drop :: "'c broadcast \<Rightarrow> nat \<Rightarrow> 'c mem_broker \<Rightarrow> 'c mem_broker" where
  "mem_drop BC r b = b\<lparr>mb_chans := bc_drop_receiver BC r (mb_chans b)\<rparr>"

definition mem_ops :: "'c broadcast \<Rightarrow> 'c mem_broker broker_ops" where
  "mem_ops BC =
     \<lparr>br_name = ''memory'', br_subscribe = mem_subscribe BC, br_publish = mem_publish BC,
      br_next = mem_next BC, br_drop = mem_drop BC\<rparr>"

text \<open>Publishing a list of publications, each on its topic, and polling a stream \<open>n\<close> times.\<close>

fun mem_publish_all ::
    "'c broadcast \<Rightarrow> (string \<times> publication) list \<Rightarrow> 'c mem_broker \<Rightarrow> 'c mem_broker" where
  "mem_publish_all BC [] b = b"
| "mem_publish_all BC ((t, p) # xs) b = mem_publish_all BC xs (snd (mem_publish BC t p b))"

fun mem_drain :: "nat \<Rightarrow> 'c broadcast \<Rightarrow> nat \<Rightarrow> 'c mem_broker \<Rightarrow> stream_poll list" where
  "mem_drain 0 BC r b = []"
| "mem_drain (Suc n) BC r b = (let (x, b') = mem_next BC r b in x # mem_drain n BC r b')"

section \<open>The laws of broadcast channels\<close>

text \<open>
  \<open>snds c\<close> are the senders created so far, \<open>cap c s\<close> how many values sender \<open>s\<close> retains
  (at least what was asked for), \<open>rx c r\<close> the sender a live receiver listens to,
  \<open>queue c r\<close> what it has not read and \<open>lag c r\<close> how much it missed. A send reaches every
  receiver of the sender and may push out the oldest values of one that has a full queue; the first read after that reports the
  loss and the reads after it continue with the oldest retained value.
\<close>

locale tokio_broadcast =
  fixes BC :: "'c broadcast"
    and snds :: "'c \<Rightarrow> nat set"
    and cap :: "'c \<Rightarrow> nat \<Rightarrow> nat"
    and rx :: "'c \<Rightarrow> nat \<Rightarrow> nat option"
    and queue :: "'c \<Rightarrow> nat \<Rightarrow> publication list"
    and lag :: "'c \<Rightarrow> nat \<Rightarrow> nat"
  assumes rx_snds: "rx c r = Some s \<Longrightarrow> s \<in> snds c"
    and channel_fresh: "bc_channel BC n c = (s, c') \<Longrightarrow> s \<notin> snds c \<and> snds c' = insert s (snds c)"
    and channel_cap: "bc_channel BC n c = (s, c') \<Longrightarrow> n \<le> cap c' s \<and> (\<forall>s'. s' \<noteq> s \<longrightarrow> cap c' s' = cap c s')"
    and channel_frame: "bc_channel BC n c = (s, c') \<Longrightarrow> rx c' = rx c \<and> queue c' = queue c \<and> lag c' = lag c"
    and subscribe_fresh: "bc_subscribe BC s c = (r, c') \<Longrightarrow> rx c r = None"
    and subscribe_rx: "s \<in> snds c \<Longrightarrow> bc_subscribe BC s c = (r, c') \<Longrightarrow>
          rx c' = (rx c)(r \<mapsto> s) \<and> queue c' = (queue c)(r := []) \<and> lag c' = (lag c)(r := 0) \<and>
          snds c' = snds c \<and> cap c' = cap c"
    and send_ok: "fst (bc_send BC s p c) \<longleftrightarrow> (\<exists>r. rx c r = Some s)"
    and send_frame: "bc_send BC s p c = (b, c') \<Longrightarrow> rx c' = rx c \<and> snds c' = snds c \<and> cap c' = cap c"
    and send_other: "bc_send BC s p c = (b, c') \<Longrightarrow> rx c r \<noteq> Some s \<Longrightarrow>
          queue c' r = queue c r \<and> lag c' r = lag c r"
    and send_queue: "bc_send BC s p c = (b, c') \<Longrightarrow> rx c r = Some s \<Longrightarrow>
          \<exists>n \<le> length (queue c r). queue c' r = drop n (queue c r) @ [p] \<and> lag c' r = lag c r + n \<and>
             (length (queue c r) < cap c s \<longrightarrow> n = 0)"
    and count: "bc_receiver_count BC s c = 0 \<longleftrightarrow> (\<nexists>r. rx c r = Some s)"
    and recv_frame: "bc_try_recv BC r c = (x, c') \<Longrightarrow> rx c' = rx c \<and> snds c' = snds c \<and> cap c' = cap c"
    and recv_lag: "rx c r = Some s \<Longrightarrow> 0 < lag c r \<Longrightarrow>
          \<exists>c'. bc_try_recv BC r c = (RecvLagged (lag c r), c') \<and> queue c' = queue c \<and>
               lag c' = (lag c)(r := 0)"
    and recv_value: "rx c r = Some s \<Longrightarrow> lag c r = 0 \<Longrightarrow> queue c r = p # ps \<Longrightarrow>
          \<exists>c'. bc_try_recv BC r c = (RecvOk p, c') \<and> queue c' = (queue c)(r := ps) \<and> lag c' = lag c"
    and recv_empty: "rx c r = Some s \<Longrightarrow> lag c r = 0 \<Longrightarrow> queue c r = [] \<Longrightarrow>
          fst (bc_try_recv BC r c) \<in> {RecvEmpty, RecvClosed} \<and>
          queue (snd (bc_try_recv BC r c)) = queue c \<and> lag (snd (bc_try_recv BC r c)) = lag c"
    and drop_rx: "rx (bc_drop_receiver BC r c) = (rx c)(r := None) \<and>
          queue (bc_drop_receiver BC r c) = queue c \<and> lag (bc_drop_receiver BC r c) = lag c \<and>
          snds (bc_drop_receiver BC r c) = snds c \<and> cap (bc_drop_receiver BC r c) = cap c"
begin

text \<open>
  Every topic has its own sender, and every live stream listens to the sender its topic currently
  has: reaping a topic never separates a subscriber from later publications.
\<close>

definition mem_inv :: "'c mem_broker \<Rightarrow> bool" where
  "mem_inv b \<longleftrightarrow>
     distinct (map fst (mb_topics b)) \<and>
     (\<forall>t s. map_of (mb_topics b) t = Some s \<longrightarrow>
        s \<in> snds (mb_chans b) \<and> mb_capacity b \<le> cap (mb_chans b) s) \<and>
     (\<forall>t t' s. map_of (mb_topics b) t = Some s \<longrightarrow> map_of (mb_topics b) t' = Some s \<longrightarrow> t = t') \<and>
     (\<forall>r s. rx (mb_chans b) r = Some s \<longrightarrow>
        (\<exists>t. mb_labels b r = Some t \<and> map_of (mb_topics b) t = Some s))"

definition mem_topic :: "'c mem_broker \<Rightarrow> nat \<Rightarrow> string option" where
  "mem_topic b r = (if rx (mb_chans b) r = None then None else mb_labels b r)"

definition mem_pending :: "'c mem_broker \<Rightarrow> nat \<Rightarrow> publication list" where
  "mem_pending b r = queue (mb_chans b) r"

lemma mem_invI:
  "distinct (map fst (mb_topics b)) \<Longrightarrow>
   (\<And>t s. map_of (mb_topics b) t = Some s \<Longrightarrow>
      s \<in> snds (mb_chans b) \<and> mb_capacity b \<le> cap (mb_chans b) s) \<Longrightarrow>
   (\<And>t t' s. map_of (mb_topics b) t = Some s \<Longrightarrow> map_of (mb_topics b) t' = Some s \<Longrightarrow> t = t') \<Longrightarrow>
   (\<And>r s. rx (mb_chans b) r = Some s \<Longrightarrow>
      \<exists>t. mb_labels b r = Some t \<and> map_of (mb_topics b) t = Some s) \<Longrightarrow> mem_inv b"
  unfolding mem_inv_def by blast

lemma mem_invD:
  assumes "mem_inv b"
  shows "distinct (map fst (mb_topics b))"
    and "map_of (mb_topics b) t = Some s \<Longrightarrow>
      s \<in> snds (mb_chans b) \<and> mb_capacity b \<le> cap (mb_chans b) s"
    and "map_of (mb_topics b) t = Some s \<Longrightarrow> map_of (mb_topics b) t' = Some s \<Longrightarrow> t = t'"
    and "rx (mb_chans b) r = Some s \<Longrightarrow>
      \<exists>t. mb_labels b r = Some t \<and> map_of (mb_topics b) t = Some s"
  using assms unfolding mem_inv_def by blast+

lemma mem_inv_init: "(\<And>r. rx c r = None) \<Longrightarrow> mem_inv (mem_with_capacity n c)"
  by (simp add: mem_inv_def mem_with_capacity_def)

lemma sender_for_spec:
  assumes "mem_inv b" and "sender_for BC t b = (s, b')"
  shows "mem_inv b'" and "map_of (mb_topics b') t = Some s" and "s \<in> snds (mb_chans b')"
    and "rx (mb_chans b') = rx (mb_chans b)" and "queue (mb_chans b') = queue (mb_chans b)"
    and "mb_labels b' = mb_labels b"
proof -
  have "mem_inv b' \<and> map_of (mb_topics b') t = Some s \<and> s \<in> snds (mb_chans b') \<and>
      rx (mb_chans b') = rx (mb_chans b) \<and> queue (mb_chans b') = queue (mb_chans b) \<and>
      mb_labels b' = mb_labels b"
  proof (cases "map_of (mb_topics b) t")
    case None
    obtain c where c: "bc_channel BC (mb_capacity b) (mb_chans b) = (s, c)"
      and b': "b' = b\<lparr>mb_topics := AList.update t s (mb_topics b), mb_chans := c\<rparr>"
      using assms(2) None by (auto simp: sender_for_def split: prod.splits)
    have fresh: "s \<notin> snds (mb_chans b)" "snds c = insert s (snds (mb_chans b))"
      and frame: "rx c = rx (mb_chans b)" "queue c = queue (mb_chans b)"
      using channel_fresh [OF c] channel_frame [OF c] by auto
    have "mem_inv b'"
    proof (rule mem_invI)
      show "distinct (map fst (mb_topics b'))"
        using mem_invD(1) [OF assms(1)] by (simp add: b' distinct_update)
      show "s1 \<in> snds (mb_chans b') \<and> mb_capacity b' \<le> cap (mb_chans b') s1"
        if "map_of (mb_topics b') t1 = Some s1" for t1 s1
        using that mem_invD(2) [OF assms(1), of t1 s1] fresh channel_cap [OF c]
        by (cases "t1 = t") (auto simp: b' update_conv')
      show "t1 = t2" if "map_of (mb_topics b') t1 = Some s1" "map_of (mb_topics b') t2 = Some s1"
        for t1 t2 s1
        using that mem_invD(2) [OF assms(1), of t1 s] mem_invD(2) [OF assms(1), of t2 s]
          mem_invD(3) [OF assms(1), of t1 s1 t2] fresh(1)
        by (cases "t1 = t"; cases "t2 = t") (auto simp: b' update_conv')
      show "\<exists>t. mb_labels b' r = Some t \<and> map_of (mb_topics b') t = Some s1"
        if r: "rx (mb_chans b') r = Some s1" for r s1
      proof -
        obtain t1 where "mb_labels b r = Some t1" "map_of (mb_topics b) t1 = Some s1"
          using r mem_invD(4) [OF assms(1), of r s1] frame by (auto simp: b')
        moreover from this None have "t1 \<noteq> t" by auto
        ultimately show ?thesis by (simp add: b' update_conv')
      qed
    qed
    with b' fresh frame show ?thesis by (simp add: update_conv')
  qed (use assms in \<open>auto simp: sender_for_def mem_inv_def\<close>)
  then show "mem_inv b'" and "map_of (mb_topics b') t = Some s" and "s \<in> snds (mb_chans b')"
    and "rx (mb_chans b') = rx (mb_chans b)" and "queue (mb_chans b') = queue (mb_chans b)"
    and "mb_labels b' = mb_labels b" by auto
qed

lemma mem_subscribe_spec:
  assumes "mem_inv b" and "mem_subscribe BC t b = (res, b')"
  obtains r where "res = Inr r" and "mem_inv b'" and "mem_topic b r = None"
    and "mem_topic b' = (mem_topic b)(r \<mapsto> t)" and "mem_pending b' = (mem_pending b)(r := [])"
proof -
  obtain s b1 where s: "sender_for BC t b = (s, b1)" by (cases "sender_for BC t b")
  obtain r c where r: "bc_subscribe BC s (mb_chans b1) = (r, c)"
    by (cases "bc_subscribe BC s (mb_chans b1)")
  note b1 = sender_for_spec [OF assms(1) s]
  have b': "b' = b1\<lparr>mb_chans := c, mb_labels := (mb_labels b1)(r \<mapsto> t)\<rparr>" and res: "res = Inr r"
    using assms(2) by (simp_all add: mem_subscribe_def s r)
  note sub = subscribe_rx [OF b1(3) r] and fresh = subscribe_fresh [OF r]
  have "mem_inv b'"
  proof (rule mem_invI)
    fix r' s' assume "rx (mb_chans b') r' = Some s'"
    with mem_invD(4) [OF b1(1), of r' s'] sub b1(2)
    show "\<exists>t. mb_labels b' r' = Some t \<and> map_of (mb_topics b') t = Some s'"
      by (cases "r' = r") (simp_all add: b')
  qed (use mem_invD(1-3) [OF b1(1)] sub in \<open>simp_all add: b'\<close>)
  moreover have "mem_topic b' = (mem_topic b)(r \<mapsto> t)"
    using sub fresh b1(4,6) by (auto simp: mem_topic_def b' fun_eq_iff)
  moreover have "mem_pending b' = (mem_pending b)(r := [])"
    using sub b1(5) by (auto simp: mem_pending_def b' fun_eq_iff)
  moreover have "mem_topic b r = None" using fresh b1(4) by (simp add: mem_topic_def)
  ultimately show ?thesis using that res by blast
qed

lemma map_of_delete_SomeD: "map_of (AList.delete k al) x = Some y \<Longrightarrow> map_of al x = Some y"
  by (simp add: delete_conv' split: if_splits)

lemma mem_inv_chans:
  "mem_inv b \<Longrightarrow> rx c = rx (mb_chans b) \<Longrightarrow> snds c = snds (mb_chans b) \<Longrightarrow> cap c = cap (mb_chans b) \<Longrightarrow>
     mem_inv (b\<lparr>mb_chans := c\<rparr>)"
  by (simp add: mem_inv_def)

lemma mem_publish_spec:
  assumes "mem_inv b" and "mem_publish BC t p b = (res, b')"
  shows "res = Inr ()" and "mem_inv b'" and "mem_topic b' = mem_topic b"
    and "mem_topic b r = Some t \<Longrightarrow> \<exists>n. mem_pending b' r = drop n (mem_pending b r) @ [p]"
    and "mem_topic b r \<noteq> Some t \<Longrightarrow> mem_pending b' r = mem_pending b r"
proof -
  have listens: "rx (mb_chans b) r = map_of (mb_topics b) t'" if "mem_topic b r = Some t'" for t'
  proof -
    from that obtain s where "rx (mb_chans b) r = Some s" "mb_labels b r = Some t'"
      by (auto simp: mem_topic_def split: if_splits)
    with mem_invD(4) [OF assms(1), of r s] show ?thesis by simp
  qed
  have other: "mem_topic b r = Some t"
    if "rx (mb_chans b) r = Some s" "map_of (mb_topics b) t = Some s" for s
    using mem_invD(4) [OF assms(1) that(1)] mem_invD(3) [OF assms(1) that(2)] that(1)
    by (auto simp: mem_topic_def)
  have "res = Inr () \<and> mem_inv b' \<and> mem_topic b' = mem_topic b \<and>
      (mem_topic b r = Some t \<longrightarrow> (\<exists>n. mem_pending b' r = drop n (mem_pending b r) @ [p])) \<and>
      (mem_topic b r \<noteq> Some t \<longrightarrow> mem_pending b' r = mem_pending b r)"
  proof (cases "map_of (mb_topics b) t")
    case None
    have "mem_topic b r \<noteq> Some t"
    proof
      assume t: "mem_topic b r = Some t"
      with listens [OF t] None show False by (simp add: mem_topic_def)
    qed
    moreover have "res = Inr ()" "b' = b" using None assms(2) by (simp_all add: mem_publish_def)
    ultimately show ?thesis using assms(1) by simp
  next
    case (Some s)
    obtain ok c where send: "bc_send BC s p (mb_chans b) = (ok, c)"
      by (cases "bc_send BC s p (mb_chans b)")
    note fr = send_frame [OF send]
    let ?b = "b\<lparr>mb_chans := c\<rparr>"
    let ?bd = "?b\<lparr>mb_topics := AList.delete t (mb_topics b)\<rparr>"
    have inv: "mem_inv ?b" using assms(1) fr by (simp add: mem_inv_chans)
    have inv0: "mem_inv ?bd" if "\<nexists>r. rx c r = Some s"
    proof (rule mem_invI)
      fix r' s' assume r': "rx (mb_chans ?bd) r' = Some s'"
      then obtain t' where t': "mb_labels b r' = Some t'" "map_of (mb_topics b) t' = Some s'"
        using mem_invD(4) [OF inv, of r' s'] by auto
      with r' that Some have "t' \<noteq> t" by auto
      with t' show "\<exists>t. mb_labels ?bd r' = Some t \<and> map_of (mb_topics ?bd) t = Some s'"
        by (simp add: delete_conv')
    next
      show "distinct (map fst (mb_topics ?bd))"
        using mem_invD(1) [OF inv] by (simp add: distinct_delete)
      show "s1 \<in> snds (mb_chans ?bd) \<and> mb_capacity ?bd \<le> cap (mb_chans ?bd) s1" if "map_of (mb_topics ?bd) t1 = Some s1" for t1 s1
        using mem_invD(2) [OF inv, of t1 s1] map_of_delete_SomeD [of t "mb_topics b" t1 s1] that
        by simp
      show "t1 = t2" if "map_of (mb_topics ?bd) t1 = Some s1" "map_of (mb_topics ?bd) t2 = Some s1" for t1 t2 s1
        using mem_invD(3) [OF inv, of t1 s1 t2] map_of_delete_SomeD [of t "mb_topics b" t1 s1]
          map_of_delete_SomeD [of t "mb_topics b" t2 s1] that by simp
    qed
    have "b' = ?b \<or> b' = ?bd \<and> (\<nexists>r. rx c r = Some s)"
      using assms(2) Some send count [of s c]
      by (auto simp: mem_publish_def split: bool.splits if_splits)
    then have "mem_inv b'" "mb_chans b' = c" "mb_labels b' = mb_labels b" using inv inv0 by auto
    moreover have "res = Inr ()"
      using assms(2) Some send by (auto simp: mem_publish_def split: bool.splits)
    moreover have "mem_topic b r = Some t \<longleftrightarrow> rx (mb_chans b) r = Some s"
      using listens [of t] other [of s] Some by auto
    moreover have "mem_topic b' = mem_topic b"
      using fr calculation by (simp add: mem_topic_def fun_eq_iff)
    ultimately show ?thesis
      using send_queue [OF send, of r] send_other [OF send, of r]
      by (simp add: mem_pending_def) blast
  qed
  then show "res = Inr ()" and "mem_inv b'" and "mem_topic b' = mem_topic b"
    and "mem_topic b r = Some t \<Longrightarrow> \<exists>n. mem_pending b' r = drop n (mem_pending b r) @ [p]"
    and "mem_topic b r \<noteq> Some t \<Longrightarrow> mem_pending b' r = mem_pending b r" by auto
qed

lemma mem_poll_frame:
  "mem_inv b \<Longrightarrow> mem_inv (snd (mem_poll n BC r b)) \<and> mem_topic (snd (mem_poll n BC r b)) = mem_topic b"
proof (induction n arbitrary: b)
  case (Suc n)
  obtain x c where rc: "bc_try_recv BC r (mb_chans b) = (x, c)"
    by (cases "bc_try_recv BC r (mb_chans b)")
  note fr = recv_frame [OF rc]
  have ok: "mem_inv (b\<lparr>mb_chans := c, mb_dropped := d\<rparr>) \<and>
      mem_topic (b\<lparr>mb_chans := c, mb_dropped := d\<rparr>) = mem_topic b" for d
    using Suc.prems fr by (simp add: mem_inv_def mem_topic_def fun_eq_iff)
  show ?case using ok [of "mb_dropped b"] ok rc Suc.IH by (cases x) simp_all
qed simp

lemma mem_poll_ready:
  assumes "rx (mb_chans b) r = Some s" and "lag (mb_chans b) r = 0"
    and "queue (mb_chans b) r = p # ps"
  shows "\<exists>b'. mem_poll (Suc n) BC r b = (Ready p, b') \<and> mem_pending b' = (mem_pending b)(r := ps)"
  using recv_value [OF assms] by (auto simp: mem_pending_def fun_eq_iff)

lemma mem_poll_none:
  assumes "rx (mb_chans b) r = Some s" and "lag (mb_chans b) r = 0"
    and "queue (mb_chans b) r = []"
  shows "fst (mem_poll (Suc n) BC r b) \<in> {Pending, Ended} \<and>
     mem_pending (snd (mem_poll (Suc n) BC r b)) = mem_pending b"
  using recv_empty [OF assms]
  by (cases "bc_try_recv BC r (mb_chans b)"; cases "fst (bc_try_recv BC r (mb_chans b))")
     (auto simp: mem_pending_def fun_eq_iff)

lemma mem_poll_settled:
  assumes "rx (mb_chans b) r = Some s" and "lag (mb_chans b) r = 0"
  shows "mem_poll (Suc n) BC r b = mem_poll (Suc m) BC r b"
proof (cases "queue (mb_chans b) r")
  case Nil
  from recv_empty [OF assms this] show ?thesis
    by (cases "bc_try_recv BC r (mb_chans b)"; cases "fst (bc_try_recv BC r (mb_chans b))") auto
next
  case (Cons p ps)
  from recv_value [OF assms this] show ?thesis by auto
qed

text \<open>A lag is reported once, counted, and skipped within the same poll.\<close>

lemma mem_poll_lag:
  assumes "rx (mb_chans b) r = Some s" and "0 < lag (mb_chans b) r"
  obtains b1 where "mem_poll (Suc n) BC r b = mem_poll n BC r b1"
    and "rx (mb_chans b1) r = Some s" and "lag (mb_chans b1) r = 0"
    and "mem_pending b1 = mem_pending b"
proof -
  obtain c where c: "bc_try_recv BC r (mb_chans b) = (RecvLagged (lag (mb_chans b) r), c)"
    and q: "queue c = queue (mb_chans b)" "lag c = (lag (mb_chans b))(r := 0)"
    using recv_lag [OF assms] by blast
  note fr = recv_frame [OF c]
  show ?thesis
    by (rule that [of "b\<lparr>mb_chans := c, mb_dropped :=
            (case mb_labels b r of
               Some t \<Rightarrow> (mb_dropped b)(t := mb_dropped b t + lag (mb_chans b) r)
             | None \<Rightarrow> mb_dropped b)\<rparr>"])
       (use c q fr assms(1) in \<open>simp_all add: mem_pending_def fun_eq_iff\<close>)
qed

lemma mem_poll_two_rounds:
  assumes "rx (mb_chans b) r = Some s"
  shows "mem_poll (Suc (Suc n)) BC r b = mem_next BC r b"
proof (cases "lag (mb_chans b) r = 0")
  case True
  show ?thesis unfolding mem_next_def numeral_2_eq_2 by (rule mem_poll_settled [OF assms True])
next
  case False
  obtain c where c: "bc_try_recv BC r (mb_chans b) = (RecvLagged (lag (mb_chans b) r), c)"
    and l: "lag c = (lag (mb_chans b))(r := 0)"
    using recv_lag [OF assms] False by blast
  let ?b = "b\<lparr>mb_chans := c, mb_dropped :=
      (case mb_labels b r of
         Some t \<Rightarrow> (mb_dropped b)(t := mb_dropped b t + lag (mb_chans b) r)
       | None \<Rightarrow> mb_dropped b)\<rparr>"
  have "mem_poll (Suc m) BC r b = mem_poll m BC r ?b" for m by (simp add: c)
  moreover have "mem_poll (Suc n) BC r ?b = mem_poll (Suc 0) BC r ?b"
    by (rule mem_poll_settled) (use recv_frame [OF c] assms l in simp_all)
  ultimately show ?thesis unfolding mem_next_def numeral_2_eq_2 by simp
qed

lemma mem_next_ready:
  assumes "mem_topic b r = Some t" and "mem_pending b r = p # ps"
  shows "\<exists>b'. mem_next BC r b = (Ready p, b') \<and> mem_pending b' = (mem_pending b)(r := ps)"
proof -
  obtain s where s: "rx (mb_chans b) r = Some s"
    using assms(1) by (auto simp: mem_topic_def split: if_splits)
  show ?thesis
  proof (cases "lag (mb_chans b) r = 0")
    case True
    with s assms(2) show ?thesis
      by (simp only: mem_next_def numeral_2_eq_2 mem_pending_def [of b r] mem_poll_ready)
  next
    case False
    then obtain b1 where "mem_poll 2 BC r b = mem_poll (Suc 0) BC r b1"
      and b1: "rx (mb_chans b1) r = Some s" "lag (mb_chans b1) r = 0" "mem_pending b1 = mem_pending b"
      using mem_poll_lag [OF s, of "Suc 0"] by (metis gr0I numeral_2_eq_2)
    with assms(2) mem_poll_ready [OF b1(1,2), of p ps 0] show ?thesis
      by (simp add: mem_next_def mem_pending_def fun_eq_iff del: mem_poll.simps)
  qed
qed

lemma mem_next_none:
  assumes "mem_topic b r = Some t" and "mem_pending b r = []"
  shows "fst (mem_next BC r b) = Pending \<or> fst (mem_next BC r b) = Ended"
    and "mem_pending (snd (mem_next BC r b)) = mem_pending b"
proof -
  obtain s where s: "rx (mb_chans b) r = Some s"
    using assms(1) by (auto simp: mem_topic_def split: if_splits)
  have "(fst (mem_next BC r b) = Pending \<or> fst (mem_next BC r b) = Ended) \<and>
      mem_pending (snd (mem_next BC r b)) = mem_pending b"
  proof (cases "lag (mb_chans b) r = 0")
    case True
    with s assms(2) show ?thesis
      using mem_poll_none [OF s True, of "Suc 0"]
      by (simp add: mem_next_def numeral_2_eq_2 mem_pending_def del: mem_poll.simps)
  next
    case False
    then obtain b1 where "mem_poll 2 BC r b = mem_poll (Suc 0) BC r b1"
      and b1: "rx (mb_chans b1) r = Some s" "lag (mb_chans b1) r = 0" "mem_pending b1 = mem_pending b"
      using mem_poll_lag [OF s, of "Suc 0"] by (metis gr0I numeral_2_eq_2)
    with assms(2) mem_poll_none [OF b1(1,2), of 0] show ?thesis
      by (simp add: mem_next_def mem_pending_def fun_eq_iff del: mem_poll.simps)
  qed
  then show "fst (mem_next BC r b) = Pending \<or> fst (mem_next BC r b) = Ended"
    and "mem_pending (snd (mem_next BC r b)) = mem_pending b" by simp_all
qed

lemma mem_next_frame:
  "mem_inv b \<Longrightarrow> mem_inv (snd (mem_next BC r b))"
  "mem_inv b \<Longrightarrow> mem_topic (snd (mem_next BC r b)) = mem_topic b"
  by (simp_all only: mem_next_def mem_poll_frame)

lemma mem_subscribe_facts:
  assumes "mem_inv b"
  shows "mem_inv (snd (mem_subscribe BC t b))"
    and "mem_subscribe BC t b = (Inr r, b') \<Longrightarrow> mem_topic b r = None"
    and "mem_subscribe BC t b = (Inr r, b') \<Longrightarrow> mem_topic b' = (mem_topic b)(r \<mapsto> t)"
    and "mem_subscribe BC t b = (Inr r, b') \<Longrightarrow> mem_pending b' = (mem_pending b)(r := [])"
    and "mem_subscribe BC t b \<noteq> (Inl e, b')"
  using mem_subscribe_spec [OF assms, of t]
  by (metis prod.collapse, metis sum.inject(2), metis sum.inject(2), metis sum.inject(2),
      metis sum.distinct(1))

lemma mem_publish_facts:
  assumes "mem_inv b"
  shows "mem_inv (snd (mem_publish BC t p b))"
    and "mem_topic (snd (mem_publish BC t p b)) = mem_topic b"
    and "mem_publish BC t p b = (Inr (), b') \<Longrightarrow> mem_topic b r = Some t \<Longrightarrow>
      \<exists>n. mem_pending b' r = drop n (mem_pending b r) @ [p]"
    and "mem_topic b r \<noteq> Some t \<Longrightarrow> mem_pending (snd (mem_publish BC t p b)) r = mem_pending b r"
  using mem_publish_spec [OF assms] by (metis prod.collapse)+

lemma mem_drop_facts:
  "mem_inv b \<Longrightarrow> mem_inv (mem_drop BC r b)"
  "mem_topic (mem_drop BC r b) = (mem_topic b)(r := None)"
  "mem_pending (mem_drop BC r b) = mem_pending b"
  using drop_rx [of r "mb_chans b"]
  by (auto simp: mem_drop_def mem_inv_def mem_topic_def mem_pending_def fun_eq_iff split: if_splits)

text \<open>
  A publish may push out the oldest pending values of a receiver; what it pushes out is what the
  receiver's lag grows by, and nothing is lost while there is room.
\<close>

lemma mem_publish_loss:
  assumes "mem_inv b" and "mem_topic b r = Some t" and "b' = snd (mem_publish BC t' p b)"
  shows "\<exists>n \<le> length (mem_pending b r).
     mem_pending b' r = drop n (mem_pending b r) @ (if t' = t then [p] else []) \<and>
     lag (mb_chans b') r = lag (mb_chans b) r + n \<and>
     (t' \<noteq> t \<or> length (mem_pending b r) < mb_capacity b \<longrightarrow> n = 0)"
proof -
  obtain s where s: "rx (mb_chans b) r = Some s" "mb_labels b r = Some t"
    using assms(2) by (auto simp: mem_topic_def split: if_splits)
  then have t: "map_of (mb_topics b) t = Some s" using mem_invD(4) [OF assms(1) s(1)] by simp
  have cap: "mb_capacity b \<le> cap (mb_chans b) s" using mem_invD(2) [OF assms(1) t] by simp
  show ?thesis
  proof (cases "map_of (mb_topics b) t'")
    case None
    with t assms(3) show ?thesis by (auto simp: mem_publish_def intro: exI [of _ 0])
  next
    case (Some s')
    obtain ok c where send: "bc_send BC s' p (mb_chans b) = (ok, c)"
      by (cases "bc_send BC s' p (mb_chans b)")
    have c: "mb_chans b' = c" using assms(3) Some send by (simp add: mem_publish_def split: bool.splits)
    show ?thesis
    proof (cases "t' = t")
      case True
      with Some t have "s' = s" by simp
      with send_queue [OF send, of r] s(1) cap True c show ?thesis by (auto simp: mem_pending_def)
    next
      case False
      with Some t mem_invD(3) [OF assms(1), of t' s' t] have "s' \<noteq> s" by auto
      with send_other [OF send, of r] s(1) False c show ?thesis
        by (intro exI [of _ 0]) (simp add: mem_pending_def)
    qed
  qed
qed

lemma mem_publish_same:
  "mb_capacity (snd (mem_publish BC t p b)) = mb_capacity b"
  "mb_dropped (snd (mem_publish BC t p b)) = mb_dropped b"
  by (simp_all add: mem_publish_def split: option.splits prod.splits bool.splits)

lemma mem_publish_all_loss:
  assumes "mem_inv b" and "mem_topic b r = Some t" and "B = mem_publish_all BC xs b"
    and "ys = map snd (filter (\<lambda>x. fst x = t) xs)"
  shows "mem_inv B \<and> mem_topic B r = Some t \<and> mb_dropped B = mb_dropped b \<and>
    (\<exists>k \<le> length (mem_pending b r @ ys). mem_pending B r = drop k (mem_pending b r @ ys) \<and>
       lag (mb_chans B) r = lag (mb_chans b) r + k \<and>
       (length (mem_pending b r @ ys) \<le> mb_capacity b \<longrightarrow> k = 0))"
  using assms
proof (induction xs arbitrary: b ys)
  case (Cons x xs)
  obtain t' p where x: "x = (t', p)" by (cases x)
  define b' where "b' = snd (mem_publish BC t' p b)"
  note facts = mem_publish_facts(1,2) [OF Cons.prems(1), of t' p, folded b'_def]
    mem_publish_same [of t' p b, folded b'_def]
  let ?y = "if t' = t then [p] else []" and ?ys = "map snd (filter (\<lambda>x. fst x = t) xs)"
  obtain n where n: "n \<le> length (mem_pending b r)" "mem_pending b' r = drop n (mem_pending b r) @ ?y"
    "lag (mb_chans b') r = lag (mb_chans b) r + n"
    "t' \<noteq> t \<or> length (mem_pending b r) < mb_capacity b \<longrightarrow> n = 0"
    using mem_publish_loss [OF Cons.prems(1,2) b'_def] by blast
  have "mem_topic b' r = Some t" using facts(2) Cons.prems(2) by simp
  from Cons.IH [OF facts(1) this _ refl] Cons.prems(3) obtain k where
    B: "mem_inv B" "mem_topic B r = Some t" "mb_dropped B = mb_dropped b'"
    and k: "k \<le> length (mem_pending b' r @ ?ys)" "mem_pending B r = drop k (mem_pending b' r @ ?ys)"
      "lag (mb_chans B) r = lag (mb_chans b') r + k"
      "length (mem_pending b' r @ ?ys) \<le> mb_capacity b' \<longrightarrow> k = 0"
    by (auto simp: x b'_def)
  have ys: "ys = ?y @ ?ys" using Cons.prems(4) by (simp add: x)
  have "mem_pending B r = drop (n + k) (mem_pending b r @ ?y @ ?ys)"
    using n(1) unfolding k(2) n(2) by (simp add: add.commute [of n])
  moreover have "length (mem_pending b r @ ?y @ ?ys) \<le> mb_capacity b \<longrightarrow> n + k = 0"
    using n k(4) facts(3) by (cases "t' = t") auto
  ultimately show ?case
    unfolding ys using B k(1,3) n(1-3) facts(4) by (intro conjI exI [of _ "n + k"]) auto
qed auto

text \<open>The first poll after a loss adds it to the topic's counter.\<close>

lemma mem_next_dropped:
  assumes "mem_topic b r = Some t"
  shows "mb_dropped (snd (mem_next BC r b)) t = mb_dropped b t + lag (mb_chans b) r"
proof -
  obtain s where s: "rx (mb_chans b) r = Some s" "mb_labels b r = Some t"
    using assms by (auto simp: mem_topic_def split: if_splits)
  have quiet: "mb_dropped (snd (mem_poll (Suc n) BC r b)) = mb_dropped b"
    if "rx (mb_chans b) r = Some s" "lag (mb_chans b) r = 0" for n b
  proof (cases "queue (mb_chans b) r")
    case Nil
    from recv_empty [OF that this] show ?thesis
      by (cases "bc_try_recv BC r (mb_chans b)"; cases "fst (bc_try_recv BC r (mb_chans b))") auto
  next
    case (Cons p ps)
    from recv_value [OF that this] show ?thesis by auto
  qed
  show ?thesis
  proof (cases "lag (mb_chans b) r = 0")
    case True
    with quiet [OF s(1), of "Suc 0"] show ?thesis by (simp only: mem_next_def numeral_2_eq_2 add_0_right)
  next
    case False
    then obtain c where c: "bc_try_recv BC r (mb_chans b) = (RecvLagged (lag (mb_chans b) r), c)"
      "lag c = (lag (mb_chans b))(r := 0)" using recv_lag [OF s(1)] by blast
    let ?b = "b\<lparr>mb_chans := c, mb_dropped := (mb_dropped b)(t := mb_dropped b t + lag (mb_chans b) r)\<rparr>"
    have "mem_next BC r b = mem_poll (Suc 0) BC r ?b"
      unfolding mem_next_def numeral_2_eq_2 by (subst mem_poll.simps(2)) (simp add: c(1) s(2))
    with quiet [of ?b 0] recv_frame [OF c(1)] c(2) s(1) show ?thesis by (simp del: mem_poll.simps)
  qed
qed

lemma mem_subscribe_lag:
  assumes "mem_inv b" and "mem_subscribe BC t b = (Inr r, b')"
  shows "lag (mb_chans b') r = 0 \<and> mb_dropped b' = mb_dropped b \<and> mb_capacity b' = mb_capacity b"
proof -
  obtain s b1 where s: "sender_for BC t b = (s, b1)" by (cases "sender_for BC t b")
  have b1: "mb_dropped b1 = mb_dropped b \<and> mb_capacity b1 = mb_capacity b"
    using s by (auto simp: sender_for_def split: option.splits prod.splits)
  obtain r' c where c: "bc_subscribe BC s (mb_chans b1) = (r', c)"
    by (cases "bc_subscribe BC s (mb_chans b1)")
  from subscribe_rx [OF sender_for_spec(3) [OF assms(1) s] c] b1 assms(2) show ?thesis
    by (auto simp: mem_subscribe_def s c)
qed

lemma mem_drain_pending:
  "mem_inv b \<Longrightarrow> mem_topic b r = Some t \<Longrightarrow>
   mem_drain (length (mem_pending b r)) BC r b = map Ready (mem_pending b r)"
proof (induction "mem_pending b r" arbitrary: b)
  case (Cons p ps)
  obtain b' where b': "mem_next BC r b = (Ready p, b')" "mem_pending b' = (mem_pending b)(r := ps)"
    using mem_next_ready [OF Cons.prems(2) Cons.hyps(2) [symmetric]] by blast
  have "mem_inv b'" "mem_topic b' r = Some t"
    using mem_next_frame [OF Cons.prems(1), of r] Cons.prems(2) b'(1) by simp_all
  with Cons.hyps(1) [of b'] b' Cons.hyps(2) [symmetric] show ?case by simp
qed simp

end

sublocale tokio_broadcast \<subseteq> mem: broker "mem_ops BC" mem_inv mem_topic mem_pending
  by unfold_locales
     (simp_all add: mem_ops_def mem_subscribe_facts mem_publish_facts mem_drop_facts mem_next_ready
        mem_next_none mem_next_frame)

section \<open>A concrete broadcast\<close>

text \<open>
  Receivers keep their own queue, at most the capacity of their sender (at least one) long; a full
  queue loses its oldest value.
\<close>

record bcast =
  bs_next_tx :: nat
  bs_next_rx :: nat
  bs_cap :: "nat \<Rightarrow> nat"
  bs_rx :: "nat \<Rightarrow> nat option"
  bs_queue :: "nat \<Rightarrow> publication list"
  bs_lag :: "nat \<Rightarrow> nat"

definition bcast_init :: bcast where
  "bcast_init = \<lparr>bs_next_tx = 0, bs_next_rx = 0, bs_cap = (\<lambda>_. 0), bs_rx = (\<lambda>_. None),
     bs_queue = (\<lambda>_. []), bs_lag = (\<lambda>_. 0)\<rparr>"

definition bcast_rx :: "bcast \<Rightarrow> nat \<Rightarrow> nat option" where
  "bcast_rx c r =
     (if r < bs_next_rx c
      then (case bs_rx c r of Some s \<Rightarrow> if s < bs_next_tx c then Some s else None | None \<Rightarrow> None)
      else None)"

definition bcast_full :: "bcast \<Rightarrow> nat \<Rightarrow> nat \<Rightarrow> bool" where
  "bcast_full c s r \<longleftrightarrow> max 1 (bs_cap c s) \<le> length (bs_queue c r)"

definition bcast_ops :: "bcast broadcast" where
  "bcast_ops =
     \<lparr>bc_channel = (\<lambda>n c. (bs_next_tx c,
        c\<lparr>bs_next_tx := Suc (bs_next_tx c), bs_cap := (bs_cap c)(bs_next_tx c := n),
          bs_rx := bcast_rx c\<rparr>)),
      bc_subscribe = (\<lambda>s c. (bs_next_rx c,
        c\<lparr>bs_next_rx := Suc (bs_next_rx c), bs_rx := (bs_rx c)(bs_next_rx c \<mapsto> s),
          bs_queue := (bs_queue c)(bs_next_rx c := []), bs_lag := (bs_lag c)(bs_next_rx c := 0)\<rparr>)),
      bc_send = (\<lambda>s p c. (list_ex (\<lambda>r. bcast_rx c r = Some s) [0..<bs_next_rx c],
        c\<lparr>bs_queue := (\<lambda>r. if bcast_rx c r = Some s
             then drop (if bcast_full c s r then 1 else 0) (bs_queue c r) @ [p] else bs_queue c r),
          bs_lag := (\<lambda>r. if bcast_rx c r = Some s
             then bs_lag c r + (if bcast_full c s r then 1 else 0) else bs_lag c r)\<rparr>)),
      bc_receiver_count = (\<lambda>s c. length (filter (\<lambda>r. bcast_rx c r = Some s) [0..<bs_next_rx c])),
      bc_try_recv = (\<lambda>r c. if 0 < bs_lag c r then (RecvLagged (bs_lag c r), c\<lparr>bs_lag := (bs_lag c)(r := 0)\<rparr>)
        else (case bs_queue c r of
                [] \<Rightarrow> (RecvEmpty, c)
              | p # ps \<Rightarrow> (RecvOk p, c\<lparr>bs_queue := (bs_queue c)(r := ps)\<rparr>))),
      bc_drop_receiver = (\<lambda>r c. c\<lparr>bs_rx := (bs_rx c)(r := None)\<rparr>)\<rparr>"

lemma bcast_rx_less: "bcast_rx c r = Some s \<Longrightarrow> r < bs_next_rx c \<and> s < bs_next_tx c"
  by (auto simp: bcast_rx_def split: if_splits option.splits)

interpretation bcast: tokio_broadcast bcast_ops "\<lambda>c. {s. s < bs_next_tx c}" bs_cap bcast_rx bs_queue bs_lag
proof
  show "bcast_rx c r = Some s \<Longrightarrow> s \<in> {s. s < bs_next_tx c}" for c r s
    using bcast_rx_less by blast
  show "fst (bc_send bcast_ops s p c) = (\<exists>r. bcast_rx c r = Some s)" for s p c
    using bcast_rx_less [of c _ s] by (auto simp: bcast_ops_def list_ex_iff)
  show "(bc_receiver_count bcast_ops s c = 0) = (\<nexists>r. bcast_rx c r = Some s)" for s c
    using bcast_rx_less [of c _ s] by (auto simp: bcast_ops_def filter_empty_conv)
  show "\<exists>n \<le> length (bs_queue c r). bs_queue c' r = drop n (bs_queue c r) @ [p] \<and>
      bs_lag c' r = bs_lag c r + n \<and> (length (bs_queue c r) < bs_cap c s \<longrightarrow> n = 0)"
    if "bc_send bcast_ops s p c = (b, c')" "bcast_rx c r = Some s" for s p c b c' r
    using that by (intro exI [of _ "if bcast_full c s r then 1 else 0"])
      (auto simp: bcast_ops_def bcast_full_def)
qed (auto simp: bcast_ops_def bcast_rx_def fun_eq_iff split: if_splits option.splits list.splits)

section \<open>Properties\<close>

text \<open>
  C22. A subscriber of a fresh in-process broker reads the publications on its topic in order and once,
  and nothing of other topics. If it falls behind it loses the oldest \<open>k\<close> of them and no others, and
  the loss is what its next poll adds to the topic's counter of dropped publications; as long as no
  more are published than the capacity holds, it loses none.
\<close>

theorem memory_broker_delivers_in_order:
  fixes xs :: "(string \<times> publication) list"
  assumes "tokio_broadcast BC snds cap rx queue lag" and "\<And>r. rx c r = None"
    and "mem_subscribe BC t (mem_with_capacity n c) = (Inr r, b)"
    and "ys = map snd (filter (\<lambda>x. fst x = t) xs)"
  shows "\<exists>k \<le> length ys.
     mem_drain (length ys - k) BC r (mem_publish_all BC xs b) = map Ready (drop k ys) \<and>
     mb_dropped (snd (mem_next BC r (mem_publish_all BC xs b))) t = k \<and>
     (length ys \<le> max n 1 \<longrightarrow> k = 0)"
proof -
  let ?B = "mem_publish_all BC xs b"
  note tb = assms(1)
  note inv0 = tokio_broadcast.mem_inv_init [OF tb assms(2), of n]
  note sub = tokio_broadcast.mem_subscribe_facts [OF tb inv0, of t]
  note lag = tokio_broadcast.mem_subscribe_lag [OF tb inv0 assms(3)]
  have inv: "tokio_broadcast.mem_inv snds cap rx b" using sub(1) assms(3) by simp
  have topic: "tokio_broadcast.mem_topic rx b r = Some t" using sub(3) [OF assms(3)] by simp
  have empty: "tokio_broadcast.mem_pending queue b r = []" using sub(4) [OF assms(3)] by simp
  from tokio_broadcast.mem_publish_all_loss [OF tb inv topic refl assms(4)] empty lag obtain k where
    B: "tokio_broadcast.mem_inv snds cap rx ?B" "tokio_broadcast.mem_topic rx ?B r = Some t"
      "mb_dropped ?B t = 0"
    and k: "k \<le> length ys" "tokio_broadcast.mem_pending queue ?B r = drop k ys"
      "lag (mb_chans ?B) r = k" "length ys \<le> max n 1 \<longrightarrow> k = 0"
    by (auto simp: mem_with_capacity_def)
  show ?thesis
    using tokio_broadcast.mem_drain_pending [OF tb B(1,2)] k
      tokio_broadcast.mem_next_dropped [OF tb B(2)] B(3) by (intro exI [of _ k]) simp
qed

definition pub :: "string \<Rightarrow> u64 \<Rightarrow> bytes \<Rightarrow> publication" where
  "pub c off d = \<lparr>pub_channel = c, pub_offset = off, pub_data = d\<rparr>"

theorem memory_broker_delivers_in_order_witness:
  "mem_drain 2 bcast_ops 0 (mem_publish_all bcast_ops
       [(''a'', pub ''a'' 0 [1]), (''b'', pub ''b'' 0 [2]), (''a'', pub ''a'' 1 [3])]
       (snd (mem_subscribe bcast_ops ''a'' (mem_with_capacity 2 bcast_init)))) =
   [Ready (pub ''a'' 0 [1]), Ready (pub ''a'' 1 [3])]"
proof -
  have "mem_subscribe bcast_ops ''a'' (mem_with_capacity 2 bcast_init) =
      (Inr 0, snd (mem_subscribe bcast_ops ''a'' (mem_with_capacity 2 bcast_init)))"
    by (simp add: mem_subscribe_def sender_for_def mem_with_capacity_def bcast_ops_def
        bcast_init_def)
  from memory_broker_delivers_in_order [OF bcast.tokio_broadcast_axioms _ this refl,
      of "[(''a'', pub ''a'' 0 [1]), (''b'', pub ''b'' 0 [2]), (''a'', pub ''a'' 1 [3])]"]
  show ?thesis by (auto simp: bcast_init_def bcast_rx_def numeral_2_eq_2)
qed

text \<open>
  Publishing on a topic whose receivers are all gone succeeds, delivers to nobody, and removes
  exactly that topic's entry; publishing on a topic without an entry changes nothing.
\<close>

lemma memory_broker_reaps_idle_topic:
  assumes "tokio_broadcast BC snds cap rx queue lag"
    and "map_of (mb_topics b) t = Some s" and "\<And>r. rx (mb_chans b) r \<noteq> Some s"
  shows "fst (mem_publish BC t p b) = Inr () \<and>
     map_of (mb_topics (snd (mem_publish BC t p b))) = (map_of (mb_topics b))(t := None) \<and>
     mem_publish BC t p (snd (mem_publish BC t p b)) = (Inr (), snd (mem_publish BC t p b))"
proof -
  obtain ok c where send: "bc_send BC s p (mb_chans b) = (ok, c)"
    by (cases "bc_send BC s p (mb_chans b)")
  have "\<not> ok" using tokio_broadcast.send_ok [OF assms(1), of s p "mb_chans b"] assms(3) send by simp
  moreover have "bc_receiver_count BC s c = 0"
    using tokio_broadcast.count [OF assms(1), of s c] tokio_broadcast.send_frame [OF assms(1) send]
      assms(3) by simp
  ultimately have res: "mem_publish BC t p b =
      (Inr (), b\<lparr>mb_chans := c, mb_topics := AList.delete t (mb_topics b)\<rparr>)"
    by (simp add: mem_publish_def assms(2) send)
  have "mem_publish BC t p (b\<lparr>mb_chans := c, mb_topics := AList.delete t (mb_topics b)\<rparr>) =
      (Inr (), b\<lparr>mb_chans := c, mb_topics := AList.delete t (mb_topics b)\<rparr>)"
    by (simp add: mem_publish_def delete_conv')
  with res show ?thesis by (simp add: delete_conv' fun_eq_iff)
qed

text \<open>
  C23. Polling a subscriber's stream ends: the loop that skips over reported losses takes at most two
  rounds, whatever the receiver has missed, so polling with any more rounds gives the same result; and
  if publications are pending, the result is the oldest of them. So a receiver that has lost
  publications goes on with the ones that are left; \<open>openspec/specs/memory-broker\<close> has its stream
  return the lag and be removed.
\<close>

theorem poll_ends_after_two_rounds:
  assumes "tokio_broadcast BC snds cap rx queue lag" and "mb_labels b r = Some t"
    and "rx (mb_chans b) r = Some s"
  shows "mem_poll (Suc (Suc n)) BC r b = mem_next BC r b \<and>
    (\<forall>p ps. queue (mb_chans b) r = p # ps \<longrightarrow> fst (mem_next BC r b) = Ready p)"
proof -
  have "tokio_broadcast.mem_topic rx b r = Some t"
    using assms(2,3) by (simp add: tokio_broadcast.mem_topic_def [OF assms(1)])
  note ready = tokio_broadcast.mem_next_ready [OF assms(1) this, unfolded tokio_broadcast.mem_pending_def [OF assms(1)]]
  show ?thesis
    using tokio_broadcast.mem_poll_two_rounds [OF assms(1,3)] ready by fastforce
qed

text \<open>A receiver of a one-slot channel that has missed a publication.\<close>

definition lagged_example :: "bcast mem_broker" where
  "lagged_example = mem_publish_all bcast_ops [(''a'', pub ''a'' 0 [1]), (''a'', pub ''a'' 1 [3])]
     (snd (mem_subscribe bcast_ops ''a'' (mem_with_capacity 1 bcast_init)))"

theorem poll_ends_after_two_rounds_witness:
  "mem_poll 5 bcast_ops 0 lagged_example = mem_next bcast_ops 0 lagged_example \<and>
   fst (mem_next bcast_ops 0 lagged_example) = Ready (pub ''a'' 1 [3])"
proof -
  have "mb_labels lagged_example 0 = Some ''a''" "bcast_rx (mb_chans lagged_example) 0 = Some 0"
    "bs_queue (mb_chans lagged_example) 0 = [pub ''a'' 1 [3]]"
    by (simp_all add: lagged_example_def mem_subscribe_def sender_for_def mem_with_capacity_def bcast_ops_def
        bcast_init_def bcast_rx_def bcast_full_def mem_publish_def)
  from poll_ends_after_two_rounds [OF bcast.tokio_broadcast_axioms this(1,2), of 3] this(3)
  show ?thesis by (simp add: eval_nat_numeral)
qed

end
