(* ===== verification/Wire.thy ===== *)
theory Wire
  imports Frame
begin

text \<open>
  A concrete Protobuf codec for the messages of \<open>v1.proto\<close>: base-128 varints, field keys,
  length-delimited fields, proto3 defaults left out, unknown fields skipped. It instantiates the
  codec parameter of \<open>Frame\<close>, so that the laws of \<open>prost_codec\<close> are known to hold
  together, and it reproduces byte for byte the six encodings that the repository pins as snapshots.
\<close>

section \<open>Varints\<close>

fun put_varint :: "nat \<Rightarrow> bytes" where
  "put_varint n =
     (if n < 128 then [of_nat n] else of_nat (n mod 128 + 128) # put_varint (n div 128))"

declare put_varint.simps [simp del]

fun get_varint :: "nat \<Rightarrow> bytes \<Rightarrow> (nat \<times> bytes) option" where
  "get_varint 0 bs = None"
| "get_varint (Suc k) [] = None"
| "get_varint (Suc k) (b # bs) =
     (if unat b < 128 then Some (unat b, bs)
      else map_option (\<lambda>(n, r). (unat b - 128 + 128 * n, r)) (get_varint k bs))"

definition get_u64 :: "bytes \<Rightarrow> (nat \<times> bytes) option" where
  "get_u64 bs =
     (case get_varint 10 bs of
        None \<Rightarrow> None
      | Some (n, r) \<Rightarrow> if n < 2 ^ 64 then Some (n, r) else None)"

lemma unat_of_nat_u8: "n < 256 \<Longrightarrow> unat (of_nat n :: u8) = n"
  by (simp add: unat_of_nat)

lemma get_varint_put: "n < 128 ^ k \<Longrightarrow> 0 < k \<Longrightarrow> get_varint k (put_varint n @ r) = Some (n, r)"
proof (induction k arbitrary: n)
  case 0
  then show ?case by simp
next
  case (Suc k)
  show ?case
  proof (cases "n < 128")
    case True
    then show ?thesis
      by (subst put_varint.simps) (simp add: unat_of_nat_u8)
  next
    case False
    have small: "n div 128 < 128 ^ k"
      using Suc.prems by (simp add: less_mult_imp_div_less mult.commute)
    moreover have "0 < k"
    proof (rule ccontr)
      assume "\<not> 0 < k"
      with small have "n div 128 < 1" by simp
      with False show False by simp
    qed
    ultimately have IH: "get_varint k (put_varint (n div 128) @ r) = Some (n div 128, r)"
      by (rule Suc.IH)
    have "unat (of_nat (n mod 128 + 128) :: u8) = n mod 128 + 128"
    proof (rule unat_of_nat_u8)
      have "n mod 128 < 128" by simp
      then show "n mod 128 + 128 < 256" by linarith
    qed
    then show ?thesis using False IH by (subst put_varint.simps) simp
  qed
qed

lemma length_put_varint: "put_varint n \<noteq> []" "n < 128 ^ length (put_varint n)"
proof (induction n rule: put_varint.induct)
  case (1 n)
  show "put_varint n \<noteq> []" by (subst put_varint.simps) simp
  show "n < 128 ^ length (put_varint n)"
  proof (cases "n < 128")
    case True
    then show ?thesis by (subst put_varint.simps) simp
  next
    case False
    with "1" have "n div 128 < 128 ^ length (put_varint (n div 128))" by simp
    then have "n < 128 * 128 ^ length (put_varint (n div 128))"
      by (simp add: div_less_iff_less_mult mult.commute)
    with False show ?thesis by (subst put_varint.simps) simp
  qed
qed

lemma get_u64_put: "n < 2 ^ 64 \<Longrightarrow> get_u64 (put_varint n @ r) = Some (n, r)"
proof -
  assume n: "n < 2 ^ 64"
  then have "n < 128 ^ 10" by simp
  with n show ?thesis by (simp add: get_u64_def get_varint_put)
qed

section \<open>Fields\<close>

datatype wire_value =
    VarInt nat
  | Fixed64 bytes
  | Len bytes
  | Fixed32 bytes

type_synonym field = "nat \<times> wire_value"

fun put_field :: "field \<Rightarrow> bytes" where
  "put_field (t, VarInt n) = put_varint (8 * t) @ put_varint n"
| "put_field (t, Fixed64 b) = put_varint (8 * t + 1) @ b"
| "put_field (t, Len b) = put_varint (8 * t + 2) @ put_varint (length b) @ b"
| "put_field (t, Fixed32 b) = put_varint (8 * t + 5) @ b"

definition split_at :: "nat \<Rightarrow> bytes \<Rightarrow> (bytes \<times> bytes) option" where
  "split_at n bs = (if n \<le> length bs then Some (take n bs, drop n bs) else None)"

definition get_field :: "bytes \<Rightarrow> (field \<times> bytes) option" where
  "get_field bs =
     (case get_u64 bs of
        None \<Rightarrow> None
      | Some (key, r) \<Rightarrow>
          let t = key div 8; wt = key mod 8 in
          if t = 0 then None
          else if wt = 0 then map_option (\<lambda>(n, r'). ((t, VarInt n), r')) (get_u64 r)
          else if wt = 1 then map_option (\<lambda>(b, r'). ((t, Fixed64 b), r')) (split_at 8 r)
          else if wt = 2 then
            (case get_varint (length r) r of
               None \<Rightarrow> None
             | Some (n, r') \<Rightarrow> map_option (\<lambda>(b, r''). ((t, Len b), r'')) (split_at n r'))
          else if wt = 5 then map_option (\<lambda>(b, r'). ((t, Fixed32 b), r')) (split_at 4 r)
          else None)"

text \<open>The fuel is the number of bytes left: every field takes at least one.\<close>

fun get_fields :: "nat \<Rightarrow> bytes \<Rightarrow> field list option" where
  "get_fields k [] = Some []"
| "get_fields 0 (b # bs) = None"
| "get_fields (Suc k) (b # bs) =
     (case get_field (b # bs) of
        None \<Rightarrow> None
      | Some (f, r) \<Rightarrow> map_option (Cons f) (get_fields k r))"

definition put_fields :: "field list \<Rightarrow> bytes" where
  "put_fields fs = concat (map put_field fs)"

definition parse_fields :: "bytes \<Rightarrow> field list option" where
  "parse_fields bs = get_fields (length bs) bs"

text \<open>The fields an encoder of this schema writes: small tags, 64-bit numbers, byte strings.\<close>

fun plain_field :: "field \<Rightarrow> bool" where
  "plain_field (t, VarInt n) \<longleftrightarrow> 0 < t \<and> t < 16 \<and> n < 2 ^ 64"
| "plain_field (t, Len b) \<longleftrightarrow> 0 < t \<and> t < 16"
| "plain_field _ \<longleftrightarrow> False"

lemma get_field_put: "plain_field f \<Longrightarrow> get_field (put_field f @ r) = Some (f, r)"
proof (cases f rule: put_field.cases)
  case (1 t n)
  assume "plain_field f"
  with 1 show ?thesis by (simp add: get_field_def get_u64_put)
next
  case (3 t b)
  assume "plain_field f"
  have key: "Suc (Suc (8 * t)) div 8 = t" "Suc (Suc (8 * t)) mod 8 = 2" by presburger+
  have len: "get_varint (length (put_varint (length b) @ b @ r)) (put_varint (length b) @ b @ r)
      = Some (length b, b @ r)"
  proof (rule get_varint_put)
    have "length b < 128 ^ length (put_varint (length b))" by (rule length_put_varint)
    also have "\<dots> \<le> 128 ^ length (put_varint (length b) @ b @ r)"
      by (intro power_increasing) simp_all
    finally show "length b < 128 ^ length (put_varint (length b) @ b @ r)" .
    show "0 < length (put_varint (length b) @ b @ r)" by (simp add: length_put_varint(1))
  qed
  from \<open>plain_field f\<close> 3 show ?thesis
    using len by (simp add: get_field_def get_u64_put key split_at_def Let_def)
qed simp_all

lemma put_field_nonempty [simp]: "put_field f \<noteq> []"
  by (cases f rule: put_field.cases) (simp_all add: length_put_varint(1))

lemma get_fields_put:
  "\<forall>f \<in> set fs. plain_field f \<Longrightarrow> length fs \<le> k \<Longrightarrow> get_fields k (put_fields fs) = Some fs"
proof (induction fs arbitrary: k)
  case Nil
  then show ?case by (simp add: put_fields_def)
next
  case (Cons f fs)
  obtain k' where k: "k = Suc k'" using Cons.prems(2) by (cases k) auto
  obtain b bs where split: "put_fields (f # fs) = b # bs"
    by (cases "put_fields (f # fs)") (auto simp: put_fields_def)
  have "get_field (b # bs) = Some (f, put_fields fs)"
    unfolding split [symmetric] using Cons.prems(1)
    by (simp add: put_fields_def get_field_put)
  moreover have "get_fields k' (put_fields fs) = Some fs"
    using Cons k by simp
  ultimately show ?case by (simp add: split k)
qed

lemma length_put_fields: "length fs \<le> length (put_fields fs)"
proof (induction fs)
  case Nil
  then show ?case by simp
next
  case (Cons f fs)
  have "Suc 0 \<le> length (put_field f)" by (simp add: Suc_le_eq)
  with Cons show ?case by (simp add: put_fields_def)
qed

lemma parse_fields_put: "\<forall>f \<in> set fs. plain_field f \<Longrightarrow> parse_fields (put_fields fs) = Some fs"
  by (simp add: parse_fields_def get_fields_put length_put_fields)

section \<open>Scalars of a message\<close>

definition num_f :: "nat \<Rightarrow> 'a::len word \<Rightarrow> field list" where
  "num_f t w = (if w = 0 then [] else [(t, VarInt (unat w))])"

definition len_f :: "nat \<Rightarrow> bytes \<Rightarrow> field list" where
  "len_f t b = (if b = [] then [] else [(t, Len b)])"

text \<open>The last occurrence of a tag wins; a known tag with another wire type is an error.\<close>

fun num_at :: "nat \<Rightarrow> field list \<Rightarrow> nat \<Rightarrow> nat option" where
  "num_at t [] acc = Some acc"
| "num_at t ((t', v) # fs) acc =
     (if t' = t then (case v of VarInt n \<Rightarrow> num_at t fs n | _ \<Rightarrow> None) else num_at t fs acc)"

fun len_at :: "nat \<Rightarrow> field list \<Rightarrow> bytes \<Rightarrow> bytes option" where
  "len_at t [] acc = Some acc"
| "len_at t ((t', v) # fs) acc =
     (if t' = t then (case v of Len b \<Rightarrow> len_at t fs b | _ \<Rightarrow> None) else len_at t fs acc)"

definition str_at :: "nat \<Rightarrow> field list \<Rightarrow> string option" where
  "str_at t fs =
     (case len_at t fs [] of
        None \<Rightarrow> None
      | Some b \<Rightarrow> if utf8 (of_bytes b) then Some (of_bytes b) else None)"

definition u64_at :: "nat \<Rightarrow> field list \<Rightarrow> u64 option" where
  "u64_at t fs = map_option of_nat (num_at t fs 0)"

definition u32_at :: "nat \<Rightarrow> field list \<Rightarrow> u32 option" where
  "u32_at t fs = map_option of_nat (num_at t fs 0)"

lemma num_at_append:
  "num_at t (xs @ ys) acc = (case num_at t xs acc of None \<Rightarrow> None | Some a \<Rightarrow> num_at t ys a)"
  by (induction t xs acc rule: num_at.induct) (auto split: wire_value.splits)

lemma len_at_append:
  "len_at t (xs @ ys) acc = (case len_at t xs acc of None \<Rightarrow> None | Some a \<Rightarrow> len_at t ys a)"
  by (induction t xs acc rule: len_at.induct) (auto split: wire_value.splits)

lemma num_at_num_f: "num_at t (num_f t w) 0 = Some (unat w)"
  by (simp add: num_f_def)

lemma num_at_num_f_other: "t' \<noteq> t \<Longrightarrow> num_at t (num_f t' w) acc = Some acc"
  by (simp add: num_f_def)

lemma num_at_len_f: "t' \<noteq> t \<Longrightarrow> num_at t (len_f t' b) acc = Some acc"
  by (simp add: len_f_def)

lemma len_at_num_f: "t' \<noteq> t \<Longrightarrow> len_at t (num_f t' w) acc = Some acc"
  by (simp add: num_f_def)

lemma len_at_len_f: "len_at t (len_f t b) [] = Some b"
  by (simp add: len_f_def)

lemma len_at_len_f_other: "t' \<noteq> t \<Longrightarrow> len_at t (len_f t' b) acc = Some acc"
  by (simp add: len_f_def)

lemma plain_num_f_u64: "0 < t \<Longrightarrow> t < 16 \<Longrightarrow> f \<in> set (num_f t (w :: u64)) \<Longrightarrow> plain_field f"
  using unat_u64_less [of w] by (auto simp: num_f_def split: if_splits)

lemma plain_num_f_u32: "0 < t \<Longrightarrow> t < 16 \<Longrightarrow> f \<in> set (num_f t (w :: u32)) \<Longrightarrow> plain_field f"
  using unsigned_less [of w, where ?'a = nat] by (auto simp: num_f_def split: if_splits)

lemma plain_len_f: "0 < t \<Longrightarrow> t < 16 \<Longrightarrow> f \<in> set (len_f t b) \<Longrightarrow> plain_field f"
  by (auto simp: len_f_def split: if_splits)

lemmas at_simps = num_at_append len_at_append num_at_num_f num_at_num_f_other
  num_at_len_f len_at_num_f len_at_len_f len_at_len_f_other
  u64_at_def u32_at_def str_at_def

lemmas plain_dests = plain_num_f_u64 plain_num_f_u32 plain_len_f

section \<open>Messages\<close>

definition subscribe_fields :: "proto_subscribe \<Rightarrow> field list" where
  "subscribe_fields m = num_f 1 (p_sub_request_id m) @ len_f 2 (as_bytes (p_sub_channel m)) @
     num_f 3 (p_sub_since_offset m)"

definition unsubscribe_fields :: "proto_unsubscribe \<Rightarrow> field list" where
  "unsubscribe_fields m = num_f 1 (p_unsub_request_id m) @ len_f 2 (as_bytes (p_unsub_channel m))"

definition publish_fields :: "proto_publish \<Rightarrow> field list" where
  "publish_fields m = num_f 1 (p_publish_request_id m) @
     len_f 2 (as_bytes (p_publish_channel m)) @ len_f 3 (p_publish_data m)"

definition connect_fields :: "proto_connect \<Rightarrow> field list" where
  "connect_fields m = num_f 1 (p_conn_request_id m) @ len_f 2 (as_bytes (p_conn_token m))"

definition subscribe_ok_fields :: "proto_subscribe_ok \<Rightarrow> field list" where
  "subscribe_ok_fields m = num_f 1 (p_subok_request_id m) @
     len_f 2 (as_bytes (p_subok_channel m)) @ num_f 3 (p_subok_epoch m) @
     num_f 4 (p_subok_offset m)"

definition unsubscribe_ok_fields :: "proto_unsubscribe_ok \<Rightarrow> field list" where
  "unsubscribe_ok_fields m =
     num_f 1 (p_unsubok_request_id m) @ len_f 2 (as_bytes (p_unsubok_channel m))"

definition publication_fields :: "proto_publication \<Rightarrow> field list" where
  "publication_fields m = len_f 1 (as_bytes (p_pub_channel m)) @ num_f 2 (p_pub_offset m) @
     len_f 3 (p_pub_data m)"

definition error_fields :: "proto_error \<Rightarrow> field list" where
  "error_fields m = num_f 1 (p_err_request_id m) @ num_f 2 (p_err_code m) @
     len_f 3 (as_bytes (p_err_message m))"

definition connect_ok_fields :: "proto_connect_ok \<Rightarrow> field list" where
  "connect_ok_fields m = num_f 1 (p_connok_request_id m) @
     len_f 2 (as_bytes (p_connok_subject m)) @ num_f 3 (p_connok_expires_at m)"

definition to_subscribe :: "field list \<Rightarrow> proto_subscribe option" where
  "to_subscribe fs = (case (u64_at 1 fs, str_at 2 fs, u64_at 3 fs) of
     (Some a, Some b, Some c) \<Rightarrow>
       Some \<lparr>p_sub_request_id = a, p_sub_channel = b, p_sub_since_offset = c\<rparr>
   | _ \<Rightarrow> None)"

definition to_unsubscribe :: "field list \<Rightarrow> proto_unsubscribe option" where
  "to_unsubscribe fs = (case (u64_at 1 fs, str_at 2 fs) of
     (Some a, Some b) \<Rightarrow> Some \<lparr>p_unsub_request_id = a, p_unsub_channel = b\<rparr>
   | _ \<Rightarrow> None)"

definition to_publish :: "field list \<Rightarrow> proto_publish option" where
  "to_publish fs = (case (u64_at 1 fs, str_at 2 fs, len_at 3 fs []) of
     (Some a, Some b, Some c) \<Rightarrow>
       Some \<lparr>p_publish_request_id = a, p_publish_channel = b, p_publish_data = c\<rparr>
   | _ \<Rightarrow> None)"

definition to_connect :: "field list \<Rightarrow> proto_connect option" where
  "to_connect fs = (case (u64_at 1 fs, str_at 2 fs) of
     (Some a, Some b) \<Rightarrow> Some \<lparr>p_conn_request_id = a, p_conn_token = b\<rparr>
   | _ \<Rightarrow> None)"

definition to_subscribe_ok :: "field list \<Rightarrow> proto_subscribe_ok option" where
  "to_subscribe_ok fs = (case (u64_at 1 fs, str_at 2 fs, u64_at 3 fs, u64_at 4 fs) of
     (Some a, Some b, Some c, Some d) \<Rightarrow>
       Some \<lparr>p_subok_request_id = a, p_subok_channel = b, p_subok_epoch = c, p_subok_offset = d\<rparr>
   | _ \<Rightarrow> None)"

definition to_unsubscribe_ok :: "field list \<Rightarrow> proto_unsubscribe_ok option" where
  "to_unsubscribe_ok fs = (case (u64_at 1 fs, str_at 2 fs) of
     (Some a, Some b) \<Rightarrow> Some \<lparr>p_unsubok_request_id = a, p_unsubok_channel = b\<rparr>
   | _ \<Rightarrow> None)"

definition to_publication :: "field list \<Rightarrow> proto_publication option" where
  "to_publication fs = (case (str_at 1 fs, u64_at 2 fs, len_at 3 fs []) of
     (Some a, Some b, Some c) \<Rightarrow> Some \<lparr>p_pub_channel = a, p_pub_offset = b, p_pub_data = c\<rparr>
   | _ \<Rightarrow> None)"

definition to_error :: "field list \<Rightarrow> proto_error option" where
  "to_error fs = (case (u64_at 1 fs, u32_at 2 fs, str_at 3 fs) of
     (Some a, Some b, Some c) \<Rightarrow>
       Some \<lparr>p_err_request_id = a, p_err_code = b, p_err_message = c\<rparr>
   | _ \<Rightarrow> None)"

definition to_connect_ok :: "field list \<Rightarrow> proto_connect_ok option" where
  "to_connect_ok fs = (case (u64_at 1 fs, str_at 2 fs, u64_at 3 fs) of
     (Some a, Some b, Some c) \<Rightarrow>
       Some \<lparr>p_connok_request_id = a, p_connok_subject = b, p_connok_expires_at = c\<rparr>
   | _ \<Rightarrow> None)"

lemmas fields_defs = subscribe_fields_def unsubscribe_fields_def publish_fields_def
  connect_fields_def subscribe_ok_fields_def unsubscribe_ok_fields_def publication_fields_def
  error_fields_def connect_ok_fields_def

lemmas to_defs = to_subscribe_def to_unsubscribe_def to_publish_def to_connect_def
  to_subscribe_ok_def to_unsubscribe_ok_def to_publication_def to_error_def to_connect_ok_def

lemma to_fields:
  "utf8 (p_sub_channel a) \<Longrightarrow> to_subscribe (subscribe_fields a) = Some a"
  "utf8 (p_unsub_channel b) \<Longrightarrow> to_unsubscribe (unsubscribe_fields b) = Some b"
  "utf8 (p_publish_channel c) \<Longrightarrow> to_publish (publish_fields c) = Some c"
  "utf8 (p_conn_token d) \<Longrightarrow> to_connect (connect_fields d) = Some d"
  "utf8 (p_subok_channel e) \<Longrightarrow> to_subscribe_ok (subscribe_ok_fields e) = Some e"
  "utf8 (p_unsubok_channel f) \<Longrightarrow> to_unsubscribe_ok (unsubscribe_ok_fields f) = Some f"
  "utf8 (p_pub_channel g) \<Longrightarrow> to_publication (publication_fields g) = Some g"
  "utf8 (p_err_message h) \<Longrightarrow> to_error (error_fields h) = Some h"
  "utf8 (p_connok_subject i) \<Longrightarrow> to_connect_ok (connect_ok_fields i) = Some i"
  by (simp_all add: fields_defs to_defs at_simps)

lemma plain_fields:
  "\<forall>f \<in> set (subscribe_fields a). plain_field f"
  "\<forall>f \<in> set (unsubscribe_fields b). plain_field f"
  "\<forall>f \<in> set (publish_fields c). plain_field f"
  "\<forall>f \<in> set (connect_fields d). plain_field f"
  "\<forall>f \<in> set (subscribe_ok_fields e). plain_field f"
  "\<forall>f \<in> set (unsubscribe_ok_fields f'). plain_field f"
  "\<forall>f \<in> set (publication_fields g). plain_field f"
  "\<forall>f \<in> set (error_fields h). plain_field f"
  "\<forall>f \<in> set (connect_ok_fields i). plain_field f"
  by (auto simp: fields_defs dest!: plain_dests [rotated 2])

section \<open>Top-level messages\<close>

fun client_kind_field :: "client_kind \<Rightarrow> field" where
  "client_kind_field (KSubscribe s) = (1, Len (put_fields (subscribe_fields s)))"
| "client_kind_field (KUnsubscribe u) = (2, Len (put_fields (unsubscribe_fields u)))"
| "client_kind_field (KPublish p) = (3, Len (put_fields (publish_fields p)))"
| "client_kind_field (KConnect c) = (4, Len (put_fields (connect_fields c)))"

fun server_kind_field :: "server_kind \<Rightarrow> field" where
  "server_kind_field (KSubscribeOk s) = (1, Len (put_fields (subscribe_ok_fields s)))"
| "server_kind_field (KUnsubscribeOk u) = (2, Len (put_fields (unsubscribe_ok_fields u)))"
| "server_kind_field (KPublication p) = (3, Len (put_fields (publication_fields p)))"
| "server_kind_field (KError e) = (4, Len (put_fields (error_fields e)))"
| "server_kind_field (KConnectOk c) = (5, Len (put_fields (connect_ok_fields c)))"

definition sub_message :: "(field list \<Rightarrow> 'm option) \<Rightarrow> wire_value \<Rightarrow> 'm option" where
  "sub_message to v =
     (case v of Len b \<Rightarrow> Option.bind (parse_fields b) to | _ \<Rightarrow> None)"

fun to_client_kind :: "field list \<Rightarrow> client_kind option \<Rightarrow> client_kind option option" where
  "to_client_kind [] acc = Some acc"
| "to_client_kind ((t, v) # fs) acc =
     (if t = 1 then Option.bind (sub_message to_subscribe v) (\<lambda>m. to_client_kind fs (Some (KSubscribe m)))
      else if t = 2 then Option.bind (sub_message to_unsubscribe v) (\<lambda>m. to_client_kind fs (Some (KUnsubscribe m)))
      else if t = 3 then Option.bind (sub_message to_publish v) (\<lambda>m. to_client_kind fs (Some (KPublish m)))
      else if t = 4 then Option.bind (sub_message to_connect v) (\<lambda>m. to_client_kind fs (Some (KConnect m)))
      else to_client_kind fs acc)"

fun to_server_kind :: "field list \<Rightarrow> server_kind option \<Rightarrow> server_kind option option" where
  "to_server_kind [] acc = Some acc"
| "to_server_kind ((t, v) # fs) acc =
     (if t = 1 then Option.bind (sub_message to_subscribe_ok v) (\<lambda>m. to_server_kind fs (Some (KSubscribeOk m)))
      else if t = 2 then Option.bind (sub_message to_unsubscribe_ok v) (\<lambda>m. to_server_kind fs (Some (KUnsubscribeOk m)))
      else if t = 3 then Option.bind (sub_message to_publication v) (\<lambda>m. to_server_kind fs (Some (KPublication m)))
      else if t = 4 then Option.bind (sub_message to_error v) (\<lambda>m. to_server_kind fs (Some (KError m)))
      else if t = 5 then Option.bind (sub_message to_connect_ok v) (\<lambda>m. to_server_kind fs (Some (KConnectOk m)))
      else to_server_kind fs acc)"

datatype wire_error = Malformed

definition of_opt :: "'a option \<Rightarrow> (wire_error, 'a) result" where
  "of_opt x = (case x of None \<Rightarrow> Inl Malformed | Some a \<Rightarrow> Inr a)"

definition wire :: "wire_error prost" where
  "wire =
     \<lparr>enc_client = (\<lambda>m. case c_kind m of None \<Rightarrow> [] | Some k \<Rightarrow> put_fields [client_kind_field k]),
      dec_client = (\<lambda>bs. of_opt (Option.bind (parse_fields bs)
        (\<lambda>fs. map_option (\<lambda>k. \<lparr>c_kind = k\<rparr>) (to_client_kind fs None)))),
      enc_server = (\<lambda>m. case s_kind m of None \<Rightarrow> [] | Some k \<Rightarrow> put_fields [server_kind_field k]),
      dec_server = (\<lambda>bs. of_opt (Option.bind (parse_fields bs)
        (\<lambda>fs. map_option (\<lambda>k. \<lparr>s_kind = k\<rparr>) (to_server_kind fs None)))),
      enc_publication = (\<lambda>m. put_fields (publication_fields m)),
      dec_publication = (\<lambda>bs. of_opt (Option.bind (parse_fields bs) to_publication))\<rparr>"

lemma of_opt_Inr: "of_opt x = Inr a \<longleftrightarrow> x = Some a"
  by (simp add: of_opt_def split: option.splits)

lemma parse_client_kind: "parse_fields (put_fields [client_kind_field k]) = Some [client_kind_field k]"
  by (rule parse_fields_put) (cases k; simp)

lemma parse_server_kind: "parse_fields (put_fields [server_kind_field k]) = Some [server_kind_field k]"
  by (rule parse_fields_put) (cases k; simp)

lemma to_client_kind_field:
  "utf8_client_kind k \<Longrightarrow> to_client_kind [client_kind_field k] None = Some (Some k)"
  by (cases k) (simp_all add: sub_message_def parse_fields_put plain_fields to_fields)

lemma to_server_kind_field:
  "utf8_server_kind k \<Longrightarrow> to_server_kind [server_kind_field k] None = Some (Some k)"
  by (cases k) (simp_all add: sub_message_def parse_fields_put plain_fields to_fields)

lemma parse_fields_Nil [simp]: "parse_fields [] = Some []"
  by (simp add: parse_fields_def)

lemma str_at_utf8: "str_at t fs = Some s \<Longrightarrow> utf8 s"
  by (auto simp: str_at_def split: option.splits if_splits)

lemma to_utf8:
  "to_subscribe fs = Some a \<Longrightarrow> utf8 (p_sub_channel a)"
  "to_unsubscribe fs = Some b \<Longrightarrow> utf8 (p_unsub_channel b)"
  "to_publish fs = Some c \<Longrightarrow> utf8 (p_publish_channel c)"
  "to_connect fs = Some d \<Longrightarrow> utf8 (p_conn_token d)"
  "to_subscribe_ok fs = Some e \<Longrightarrow> utf8 (p_subok_channel e)"
  "to_unsubscribe_ok fs = Some f \<Longrightarrow> utf8 (p_unsubok_channel f)"
  "to_publication fs = Some g \<Longrightarrow> utf8 (p_pub_channel g)"
  "to_error fs = Some h \<Longrightarrow> utf8 (p_err_message h)"
  "to_connect_ok fs = Some i \<Longrightarrow> utf8 (p_connok_subject i)"
  by (auto simp: to_defs split: option.splits dest: str_at_utf8)

lemma sub_message_Some: "sub_message to v = Some m \<Longrightarrow> \<exists>fs. to fs = Some m"
  by (auto simp: sub_message_def bind_eq_Some_conv split: wire_value.splits)

lemma sub_message_utf8:
  "sub_message to_subscribe v = Some a \<Longrightarrow> utf8 (p_sub_channel a)"
  "sub_message to_unsubscribe v = Some b \<Longrightarrow> utf8 (p_unsub_channel b)"
  "sub_message to_publish v = Some c \<Longrightarrow> utf8 (p_publish_channel c)"
  "sub_message to_connect v = Some d \<Longrightarrow> utf8 (p_conn_token d)"
  "sub_message to_subscribe_ok v = Some e \<Longrightarrow> utf8 (p_subok_channel e)"
  "sub_message to_unsubscribe_ok v = Some f \<Longrightarrow> utf8 (p_unsubok_channel f)"
  "sub_message to_publication v = Some g \<Longrightarrow> utf8 (p_pub_channel g)"
  "sub_message to_error v = Some h \<Longrightarrow> utf8 (p_err_message h)"
  "sub_message to_connect_ok v = Some i \<Longrightarrow> utf8 (p_connok_subject i)"
  by (auto dest!: sub_message_Some dest: to_utf8)

lemma to_client_kind_utf8:
  "to_client_kind fs acc = Some k \<Longrightarrow> pred_option utf8_client_kind acc \<Longrightarrow>
     pred_option utf8_client_kind k"
  by (induction fs acc rule: to_client_kind.induct)
    (auto simp: bind_eq_Some_conv split: if_splits dest: sub_message_utf8)

lemma to_server_kind_utf8:
  "to_server_kind fs acc = Some k \<Longrightarrow> pred_option utf8_server_kind acc \<Longrightarrow>
     pred_option utf8_server_kind k"
  by (induction fs acc rule: to_server_kind.induct)
    (auto simp: bind_eq_Some_conv split: if_splits dest: sub_message_utf8)

interpretation wire: prost_codec wire
proof
  fix m :: proto_client_frame
  assume "utf8_proto_client m"
  then show "dec_client wire (enc_client wire m) = Inr m"
    by (cases m) (auto simp: wire_def utf8_proto_client_def of_opt_Inr parse_client_kind
        to_client_kind_field split: option.splits)
next
  fix bs m
  assume "dec_client wire bs = Inr m"
  then show "utf8_proto_client m"
    by (auto simp: wire_def utf8_proto_client_def of_opt_Inr bind_eq_Some_conv
        dest: to_client_kind_utf8)
next
  fix n :: proto_server_frame
  assume "utf8_proto_server n"
  then show "dec_server wire (enc_server wire n) = Inr n"
    by (cases n) (auto simp: wire_def utf8_proto_server_def of_opt_Inr parse_server_kind
        to_server_kind_field split: option.splits)
next
  fix bs n
  assume "dec_server wire bs = Inr n"
  then show "utf8_proto_server n"
    by (auto simp: wire_def utf8_proto_server_def of_opt_Inr bind_eq_Some_conv
        dest: to_server_kind_utf8)
next
  fix q :: proto_publication
  assume "utf8 (p_pub_channel q)"
  then show "dec_publication wire (enc_publication wire q) = Inr q"
    by (simp add: wire_def of_opt_Inr parse_fields_put plain_fields to_fields)
next
  fix bs q
  assume "dec_publication wire bs = Inr q"
  then show "utf8 (p_pub_channel q)"
    by (auto simp: wire_def of_opt_Inr bind_eq_Some_conv dest: to_utf8)
qed

section \<open>Evaluation\<close>

lemmas wire_eval =
  encode_client_def encode_server_def encode_publication_def client_frame_into_def
  server_frame_into_def into_defs wire_def put_fields_def fields_defs num_f_def len_f_def as_bytes_def

lemma put_varint_small: "n < 128 \<Longrightarrow> put_varint n = [of_nat n]"
  by (subst put_varint.simps) simp

lemma put_varint_big:
  "128 \<le> n \<Longrightarrow> put_varint n = of_nat (n mod 128 + 128) # put_varint (n div 128)"
  by (subst put_varint.simps) simp

text \<open>
  Frames of the crate's snapshot tests; the instance produces the bytes recorded there
  (\<open>src/crates/cherenkov-protocol/src/snapshots/\<close>).
\<close>

definition snap_publish :: client_frame where
  "snap_publish = Publish \<lparr>publish_request_id = 11, publish_channel = ''rooms.lobby'',
     publish_data = as_bytes ''hello''\<rparr>"

definition snap_connect_ok :: server_frame where
  "snap_connect_ok = ConnectOk \<lparr>connok_request_id = 13, connok_subject = ''alice'',
     connok_expires_at = 1700000000\<rparr>"

definition snap_error :: server_frame where
  "snap_error = ErrorFrame \<lparr>err_request_id = 9, err_code = error_code_u32 InvalidChannelCode,
     err_message = ''channel name must not be empty''\<rparr>"

definition snap_publication :: publication where
  "snap_publication =
     \<lparr>pub_channel = ''rooms.lobby'', pub_offset = 42, pub_data = as_bytes ''hi''\<rparr>"

lemma snap_publish_bytes:
  "encode_client wire snap_publish =
     [26, 22, 8, 11, 18, 11, 114, 111, 111, 109, 115, 46, 108, 111, 98, 98, 121,
      26, 5, 104, 101, 108, 108, 111]"
  by (simp add: snap_publish_def wire_eval put_varint_small put_varint_big)

lemma snap_connect_ok_bytes:
  "encode_server wire snap_connect_ok =
     [42, 15, 8, 13, 18, 5, 97, 108, 105, 99, 101, 24, 128, 226, 207, 170, 6]"
  by (simp add: snap_connect_ok_def wire_eval put_varint_small put_varint_big)

lemma snap_error_bytes:
  "encode_server wire snap_error =
     [34, 36, 8, 9, 16, 2, 26, 30, 99, 104, 97, 110, 110, 101, 108, 32, 110, 97, 109, 101, 32,
      109, 117, 115, 116, 32, 110, 111, 116, 32, 98, 101, 32, 101, 109, 112, 116, 121]"
  by (simp add: snap_error_def wire_eval put_varint_small put_varint_big)

lemma snap_publication_bytes:
  "encode_server wire (PublicationFrame snap_publication) =
     [26, 19, 10, 11, 114, 111, 111, 109, 115, 46, 108, 111, 98, 98, 121, 16, 42, 26, 2, 104, 105]"
  by (simp add: snap_publication_def wire_eval put_varint_small put_varint_big)

section \<open>Properties of the protocol crate\<close>

text \<open>
  C20. Frames survive the wire: decoding what was encoded gives it back, for client frames, for the five
  kinds of server frame (the error with its numeric code included) and for the publications the
  cross-node brokers exchange. A client frame that came off the wire needs no condition on its strings.
\<close>

theorem frames_roundtrip:
  assumes "prost_codec P" and "utf8_client f \<or> (\<exists>bs. decode_client P bs = Inr f)" and "utf8_server g"
    and "utf8 (pub_channel p)"
  shows "decode_client P (encode_client P f) = Inr f \<and> decode_server P (encode_server P g) = Inr g \<and>
    decode_publication P (encode_publication P p) = Inr p"
  using assms prost_codec.client_roundtrip prost_codec.decode_client_utf8 prost_codec.server_roundtrip
    prost_codec.publication_roundtrip by blast

theorem frames_roundtrip_witness:
  "decode_client wire [26, 22, 8, 11, 18, 11, 114, 111, 111, 109, 115, 46, 108, 111, 98, 98, 121,
      26, 5, 104, 101, 108, 108, 111] = Inr snap_publish \<and>
   decode_server wire [42, 15, 8, 13, 18, 5, 97, 108, 105, 99, 101, 24, 128, 226, 207, 170, 6] =
     Inr snap_connect_ok"
  using frames_roundtrip [OF wire.prost_codec_axioms, of snap_publish snap_connect_ok
      "\<lparr>pub_channel = [], pub_offset = 0, pub_data = []\<rparr>"]
  unfolding snap_publish_bytes snap_connect_ok_bytes
  by (simp add: snap_publish_def snap_connect_ok_def utf8_def)

text \<open>
  Decoding a client frame has exactly three outcomes: the decoder's own error, the
  missing-kind error for a message whose kind is unset, and the frame whose protobuf image the
  bytes carry. It never reports a missing server kind.
\<close>

lemma decode_client_outcomes:
  "(decode_client P bs = Inl (Prost e) \<longleftrightarrow> dec_client P bs = Inl e) \<and>
   (decode_client P bs = Inl MissingClientKind \<longleftrightarrow> (\<exists>m. dec_client P bs = Inr m \<and> c_kind m = None)) \<and>
   (decode_client P bs = Inr f \<longleftrightarrow> dec_client P bs = Inr (client_frame_into f)) \<and>
   decode_client P bs \<noteq> Inl MissingServerKind"
proof -
  have "client_frame_try_from m = Inl x \<longleftrightarrow> c_kind m = None \<and> x = MissingClientKind" for m and x :: "'a decode_error"
    by (auto simp: client_frame_try_from_def split: option.splits client_kind.splits)
  then show ?thesis
    by (auto simp: decode_client_def client_frame_try_from_Inr split: sum.splits)
qed

end
