(* ===== verification/Remote.thy ===== *)
theory Remote
  imports Wire Traits
begin

text \<open>
  \<open>cherenkov-broker-redis/src/lib.rs\<close> and \<open>cherenkov-broker-nats/src/lib.rs\<close>: the brokers
  that fan out across nodes. The clients (\<open>fred\<close>, \<open>async_nats\<close>) and the servers behind them
  are parameters; connecting, subscribing, the closure that filters and decodes what arrives, and
  publishing are modelled.
\<close>

section \<open>Redis\<close>

datatype fred_value = FredBytes bytes | FredString string | FredOther

record fred_message =
  msg_channel :: string
  msg_value :: fred_value

text \<open>What polling the client's broadcast of messages gives.\<close>

datatype fred_recv = FrMessage fred_message | FrLagged | FrEmpty | FrClosed

text \<open>
  \<open>'g\<close> is a parsed configuration; clients and receivers are handles into \<open>'r\<close>. Errors are
  their messages.
\<close>

record ('g, 'r) fred =
  fred_from_url :: "string \<Rightarrow> (string, 'g) result"
  fred_build :: "'g \<Rightarrow> (string, nat) result"
  fred_build_subscriber_client :: "'g \<Rightarrow> (string, nat) result"
  fred_init :: "nat \<Rightarrow> ('r, string, unit) comp"
  fred_subscribe :: "nat \<Rightarrow> string \<Rightarrow> ('r, string, unit) comp"
  fred_message_rx :: "nat \<Rightarrow> 'r \<Rightarrow> nat \<times> 'r"
  fred_recv_next :: "nat \<Rightarrow> 'r \<Rightarrow> fred_recv \<times> 'r"
  fred_drop_rx :: "nat \<Rightarrow> 'r \<Rightarrow> 'r"
  fred_publish :: "nat \<Rightarrow> string \<Rightarrow> bytes \<Rightarrow> ('r, string, int) comp"

record redis_config =
  redis_url :: string

definition redis_config_new :: "string \<Rightarrow> redis_config" where
  "redis_config_new url = \<lparr>redis_url = url\<rparr>"

text \<open>\<open>rb_labels\<close> is the topic each stream's closure captures.\<close>

record 'r redis_broker =
  rb_publisher :: nat
  rb_subscriber :: nat
  rb_client :: 'r
  rb_labels :: "nat \<Rightarrow> string option"

text \<open>\<open>map_err(|e| BrokerError::Other(format!("...: {e}")))\<close>\<close>

definition map_other :: "string \<Rightarrow> (string, 'a) result \<Rightarrow> (broker_error, 'a) result" where
  "map_other what r = map_sum (\<lambda>e. BrokerOther (what @ '': '' @ e)) id r"

definition other_comp :: "string \<Rightarrow> ('s, string, 'a) comp \<Rightarrow> ('s, broker_error, 'a) comp" where
  "other_comp what m s = (case m s of (r, s') \<Rightarrow> (map_other what r, s'))"

definition redis_connect ::
    "('g, 'r) fred \<Rightarrow> redis_config \<Rightarrow> 'r \<Rightarrow> (broker_error, 'r redis_broker) result" where
  "redis_connect F config c =
     (case map_other ''redis url'' (fred_from_url F (redis_url config)) of
        Inl e \<Rightarrow> Inl e
      | Inr cfg \<Rightarrow>
          (case map_other ''redis publisher build'' (fred_build F cfg) of
             Inl e \<Rightarrow> Inl e
           | Inr publisher \<Rightarrow>
               (case other_comp ''redis publisher init'' (fred_init F publisher) c of
                  (Inl e, _) \<Rightarrow> Inl e
                | (Inr _, c) \<Rightarrow>
                    (case map_other ''redis subscriber build'' (fred_build_subscriber_client F cfg) of
                       Inl e \<Rightarrow> Inl e
                     | Inr subscriber \<Rightarrow>
                         (case other_comp ''redis subscriber init'' (fred_init F subscriber) c of
                            (Inl e, _) \<Rightarrow> Inl e
                          | (Inr _, c) \<Rightarrow>
                              Inr \<lparr>rb_publisher = publisher, rb_subscriber = subscriber,
                                   rb_client = c, rb_labels = Map.empty\<rparr>)))))"

definition redis_subscribe ::
    "('g, 'r) fred \<Rightarrow> string \<Rightarrow> ('r redis_broker, broker_error, nat) comp" where
  "redis_subscribe F topic b =
     (case other_comp ''redis SUBSCRIBE'' (fred_subscribe F (rb_subscriber b) topic) (rb_client b) of
        (Inl e, c) \<Rightarrow> (Inl e, b\<lparr>rb_client := c\<rparr>)
      | (Inr _, c) \<Rightarrow>
          (case fred_message_rx F (rb_subscriber b) c of
             (rx, c) \<Rightarrow> (Inr rx, b\<lparr>rb_client := c, rb_labels := (rb_labels b)(rx \<mapsto> topic)\<rparr>)))"

text \<open>The closure of \<open>filter_map\<close> on a message that arrived.\<close>

definition redis_filter :: "'pe prost \<Rightarrow> string \<Rightarrow> fred_message \<Rightarrow> publication option" where
  "redis_filter P topic_label msg =
     (if msg_channel msg \<noteq> topic_label then None
      else (case (case msg_value msg of
                    FredBytes b \<Rightarrow> Some b
                  | FredString s \<Rightarrow> Some (as_bytes s)
                  | FredOther \<Rightarrow> None) of
              None \<Rightarrow> None
            | Some bytes \<Rightarrow>
                (case decode_publication P bytes of Inr p \<Rightarrow> Some p | Inl _ \<Rightarrow> None)))"

text \<open>One poll of the stream; an item the closure drops leaves it pending.\<close>

definition redis_next ::
    "'pe prost \<Rightarrow> ('g, 'r) fred \<Rightarrow> nat \<Rightarrow> 'r redis_broker \<Rightarrow> stream_poll \<times> 'r redis_broker" where
  "redis_next P F rx b =
     (case fred_recv_next F rx (rb_client b) of
        (x, c) \<Rightarrow>
          ((case x of
              FrMessage m \<Rightarrow>
                (case rb_labels b rx of
                   Some topic_label \<Rightarrow>
                     (case redis_filter P topic_label m of Some p \<Rightarrow> Ready p | None \<Rightarrow> Pending)
                 | None \<Rightarrow> Pending)
            | FrLagged \<Rightarrow> Pending
            | FrEmpty \<Rightarrow> Pending
            | FrClosed \<Rightarrow> Ended),
           b\<lparr>rb_client := c\<rparr>))"

definition redis_publish ::
    "'pe prost \<Rightarrow> ('g, 'r) fred \<Rightarrow> string \<Rightarrow> publication \<Rightarrow> ('r redis_broker, broker_error, unit) comp" where
  "redis_publish P F topic p b =
     (case other_comp ''redis PUBLISH'' (fred_publish F (rb_publisher b) topic (encode_publication P p))
             (rb_client b) of
        (r, c) \<Rightarrow> (map_sum id (\<lambda>_. ()) r, b\<lparr>rb_client := c\<rparr>))"

definition redis_drop :: "('g, 'r) fred \<Rightarrow> nat \<Rightarrow> 'r redis_broker \<Rightarrow> 'r redis_broker" where
  "redis_drop F rx b = b\<lparr>rb_client := fred_drop_rx F rx (rb_client b)\<rparr>"

definition redis_ops :: "'pe prost \<Rightarrow> ('g, 'r) fred \<Rightarrow> 'r redis_broker broker_ops" where
  "redis_ops P F = \<lparr>br_name = ''redis'', br_subscribe = redis_subscribe F,
     br_publish = redis_publish P F, br_next = redis_next P F, br_drop = redis_drop F\<rparr>"

section \<open>NATS\<close>

datatype nats_recv = NMessage bytes | NEmpty | NClosed

record 'n async_nats =
  nats_client_connect :: "string \<Rightarrow> ('n, string, nat) comp"
  nats_client_subscribe :: "nat \<Rightarrow> string \<Rightarrow> ('n, string, nat) comp"
  nats_recv_next :: "nat \<Rightarrow> 'n \<Rightarrow> nats_recv \<times> 'n"
  nats_client_drop :: "nat \<Rightarrow> 'n \<Rightarrow> 'n"
  nats_client_publish :: "nat \<Rightarrow> string \<Rightarrow> bytes \<Rightarrow> ('n, string, unit) comp"

record nats_config =
  nats_url :: string

definition nats_config_new :: "string \<Rightarrow> nats_config" where
  "nats_config_new url = \<lparr>nats_url = url\<rparr>"

record 'n nats_broker =
  nb_client :: nat
  nb_net :: 'n

definition nats_connect ::
    "'n async_nats \<Rightarrow> nats_config \<Rightarrow> 'n \<Rightarrow> (broker_error, 'n nats_broker) result" where
  "nats_connect N config c =
     (case other_comp ''nats connect'' (nats_client_connect N (nats_url config)) c of
        (Inl e, _) \<Rightarrow> Inl e
      | (Inr client, c) \<Rightarrow> Inr \<lparr>nb_client = client, nb_net = c\<rparr>)"

definition nats_subscribe :: "'n async_nats \<Rightarrow> string \<Rightarrow> ('n nats_broker, broker_error, nat) comp" where
  "nats_subscribe N topic b =
     (case other_comp ''nats SUB'' (nats_client_subscribe N (nb_client b) topic) (nb_net b) of
        (r, c) \<Rightarrow> (r, b\<lparr>nb_net := c\<rparr>))"

definition nats_next ::
    "'pe prost \<Rightarrow> 'n async_nats \<Rightarrow> nat \<Rightarrow> 'n nats_broker \<Rightarrow> stream_poll \<times> 'n nats_broker" where
  "nats_next P N sub b =
     (case nats_recv_next N sub (nb_net b) of
        (x, c) \<Rightarrow>
          ((case x of
              NMessage payload \<Rightarrow>
                (case decode_publication P payload of Inr p \<Rightarrow> Ready p | Inl _ \<Rightarrow> Pending)
            | NEmpty \<Rightarrow> Pending
            | NClosed \<Rightarrow> Ended),
           b\<lparr>nb_net := c\<rparr>))"

definition nats_publish ::
    "'pe prost \<Rightarrow> 'n async_nats \<Rightarrow> string \<Rightarrow> publication \<Rightarrow> ('n nats_broker, broker_error, unit) comp" where
  "nats_publish P N topic p b =
     (case other_comp ''nats PUB'' (nats_client_publish N (nb_client b) topic (encode_publication P p))
             (nb_net b) of
        (r, c) \<Rightarrow> (r, b\<lparr>nb_net := c\<rparr>))"

definition nats_drop :: "'n async_nats \<Rightarrow> nat \<Rightarrow> 'n nats_broker \<Rightarrow> 'n nats_broker" where
  "nats_drop N sub b = b\<lparr>nb_net := nats_client_drop N sub (nb_net b)\<rparr>"

definition nats_ops :: "'pe prost \<Rightarrow> 'n async_nats \<Rightarrow> 'n nats_broker broker_ops" where
  "nats_ops P N = \<lparr>br_name = ''nats'', br_subscribe = nats_subscribe N,
     br_publish = nats_publish P N, br_next = nats_next P N, br_drop = nats_drop N\<rparr>"

section \<open>What a Redis stream yields\<close>

lemma redis_filter_Some:
  "redis_filter P t m = Some p \<longleftrightarrow>
     msg_channel m = t \<and>
     (\<exists>bs. (msg_value m = FredBytes bs \<or> (\<exists>s. msg_value m = FredString s \<and> bs = as_bytes s)) \<and>
           decode_publication P bs = Inr p)"
  by (auto simp: redis_filter_def split: fred_value.splits sum.splits if_splits)


text \<open>A client whose receiver holds the given messages, for examples.\<close>

definition queue_fred :: "(string, fred_message list) fred" where
  "queue_fred = \<lparr>fred_from_url = (\<lambda>u. if u = [] then Inl ''empty'' else Inr u),
     fred_build = (\<lambda>_. Inr 0), fred_build_subscriber_client = (\<lambda>_. Inr 1),
     fred_init = (\<lambda>_. ok ()), fred_subscribe = (\<lambda>_ _. ok ()), fred_message_rx = (\<lambda>_ q. (0, q)),
     fred_recv_next = (\<lambda>_ q. case q of [] \<Rightarrow> (FrEmpty, []) | m # ms \<Rightarrow> (FrMessage m, ms)),
     fred_drop_rx = (\<lambda>_ q. q),
     fred_publish = (\<lambda>_ t bs q. (Inr 1, q @ [\<lparr>msg_channel = t, msg_value = FredBytes bs\<rparr>]))\<rparr>"


section \<open>NATS subjects are patterns\<close>

text \<open>The tokens of a subject and the documented wildcards: \<open>*\<close> is one token, \<open>>\<close> one or more.\<close>

fun tokens_match :: "string list \<Rightarrow> string list \<Rightarrow> bool" where
  "tokens_match [] [] = True"
| "tokens_match [p] (t # ts) = (p = ''>'' \<or> (p = ''*'' \<or> p = t) \<and> ts = [])"
| "tokens_match (p # ps) (t # ts) = ((p = ''*'' \<or> p = t) \<and> tokens_match ps ts)"
| "tokens_match _ _ = False"

definition subject_matches :: "string \<Rightarrow> string \<Rightarrow> bool" where
  "subject_matches pattern subject \<longleftrightarrow> tokens_match (split_on (CHR ''.'') pattern) (split_on (CHR ''.'') subject)"

text \<open>
  What NATS documents: a subscription gets the first message published after it on a subject its
  own subject matches.
\<close>

definition nats_delivers :: "'n async_nats \<Rightarrow> bool" where
  "nats_delivers N \<longleftrightarrow>
     (\<forall>cl cl' s t r bs c c' c''. nats_client_subscribe N cl s c = (Inr r, c') \<longrightarrow>
        nats_client_publish N cl' t bs c' = (Inr (), c'') \<longrightarrow> subject_matches s t \<longrightarrow>
        (\<exists>c3. nats_recv_next N r c'' = (NMessage bs, c3)))"

lemma other_comp_Inr [simp]: "other_comp what m s = (Inr x, s') \<longleftrightarrow> m s = (Inr x, s')"
  by (cases "m s"; cases "fst (m s)") (auto simp: other_comp_def map_other_def)

text \<open>
  C40. The NATS broker uses channel names as subjects without escaping and does not compare what
  arrives with its topic: a stream of a channel whose name is a wildcard yields the publications of
  every channel the wildcard matches.
\<close>

theorem nats_wildcard_topic_yields_other_channels:
  assumes "nats_delivers N" and "prost_codec P" and "utf8 (pub_channel p)"
    and "subject_matches topic other"
    and "nats_subscribe N topic b = (Inr r, b')"
    and "nats_publish P N other p b' = (Inr (), b'')"
  shows "fst (nats_next P N r b'') = Ready p"
proof -
  have dec: "decode_publication P (encode_publication P p) = Inr p"
    using assms(2,3) by (rule prost_codec.publication_roundtrip)
  obtain c where sub: "nats_client_subscribe N (nb_client b) topic (nb_net b) = (Inr r, c)"
    and b': "b' = b\<lparr>nb_net := c\<rparr>"
    using assms(5) by (auto simp: nats_subscribe_def split: prod.splits)
  obtain d where pub: "nats_client_publish N (nb_client b') other (encode_publication P p) (nb_net b')
      = (Inr (), d)" and b'': "b'' = b'\<lparr>nb_net := d\<rparr>"
    using assms(6) by (auto simp: nats_publish_def split: prod.splits)
  have "\<exists>c3. nats_recv_next N r d = (NMessage (encode_publication P p), c3)"
    using assms(1,4) sub pub b' unfolding nats_delivers_def by fastforce
  then show ?thesis using dec b'' by (auto simp: nats_next_def)
qed

text \<open>A NATS server with subject queues, for examples.\<close>

record nats_sim =
  ns_next :: nat
  ns_subject :: "nat \<Rightarrow> string"
  ns_queue :: "nat \<Rightarrow> bytes list"

definition sim_nats :: "nats_sim async_nats" where
  "sim_nats = \<lparr>nats_client_connect = (\<lambda>_. ok 0),
     nats_client_subscribe = (\<lambda>_ s c. (Inr (ns_next c),
       c\<lparr>ns_next := Suc (ns_next c), ns_subject := (ns_subject c)(ns_next c := s),
         ns_queue := (ns_queue c)(ns_next c := [])\<rparr>)),
     nats_recv_next = (\<lambda>r c. case ns_queue c r of [] \<Rightarrow> (NEmpty, c)
       | bs # q \<Rightarrow> (NMessage bs, c\<lparr>ns_queue := (ns_queue c)(r := q)\<rparr>)),
     nats_client_drop = (\<lambda>r c. c),
     nats_client_publish = (\<lambda>_ t bs c. (Inr (), c\<lparr>ns_queue :=
       (\<lambda>r. if subject_matches (ns_subject c r) t then ns_queue c r @ [bs] else ns_queue c r)\<rparr>))\<rparr>"

lemma sim_nats_delivers: "nats_delivers sim_nats"
  by (auto simp: nats_delivers_def sim_nats_def)

theorem nats_wildcard_topic_yields_other_channels_witness:
  "let p = \<lparr>pub_channel = ''rooms.secret'', pub_offset = 1, pub_data = [7]\<rparr>;
       b = \<lparr>nb_client = 0, nb_net = \<lparr>ns_next = 0, ns_subject = (\<lambda>_. []), ns_queue = (\<lambda>_. [])\<rparr>\<rparr>;
       b' = snd (nats_subscribe sim_nats ''rooms.*'' b);
       b'' = snd (nats_publish wire sim_nats ''rooms.secret'' p b')
   in fst (nats_next wire sim_nats 0 b'') = Ready p"
proof -
  let ?p = "\<lparr>pub_channel = ''rooms.secret'', pub_offset = 1, pub_data = [7]\<rparr>"
  let ?b = "\<lparr>nb_client = 0, nb_net = \<lparr>ns_next = 0, ns_subject = (\<lambda>_. []), ns_queue = (\<lambda>_. [])\<rparr>\<rparr>"
  let ?b' = "snd (nats_subscribe sim_nats ''rooms.*'' ?b)"
  have 1: "nats_subscribe sim_nats ''rooms.*'' ?b = (Inr 0, ?b')"
    by (simp add: nats_subscribe_def sim_nats_def other_comp_def map_other_def)
  have 2: "nats_publish wire sim_nats ''rooms.secret'' ?p ?b' =
      (Inr (), snd (nats_publish wire sim_nats ''rooms.secret'' ?p ?b'))"
    by (simp add: nats_publish_def sim_nats_def other_comp_def map_other_def)
  have 3: "utf8 (pub_channel ?p)" by (simp add: utf8_def)
  have 4: "subject_matches ''rooms.*'' ''rooms.secret''" by (simp add: subject_matches_def)
  show ?thesis
    unfolding Let_def
    by (rule nats_wildcard_topic_yields_other_channels [OF sim_nats_delivers
          wire.prost_codec_axioms 3 4 1 2])
qed

end
