(* ===== verification/Acl.thy ===== *)
theory Acl
  imports Traits
begin

text \<open>
  \<open>cherenkov-auth/src/namespace_acl.rs\<close>: the glob-based access control list. Glob compilation and
  matching (\<open>globset\<close>) are parameters.
\<close>

section \<open>Rules\<close>

text \<open>\<open>glob_new\<close> compiles a pattern or reports an error; \<open>glob_match\<close> is \<open>is_match\<close>.\<close>

record 'g globset =
  glob_new :: "string \<Rightarrow> (string, 'g) result"
  glob_match :: "'g \<Rightarrow> string \<Rightarrow> bool"

datatype acl_match = MatchSubscribe | MatchPublish | MatchAny

fun covers :: "acl_match \<Rightarrow> acl_action \<Rightarrow> bool" where
  "covers MatchAny _ = True"
| "covers MatchSubscribe ActSubscribe = True"
| "covers MatchPublish ActPublish = True"
| "covers _ _ = False"

definition acl_match_any :: acl_match where "acl_match_any = MatchAny"

datatype effect = EAllow | EDeny

record 'g acl_rule =
  rule_effect :: effect
  rule_channel :: 'g
  rule_subject :: "'g option"
  rule_action :: acl_match

definition rule_new ::
    "'g globset \<Rightarrow> effect \<Rightarrow> string \<Rightarrow> acl_match \<Rightarrow> (string, 'g acl_rule) result" where
  "rule_new G eff channel_pattern action =
     (case glob_new G channel_pattern of
        Inl e \<Rightarrow> Inl e
      | Inr g \<Rightarrow> Inr \<lparr>rule_effect = eff, rule_channel = g, rule_subject = None, rule_action = action\<rparr>)"

text \<open>The infallible constructors panic on a bad pattern: \<open>None\<close>.\<close>

definition rule_expect :: "(string, 'a) result \<Rightarrow> 'a option" where
  "rule_expect r = (case r of Inl _ \<Rightarrow> None | Inr x \<Rightarrow> Some x)"

definition rule_allow :: "'g globset \<Rightarrow> string \<Rightarrow> acl_match \<Rightarrow> 'g acl_rule option" where
  "rule_allow G channel_pattern action = rule_expect (rule_new G EAllow channel_pattern action)"

definition rule_deny :: "'g globset \<Rightarrow> string \<Rightarrow> acl_match \<Rightarrow> 'g acl_rule option" where
  "rule_deny G channel_pattern action = rule_expect (rule_new G EDeny channel_pattern action)"

definition try_allow :: "'g globset \<Rightarrow> string \<Rightarrow> acl_match \<Rightarrow> (string, 'g acl_rule) result" where
  "try_allow G channel_pattern action = rule_new G EAllow channel_pattern action"

definition try_deny :: "'g globset \<Rightarrow> string \<Rightarrow> acl_match \<Rightarrow> (string, 'g acl_rule) result" where
  "try_deny G channel_pattern action = rule_new G EDeny channel_pattern action"

definition with_subject :: "'g globset \<Rightarrow> string \<Rightarrow> 'g acl_rule \<Rightarrow> (string, 'g acl_rule) result" where
  "with_subject G subject_pattern r =
     (case glob_new G subject_pattern of
        Inl e \<Rightarrow> Inl e
      | Inr g \<Rightarrow> Inr (r\<lparr>rule_subject := Some g\<rparr>))"

definition rule_matches ::
    "'g globset \<Rightarrow> 'g acl_rule \<Rightarrow> session_claims \<Rightarrow> acl_action \<Rightarrow> string \<Rightarrow> bool" where
  "rule_matches G r claims action channel =
     (if \<not> covers (rule_action r) action then False
      else (case rule_subject r of
              Some subj \<Rightarrow> glob_match G subj (cl_subject claims) \<and> glob_match G (rule_channel r) channel
            | None \<Rightarrow> glob_match G (rule_channel r) channel))"

section \<open>The checker\<close>

record 'g namespace_acl =
  acl_rules :: "'g acl_rule list"
  acl_default_allow :: bool

definition acl_builder :: "'g namespace_acl" where
  "acl_builder = \<lparr>acl_rules = [], acl_default_allow = False\<rparr>"

definition with_rule :: "'g acl_rule \<Rightarrow> 'g namespace_acl \<Rightarrow> 'g namespace_acl" where
  "with_rule r b = b\<lparr>acl_rules := acl_rules b @ [r]\<rparr>"

definition default_allow :: "bool \<Rightarrow> 'g namespace_acl \<Rightarrow> 'g namespace_acl" where
  "default_allow allow b = b\<lparr>acl_default_allow := allow\<rparr>"

definition acl_build :: "'g namespace_acl \<Rightarrow> 'g namespace_acl" where
  "acl_build b = \<lparr>acl_rules = acl_rules b, acl_default_allow = acl_default_allow b\<rparr>"

fun effect_decision :: "effect \<Rightarrow> acl_decision" where
  "effect_decision EAllow = Allow"
| "effect_decision EDeny = Deny"

text \<open>The loop over the rules.\<close>

fun check_rules :: "'g globset \<Rightarrow> 'g acl_rule list \<Rightarrow> bool \<Rightarrow> session_claims \<Rightarrow> acl_action \<Rightarrow> string \<Rightarrow>
    acl_decision" where
  "check_rules G [] dflt claims action channel = (if dflt then Allow else Deny)"
| "check_rules G (r # rs) dflt claims action channel =
     (if rule_matches G r claims action channel then effect_decision (rule_effect r)
      else check_rules G rs dflt claims action channel)"

definition namespace_check ::
    "'g globset \<Rightarrow> 'g namespace_acl \<Rightarrow> session_claims \<Rightarrow> acl_action \<Rightarrow> string \<Rightarrow>
     (acl_error, acl_decision) result" where
  "namespace_check G a claims action channel =
     Inr (check_rules G (acl_rules a) (acl_default_allow a) claims action channel)"

definition namespace_acl_checker :: "'g globset \<Rightarrow> 'g namespace_acl \<Rightarrow> acl_checker" where
  "namespace_acl_checker G a = \<lparr>acl_name = ''namespace'', acl_check = namespace_check G a\<rparr>"

section \<open>First match wins\<close>

text \<open>The declarative reading: the earliest matching rule, if any.\<close>

definition first_match ::
    "'g globset \<Rightarrow> 'g acl_rule list \<Rightarrow> session_claims \<Rightarrow> acl_action \<Rightarrow> string \<Rightarrow> nat \<Rightarrow> bool" where
  "first_match G rs claims action channel i \<longleftrightarrow>
     i < length rs \<and> rule_matches G (rs ! i) claims action channel \<and>
     (\<forall>j < i. \<not> rule_matches G (rs ! j) claims action channel)"

lemma first_match_Nil [simp]: "\<not> first_match G [] cl a c i"
  by (simp add: first_match_def)

lemma first_match_Cons:
  "first_match G (r # rs) cl a c i \<longleftrightarrow>
     (if rule_matches G r cl a c then i = 0 else (\<exists>k. i = Suc k \<and> first_match G rs cl a c k))"
  by (cases i) (auto simp: first_match_def less_Suc_eq_0_disj)

lemma check_rules_first:
  "first_match G rs cl a c i \<Longrightarrow> check_rules G rs d cl a c = effect_decision (rule_effect (rs ! i))"
  by (induction rs arbitrary: i) (auto simp: first_match_Cons split: if_splits)

lemma check_rules_none:
  "(\<forall>r \<in> set rs. \<not> rule_matches G r cl a c) \<Longrightarrow>
     check_rules G rs d cl a c = (if d then Allow else Deny)"
  by (induction rs) auto

lemma first_match_exists:
  "(\<exists>i. first_match G rs cl a c i) \<or> (\<forall>r \<in> set rs. \<not> rule_matches G r cl a c)"
  by (induction rs) (auto simp: first_match_Cons)

lemma effect_decision_Allow [simp]: "effect_decision e = Allow \<longleftrightarrow> e = EAllow"
  by (cases e) auto

lemma check_rules_append:
  "first_match G rs cl a c i \<Longrightarrow> check_rules G (rs @ rs') d cl a c = check_rules G rs d' cl a c"
  by (induction rs arbitrary: i) (auto simp: first_match_Cons split: if_splits)

text \<open>
  C24. The checker allows a request exactly when the earliest rule that matches it is an allow rule,
  or no rule matches and the list was built to allow by default. It never fails.
\<close>

theorem acl_first_match_wins:
  "namespace_check G a claims action channel = Inr Allow \<longleftrightarrow>
     (\<exists>i. first_match G (acl_rules a) claims action channel i \<and> rule_effect (acl_rules a ! i) = EAllow) \<or>
     (\<nexists>i. first_match G (acl_rules a) claims action channel i) \<and> acl_default_allow a"
proof (cases "\<exists>i. first_match G (acl_rules a) claims action channel i")
  case True
  then obtain i where i: "first_match G (acl_rules a) claims action channel i" ..
  have "first_match G (acl_rules a) claims action channel j \<longleftrightarrow> j = i" for j
    using i by (cases i j rule: linorder_cases) (auto simp: first_match_def)
  then show ?thesis by (simp add: namespace_check_def check_rules_first [OF i])
next
  case False
  then have "\<forall>r \<in> set (acl_rules a). \<not> rule_matches G r claims action channel"
    using first_match_exists by blast
  with False show ?thesis by (simp add: namespace_check_def check_rules_none)
qed

text \<open>
  Deny by default: a freshly built list denies everything, and whatever rules are registered, a
  request that none of them matches is denied.
\<close>

lemma acl_denies_by_default:
  assumes "\<forall>r \<in> set rs. \<not> rule_matches G r claims action channel"
  shows "namespace_check G (acl_build (fold with_rule rs acl_builder)) claims action channel = Inr Deny"
proof -
  have "acl_rules (fold with_rule rs b) = acl_rules b @ rs \<and>
      acl_default_allow (fold with_rule rs b) = acl_default_allow b" for b :: "'a namespace_acl"
    by (induction rs arbitrary: b) (simp_all add: with_rule_def)
  with assms show ?thesis
    by (simp add: namespace_check_def acl_build_def acl_builder_def check_rules_none)
qed

text \<open>Patterns that end in a star match by prefix; the others match exactly.\<close>

definition star_glob :: "string globset" where
  "star_glob = \<lparr>glob_new = (\<lambda>p. Inr p),
     glob_match = (\<lambda>p s. if p \<noteq> [] \<and> last p = CHR ''*'' then strip_prefix (butlast p) s \<noteq> None else p = s)\<rparr>"

text \<open>
  Registering another rule never changes the decision on a request that an earlier rule already
  decides; in particular a deny rule cannot be overridden by rules added after it.
\<close>

lemma acl_later_rules_do_not_override:
  assumes "first_match G (acl_rules a) claims action channel i"
  shows "namespace_check G (with_rule r a) claims action channel =
         namespace_check G a claims action channel"
  using check_rules_append [OF assms, of "[r]" "acl_default_allow a" "acl_default_allow a"]
  by (simp add: namespace_check_def with_rule_def)

end
