(* ===== verification/Jwt.thy ===== *)
theory Jwt
  imports Traits
begin

text \<open>
  \<open>cherenkov-auth/src/jwt.rs\<close>: the builder and the JWT authenticator. Token decoding and
  signature checking (\<open>jsonwebtoken\<close>) are parameters; \<open>decode\<close> reads the clock, so it takes
  the instant.
\<close>

section \<open>The authenticator\<close>

datatype jwt_algorithm = Hs256 | Hs384 | Hs512

datatype algorithm = HS256 | HS384 | HS512

fun algorithm_from :: "jwt_algorithm \<Rightarrow> algorithm" where
  "algorithm_from Hs256 = HS256"
| "algorithm_from Hs384 = HS384"
| "algorithm_from Hs512 = HS512"

text \<open>The claims a token deserialises to; absent \<open>permissions\<close> and \<open>exp\<close> are the defaults.\<close>

record cherenkov_claims =
  jc_sub :: string
  jc_permissions :: "string list"
  jc_exp :: u64

text \<open>
  What the code uses of \<open>jsonwebtoken\<close>: \<open>Validation::new\<close>, \<open>set_audience\<close>, the field
  \<open>validate_aud\<close>, \<open>set_issuer\<close>, \<open>DecodingKey::from_secret\<close> and \<open>decode\<close>, whose
  error is its message.
\<close>

record ('v, 'key) jsonwebtoken =
  validation_new :: "algorithm \<Rightarrow> 'v"
  set_audience :: "string list \<Rightarrow> 'v \<Rightarrow> 'v"
  validate_aud :: "bool \<Rightarrow> 'v \<Rightarrow> 'v"
  set_issuer :: "string list \<Rightarrow> 'v \<Rightarrow> 'v"
  from_secret :: "bytes \<Rightarrow> 'key"
  jwt_decode :: "instant \<Rightarrow> string \<Rightarrow> 'key \<Rightarrow> 'v \<Rightarrow> (string, cherenkov_claims) result"

record ('v, 'key) jwt_auth =
  ja_key :: 'key
  ja_validation :: 'v

record jwt_builder =
  jb_secret :: "bytes option"
  jb_algorithm :: jwt_algorithm
  jb_audiences :: "string list"
  jb_issuer :: "string option"

definition jwt_builder_new :: jwt_builder where
  "jwt_builder_new =
     \<lparr>jb_secret = None, jb_algorithm = Hs256, jb_audiences = [], jb_issuer = None\<rparr>"

definition with_hmac_secret :: "bytes \<Rightarrow> jwt_builder \<Rightarrow> jwt_builder" where
  "with_hmac_secret secret b = b\<lparr>jb_secret := Some secret\<rparr>"

definition with_algorithm :: "jwt_algorithm \<Rightarrow> jwt_builder \<Rightarrow> jwt_builder" where
  "with_algorithm alg b = b\<lparr>jb_algorithm := alg\<rparr>"

definition with_audience :: "string \<Rightarrow> jwt_builder \<Rightarrow> jwt_builder" where
  "with_audience audience b = b\<lparr>jb_audiences := jb_audiences b @ [audience]\<rparr>"

definition with_issuer :: "string \<Rightarrow> jwt_builder \<Rightarrow> jwt_builder" where
  "with_issuer iss b = b\<lparr>jb_issuer := Some iss\<rparr>"

text \<open>Building panics without a secret: \<open>None\<close>.\<close>

definition jwt_build ::
    "('v, 'key) jsonwebtoken \<Rightarrow> jwt_builder \<Rightarrow> ('v, 'key) jwt_auth option" where
  "jwt_build L b =
     (case jb_secret b of
        None \<Rightarrow> None
      | Some secret \<Rightarrow>
          let validation = validation_new L (algorithm_from (jb_algorithm b));
              validation = (if jb_audiences b \<noteq> [] then set_audience L (jb_audiences b) validation
                            else validate_aud L False validation);
              validation = (case jb_issuer b of
                              Some iss \<Rightarrow> set_issuer L [iss] validation
                            | None \<Rightarrow> validation)
          in Some \<lparr>ja_key = from_secret L secret, ja_validation = validation\<rparr>)"

definition jwt_authenticate ::
    "('v, 'key) jsonwebtoken \<Rightarrow> instant \<Rightarrow> ('v, 'key) jwt_auth \<Rightarrow> string \<Rightarrow>
     (auth_error, session_claims) result" where
  "jwt_authenticate L now a token =
     (case jwt_decode L now token (ja_key a) (ja_validation a) of
        Inl e \<Rightarrow> Inl (InvalidToken e)
      | Inr c \<Rightarrow> Inr \<lparr>cl_subject = jc_sub c, cl_permissions = jc_permissions c,
                      cl_expires_at = jc_exp c\<rparr>)"

definition jwt_authenticator ::
    "('v, 'key) jsonwebtoken \<Rightarrow> ('v, 'key) jwt_auth \<Rightarrow> authenticator" where
  "jwt_authenticator L a =
     \<lparr>auth_name = ''jwt'', allow_anonymous = False, authenticate = (\<lambda>now. jwt_authenticate L now a)\<rparr>"

lemma jwt_authenticator_sel [simp]:
  "allow_anonymous (jwt_authenticator L a) \<longleftrightarrow> False"
  "authenticate (jwt_authenticator L a) now = jwt_authenticate L now a"
  by (simp_all add: jwt_authenticator_def)

lemma jwt_authenticate_InrD:
  "jwt_authenticate L now a token = Inr cl \<Longrightarrow>
     \<exists>c. jwt_decode L now token (ja_key a) (ja_validation a) = Inr c \<and>
         cl = \<lparr>cl_subject = jc_sub c, cl_permissions = jc_permissions c, cl_expires_at = jc_exp c\<rparr>"
  by (auto simp: jwt_authenticate_def split: sum.splits)

section \<open>What the builder configures\<close>

text \<open>The calls on a builder, for stating facts about any chain of them.\<close>

datatype jwt_call =
    CSecret bytes
  | CAlgorithm jwt_algorithm
  | CAudience string
  | CIssuer string

fun jwt_apply :: "jwt_call \<Rightarrow> jwt_builder \<Rightarrow> jwt_builder" where
  "jwt_apply (CSecret s) b = with_hmac_secret s b"
| "jwt_apply (CAlgorithm a) b = with_algorithm a b"
| "jwt_apply (CAudience a) b = with_audience a b"
| "jwt_apply (CIssuer i) b = with_issuer i b"

definition jwt_config :: "jwt_call list \<Rightarrow> jwt_builder" where
  "jwt_config cs = fold jwt_apply cs jwt_builder_new"

lemmas jwt_builder_defs = with_hmac_secret_def with_algorithm_def with_audience_def
  with_issuer_def jwt_builder_new_def

lemma jwt_config_simps [simp]:
  "jwt_config [] = jwt_builder_new"
  "jwt_config (cs @ [c]) = jwt_apply c (jwt_config cs)"
  by (simp_all add: jwt_config_def)

text \<open>The values a chain supplies for each setting, in order.\<close>

definition secrets :: "jwt_call list \<Rightarrow> bytes list" where
  "secrets cs = concat (map (\<lambda>c. case c of CSecret s \<Rightarrow> [s] | _ \<Rightarrow> []) cs)"

definition algorithms :: "jwt_call list \<Rightarrow> jwt_algorithm list" where
  "algorithms cs = concat (map (\<lambda>c. case c of CAlgorithm a \<Rightarrow> [a] | _ \<Rightarrow> []) cs)"

definition audiences :: "jwt_call list \<Rightarrow> string list" where
  "audiences cs = concat (map (\<lambda>c. case c of CAudience a \<Rightarrow> [a] | _ \<Rightarrow> []) cs)"

definition issuers :: "jwt_call list \<Rightarrow> string list" where
  "issuers cs = concat (map (\<lambda>c. case c of CIssuer i \<Rightarrow> [i] | _ \<Rightarrow> []) cs)"

lemmas jwt_setting_defs = secrets_def algorithms_def audiences_def issuers_def

lemma jwt_config_fields:
  "jwt_config cs =
     \<lparr>jb_secret = (if secrets cs = [] then None else Some (last (secrets cs))),
      jb_algorithm = last (Hs256 # algorithms cs), jb_audiences = audiences cs,
      jb_issuer = (if issuers cs = [] then None else Some (last (issuers cs)))\<rparr>"
proof (induction cs rule: rev_induct)
  case (snoc c cs)
  then show ?case by (cases c) (simp_all add: jwt_builder_defs jwt_setting_defs)
qed (simp add: jwt_builder_defs jwt_setting_defs)

text \<open>
  A chain of builder calls panics at \<open>build\<close> exactly when none of them supplies a secret.
  Otherwise the last secret, the last algorithm (HS256 when none was chosen) and the last issuer
  count, audience checking is switched off exactly when no audience was added, and all audiences
  added are accepted.
\<close>

lemma jwt_build_outcomes:
  "jwt_build L (jwt_config cs) =
     (if secrets cs = [] then None
      else let v = validation_new L (algorithm_from (last (Hs256 # algorithms cs)));
               v = (if audiences cs = [] then validate_aud L False v
                    else set_audience L (audiences cs) v);
               v = (if issuers cs = [] then v else set_issuer L [last (issuers cs)] v)
           in Some \<lparr>ja_key = from_secret L (last (secrets cs)), ja_validation = v\<rparr>)"
  by (simp add: jwt_config_fields jwt_build_def Let_def)

end
