(* ===== verification/Session.thy ===== *)
theory Session
  imports Traits "HOL-Library.AList"
begin

text \<open>
  \<open>cherenkov-core/src/session.rs\<close>: a connected session and the sharded registry with its reverse
  channel index. A \<open>DashMap\<close> is an association list with distinct keys (its iteration order is
  unspecified in the code; nothing proved here depends on the order). An \<open>Arc<Session>\<close> is a
  reference into the hub's store of sessions; outboxes, forwarder tasks and notifiers are handles
  into the runtime.
\<close>

section \<open>Sessions\<close>

record session =
  s_id :: u64
  s_outbox :: nat
  s_subscriptions :: "(string \<times> nat) list"
  s_claims :: "session_claims option"
  s_shutdown :: nat

definition session_id_msg :: "u64 \<Rightarrow> string" where
  "session_id_msg i = show_u64 i"

definition session_new :: "u64 \<Rightarrow> nat \<Rightarrow> nat \<Rightarrow> session" where
  "session_new i outbox notify =
     \<lparr>s_id = i, s_outbox = outbox, s_subscriptions = [], s_claims = None, s_shutdown = notify\<rparr>"

definition set_claims :: "session_claims \<Rightarrow> session \<Rightarrow> session_claims option \<times> session" where
  "set_claims claims s = (s_claims s, s\<lparr>s_claims := Some claims\<rparr>)"

definition session_channels :: "session \<Rightarrow> string list" where
  "session_channels s = map fst (s_subscriptions s)"

definition has_subscription :: "session \<Rightarrow> string \<Rightarrow> bool" where
  "has_subscription s channel \<longleftrightarrow> map_of (s_subscriptions s) channel \<noteq> None"

definition insert_subscription ::
    "string \<Rightarrow> nat \<Rightarrow> session \<Rightarrow> (nat, unit) result \<times> session" where
  "insert_subscription channel forwarder s =
     (case map_of (s_subscriptions s) channel of
        Some _ \<Rightarrow> (Inl forwarder, s)
      | None \<Rightarrow> (Inr (), s\<lparr>s_subscriptions := AList.update channel forwarder (s_subscriptions s)\<rparr>))"

definition session_remove_subscription :: "string \<Rightarrow> session \<Rightarrow> nat option \<times> session" where
  "session_remove_subscription channel s =
     (map_of (s_subscriptions s) channel,
      s\<lparr>s_subscriptions := AList.delete channel (s_subscriptions s)\<rparr>)"

text \<open>\<open>abort_all\<close> gives the tasks it aborts together with the emptied session.\<close>

definition abort_all :: "session \<Rightarrow> nat list \<times> session" where
  "abort_all s = (map snd (s_subscriptions s), s\<lparr>s_subscriptions := []\<rparr>)"

section \<open>The registry\<close>

record registry =
  r_next_id :: u64
  r_sessions :: "(u64 \<times> nat) list"
  r_channels :: "(string \<times> u64 list) list"

definition registry_new :: registry where
  "registry_new = \<lparr>r_next_id = 0, r_sessions = [], r_channels = []\<rparr>"

text \<open>\<open>fetch_add\<close> wraps around.\<close>

definition next_id :: "registry \<Rightarrow> u64 \<times> registry" where
  "next_id r = (r_next_id r, r\<lparr>r_next_id := r_next_id r + 1\<rparr>)"

definition register :: "u64 \<Rightarrow> nat \<Rightarrow> registry \<Rightarrow> registry" where
  "register i ref r = r\<lparr>r_sessions := AList.update i ref (r_sessions r)\<rparr>"

definition reg_get :: "registry \<Rightarrow> u64 \<Rightarrow> nat option" where
  "reg_get r i = map_of (r_sessions r) i"

text \<open>The two nested \<open>retain\<close> calls of \<open>deregister\<close>.\<close>

definition scrub :: "u64 \<Rightarrow> (string \<times> u64 list) list \<Rightarrow> (string \<times> u64 list) list" where
  "scrub i chans = filter (\<lambda>(_, ids). ids \<noteq> [])
     (map (\<lambda>(c, ids). (c, filter (\<lambda>sid. sid \<noteq> i) ids)) chans)"

definition deregister :: "u64 \<Rightarrow> registry \<Rightarrow> nat option \<times> registry" where
  "deregister i r =
     (case map_of (r_sessions r) i of
        None \<Rightarrow> (None, r)
      | Some ref \<Rightarrow> (Some ref, r\<lparr>r_sessions := AList.delete i (r_sessions r),
                                 r_channels := scrub i (r_channels r)\<rparr>))"

definition reg_len :: "registry \<Rightarrow> nat" where
  "reg_len r = length (r_sessions r)"

definition reg_is_empty :: "registry \<Rightarrow> bool" where
  "reg_is_empty r \<longleftrightarrow> r_sessions r = []"

definition reg_snapshot :: "registry \<Rightarrow> nat list" where
  "reg_snapshot r = map snd (r_sessions r)"

definition reg_ids :: "registry \<Rightarrow> u64 list" where
  "reg_ids r = map fst (r_sessions r)"

definition subscribers_of :: "registry \<Rightarrow> string \<Rightarrow> u64 list" where
  "subscribers_of r channel =
     (case map_of (r_channels r) channel of Some ids \<Rightarrow> ids | None \<Rightarrow> [])"

definition add_subscription :: "u64 \<Rightarrow> string \<Rightarrow> registry \<Rightarrow> registry" where
  "add_subscription i channel r =
     r\<lparr>r_channels := AList.update channel (subscribers_of r channel @ [i]) (r_channels r)\<rparr>"

definition reg_remove_subscription :: "u64 \<Rightarrow> string \<Rightarrow> registry \<Rightarrow> registry" where
  "reg_remove_subscription i channel r =
     (case map_of (r_channels r) channel of
        None \<Rightarrow> r
      | Some ids \<Rightarrow>
          let ids' = filter (\<lambda>sid. sid \<noteq> i) ids
          in if ids' = [] then r\<lparr>r_channels := AList.delete channel (r_channels r)\<rparr>
             else r\<lparr>r_channels := AList.update channel ids' (r_channels r)\<rparr>)"

section \<open>Well-formedness\<close>

definition session_wf :: "session \<Rightarrow> bool" where
  "session_wf s \<longleftrightarrow> distinct (map fst (s_subscriptions s))"

text \<open>Keys are distinct, and a channel without subscribers has no entry.\<close>

definition registry_wf :: "registry \<Rightarrow> bool" where
  "registry_wf r \<longleftrightarrow>
     distinct (map fst (r_sessions r)) \<and> distinct (map fst (r_channels r)) \<and>
     (\<forall>(c, ids) \<in> set (r_channels r). ids \<noteq> [])"

named_theorems reg_simps \<open>what the registry's observers return after each operation\<close>

lemma session_new_wf: "session_wf (session_new i o' n)"
  by (simp add: session_wf_def session_new_def)

lemma insert_subscription_wf: "session_wf s \<Longrightarrow> session_wf (snd (insert_subscription c h s))"
  by (auto simp: session_wf_def insert_subscription_def distinct_update split: option.splits)

lemma session_remove_wf: "session_wf s \<Longrightarrow> session_wf (snd (session_remove_subscription c s))"
  by (simp add: session_wf_def session_remove_subscription_def distinct_delete)

lemma registry_new_wf: "registry_wf registry_new"
  by (simp add: registry_wf_def registry_new_def)

lemma next_id_wf: "registry_wf r \<Longrightarrow> registry_wf (snd (next_id r))"
  by (simp add: registry_wf_def next_id_def)

lemma register_wf: "registry_wf r \<Longrightarrow> registry_wf (register i ref r)"
  by (simp add: registry_wf_def register_def distinct_update)

lemma map_fst_scrub: "map fst (scrub i chans) = map fst (filter (\<lambda>(c, ids). \<not> set ids \<subseteq> {i}) chans)"
  by (induction chans) (auto simp: scrub_def filter_empty_conv)

lemma deregister_wf: "registry_wf r \<Longrightarrow> registry_wf (snd (deregister i r))"
  by (auto simp: registry_wf_def deregister_def distinct_delete map_fst_scrub distinct_map_filter
      split: option.splits)
     (auto simp: scrub_def)

lemma set_update_subset: "set (AList.update k v al) \<subseteq> insert (k, v) (set al)"
  by (induction al) auto

lemma add_subscription_wf: "registry_wf r \<Longrightarrow> registry_wf (add_subscription i c r)"
  using set_update_subset [of c "subscribers_of r c @ [i]" "r_channels r"]
  by (auto simp: registry_wf_def add_subscription_def distinct_update)

lemma set_delete_subset: "set (AList.delete k al) \<subseteq> set al"
  by (auto simp: AList.delete_eq)

lemma reg_remove_wf: "registry_wf r \<Longrightarrow> registry_wf (reg_remove_subscription i c r)"
  using set_update_subset [of c _ "r_channels r"] set_delete_subset [of c "r_channels r"]
  by (fastforce simp: registry_wf_def reg_remove_subscription_def Let_def distinct_update
      distinct_delete split: option.splits)

section \<open>Observers\<close>

lemma subscribers_new [reg_simps]: "subscribers_of registry_new c = []"
  by (simp add: subscribers_of_def registry_new_def)

lemma subscribers_next_id [reg_simps]: "subscribers_of (snd (next_id r)) = subscribers_of r"
  by (simp add: subscribers_of_def next_id_def fun_eq_iff)

lemma subscribers_register [reg_simps]: "subscribers_of (register i ref r) = subscribers_of r"
  by (simp add: subscribers_of_def register_def fun_eq_iff)

lemma subscribers_add [reg_simps]:
  "subscribers_of (add_subscription i c r) =
     (subscribers_of r)(c := subscribers_of r c @ [i])"
  by (auto simp: subscribers_of_def add_subscription_def update_conv' fun_eq_iff)

lemma subscribers_remove [reg_simps]:
  "subscribers_of (reg_remove_subscription i c r) =
     (subscribers_of r)(c := filter (\<lambda>sid. sid \<noteq> i) (subscribers_of r c))"
  by (auto simp: subscribers_of_def reg_remove_subscription_def update_conv' delete_conv' Let_def
      fun_eq_iff split: option.splits)

lemma map_of_scrub:
  "distinct (map fst chans) \<Longrightarrow>
     (case map_of (scrub i chans) c of Some ids \<Rightarrow> ids | None \<Rightarrow> []) =
     filter (\<lambda>sid. sid \<noteq> i) (case map_of chans c of Some ids \<Rightarrow> ids | None \<Rightarrow> [])"
proof (induction chans)
  case (Cons x chans)
  have "set (map fst (scrub i chans)) \<subseteq> set (map fst chans)"
    by (simp only: map_fst_scrub) auto
  with Cons.prems have "map_of (scrub i chans) (fst x) = None"
    by (auto simp: map_of_eq_None_iff)
  with Cons show ?case by (cases x) (auto simp: scrub_def)
qed (simp add: scrub_def)

lemma subscribers_deregister [reg_simps]:
  "registry_wf r \<Longrightarrow> subscribers_of (snd (deregister i r)) c =
     (if reg_get r i = None then subscribers_of r c
      else filter (\<lambda>sid. sid \<noteq> i) (subscribers_of r c))"
  using map_of_scrub [of "r_channels r" i c]
  by (cases "map_of (r_sessions r) i")
     (simp_all add: subscribers_of_def deregister_def reg_get_def registry_wf_def)

lemma reg_get_new [reg_simps]: "reg_get registry_new i = None"
  by (simp add: reg_get_def registry_new_def)

lemma reg_get_next_id [reg_simps]: "reg_get (snd (next_id r)) = reg_get r"
  by (simp add: reg_get_def next_id_def fun_eq_iff)

lemma reg_get_register [reg_simps]: "reg_get (register i ref r) = (reg_get r)(i \<mapsto> ref)"
  by (simp add: reg_get_def register_def update_conv' fun_eq_iff)

lemma reg_get_add [reg_simps]: "reg_get (add_subscription i c r) = reg_get r"
  by (simp add: reg_get_def add_subscription_def fun_eq_iff)

lemma reg_get_remove [reg_simps]: "reg_get (reg_remove_subscription i c r) = reg_get r"
  by (auto simp: reg_get_def reg_remove_subscription_def Let_def fun_eq_iff split: option.splits)

lemma reg_get_deregister [reg_simps]: "reg_get (snd (deregister i r)) = (reg_get r)(i := None)"
  by (auto simp: reg_get_def deregister_def delete_conv' fun_eq_iff split: option.splits)

lemma fst_deregister [reg_simps]: "fst (deregister i r) = reg_get r i"
  by (simp add: reg_get_def deregister_def split: option.splits)

lemma fst_next_id [reg_simps]: "fst (next_id r) = r_next_id r"
  by (simp add: next_id_def)

lemma r_next_id_simps [reg_simps]:
  "r_next_id (snd (next_id r)) = r_next_id r + 1"
  "r_next_id (register i ref r) = r_next_id r"
  "r_next_id (add_subscription i c r) = r_next_id r"
  "r_next_id (reg_remove_subscription i c r) = r_next_id r"
  "r_next_id (snd (deregister i r)) = r_next_id r"
  by (auto simp: next_id_def register_def add_subscription_def reg_remove_subscription_def
      deregister_def Let_def split: option.splits)

text \<open>The number of registered sessions.\<close>

lemma length_update_fresh: "k \<notin> set (map fst al) \<Longrightarrow> length (AList.update k v al) = Suc (length al)"
  by (induction al) auto

lemma length_delete_distinct:
  "distinct (map fst al) \<Longrightarrow> length (AList.delete k al) =
     (if k \<in> set (map fst al) then length al - 1 else length al)"
proof (induction al)
  case (Cons x al)
  have "fst x = k \<Longrightarrow> AList.delete k al = al"
    using Cons.prems by (simp add: delete_idem)
  moreover have "0 < length al" if "k \<in> set (map fst al)" using that by (cases al) auto
  ultimately show ?case using Cons by (auto simp: AList.delete_eq)
qed simp

lemma reg_len_register: "reg_get r i = None \<Longrightarrow> reg_len (register i ref r) = Suc (reg_len r)"
  by (simp add: reg_len_def register_def reg_get_def length_update_fresh map_of_eq_None_iff)

lemma reg_len_deregister:
  "registry_wf r \<Longrightarrow> reg_get r i = Some ref \<Longrightarrow> Suc (reg_len (snd (deregister i r))) = reg_len r"
proof -
  assume wf: "registry_wf r" and get: "reg_get r i = Some ref"
  then have "i \<in> set (map fst (r_sessions r))"
    by (metis map_of_eq_None_iff option.distinct(1) reg_get_def set_map)
  moreover from this have "0 < length (r_sessions r)" by (cases "r_sessions r") auto
  ultimately show ?thesis
    using wf get by (simp add: reg_len_def deregister_def reg_get_def registry_wf_def
        length_delete_distinct)
qed

lemma reg_len_simps [reg_simps]:
  "reg_len (snd (next_id r)) = reg_len r"
  "reg_len (add_subscription i c r) = reg_len r"
  "reg_len (reg_remove_subscription i c r) = reg_len r"
  by (auto simp: reg_len_def next_id_def add_subscription_def reg_remove_subscription_def Let_def
      split: option.splits)

lemma reg_len_card: "registry_wf r \<Longrightarrow> reg_len r = card (dom (reg_get r))"
proof -
  assume "registry_wf r"
  then have "length (r_sessions r) = card (set (map fst (r_sessions r)))"
    by (metis distinct_card length_map registry_wf_def)
  also have "set (map fst (r_sessions r)) = dom (reg_get r)"
    by (force simp: reg_get_def [abs_def] dom_map_of_conv_image_fst)
  finally show ?thesis by (simp add: reg_len_def)
qed

section \<open>The reverse index as a relation\<close>

text \<open>
  What clients of the index rely on: subscriptions are added and removed one by one, and dropping a
  live session removes all of its entries.
\<close>

locale subscriber_index =
  fixes iwf :: "'r \<Rightarrow> bool" and live :: "'r \<Rightarrow> 'i \<Rightarrow> bool" and subs :: "'r \<Rightarrow> 'c \<Rightarrow> 'i list"
    and add :: "'i \<Rightarrow> 'c \<Rightarrow> 'r \<Rightarrow> 'r" and remove :: "'i \<Rightarrow> 'c \<Rightarrow> 'r \<Rightarrow> 'r" and cut :: "'i \<Rightarrow> 'r \<Rightarrow> 'r"
  assumes add_iwf: "iwf r \<Longrightarrow> iwf (add i c r)"
    and remove_iwf: "iwf r \<Longrightarrow> iwf (remove i c r)"
    and cut_iwf: "iwf r \<Longrightarrow> iwf (cut i r)"
    and subs_add: "iwf r \<Longrightarrow> subs (add i c r) = (subs r)(c := subs r c @ [i])"
    and subs_remove: "iwf r \<Longrightarrow> subs (remove i c r) = (subs r)(c := filter (\<lambda>j. j \<noteq> i) (subs r c))"
    and subs_cut: "iwf r \<Longrightarrow> live r i \<Longrightarrow> subs (cut i r) c = filter (\<lambda>j. j \<noteq> i) (subs r c)"
    and subs_cut_dead: "iwf r \<Longrightarrow> \<not> live r i \<Longrightarrow> subs (cut i r) = subs r"
begin

definition rel :: "'r \<Rightarrow> ('i \<times> 'c) set" where
  "rel r = {(i, c). i \<in> set (subs r c)}"

definition once :: "'r \<Rightarrow> bool" where
  "once r \<longleftrightarrow> (\<forall>c. distinct (subs r c))"

lemma rel_add: "iwf r \<Longrightarrow> rel (add i c r) = insert (i, c) (rel r)"
  by (auto simp: rel_def subs_add split: if_splits)

lemma rel_remove: "iwf r \<Longrightarrow> rel (remove i c r) = rel r - {(i, c)}"
  by (auto simp: rel_def subs_remove split: if_splits)

lemma rel_cut: "iwf r \<Longrightarrow> live r i \<Longrightarrow> rel (cut i r) = {x \<in> rel r. fst x \<noteq> i}"
  by (auto simp: rel_def subs_cut)

lemma rel_cut_dead: "iwf r \<Longrightarrow> \<not> live r i \<Longrightarrow> rel (cut i r) = rel r"
  by (simp add: rel_def subs_cut_dead)

lemma once_add: "iwf r \<Longrightarrow> once r \<Longrightarrow> (i, c) \<notin> rel r \<Longrightarrow> once (add i c r)"
  by (auto simp: once_def rel_def subs_add)

lemma once_remove: "iwf r \<Longrightarrow> once r \<Longrightarrow> once (remove i c r)"
  by (simp add: once_def subs_remove)

lemma once_cut: "iwf r \<Longrightarrow> once r \<Longrightarrow> once (cut i r)"
  by (cases "live r i") (simp_all add: once_def subs_cut subs_cut_dead)

end

interpretation index: subscriber_index registry_wf "\<lambda>r i. reg_get r i \<noteq> None" subscribers_of
  add_subscription reg_remove_subscription "\<lambda>i r. snd (deregister i r)"
  by unfold_locales
     (auto simp: add_subscription_wf reg_remove_wf deregister_wf reg_simps fun_eq_iff)

section \<open>The registry refines a map and a relation\<close>

datatype reg_op =
    OpOpen nat
  | OpAdd u64 string
  | OpRemove u64 string
  | OpDeregister u64

fun reg_exec :: "reg_op \<Rightarrow> registry \<Rightarrow> registry" where
  "reg_exec (OpOpen ref) r = (let (i, r) = next_id r in register i ref r)"
| "reg_exec (OpAdd i c) r = add_subscription i c r"
| "reg_exec (OpRemove i c) r = reg_remove_subscription i c r"
| "reg_exec (OpDeregister i) r = snd (deregister i r)"

text \<open>The abstract registry: the next id, the live sessions, and who is subscribed to what.\<close>

type_synonym abs_registry = "u64 \<times> (u64 \<rightharpoonup> nat) \<times> (u64 \<times> string) set"

fun abs_exec :: "reg_op \<Rightarrow> abs_registry \<Rightarrow> abs_registry" where
  "abs_exec (OpOpen ref) (n, m, R) = (n + 1, m(n \<mapsto> ref), R)"
| "abs_exec (OpAdd i c) (n, m, R) = (n, m, insert (i, c) R)"
| "abs_exec (OpRemove i c) (n, m, R) = (n, m, R - {(i, c)})"
| "abs_exec (OpDeregister i) (n, m, R) =
     (n, m(i := None), if m i = None then R else {x \<in> R. fst x \<noteq> i})"

definition abs_registry :: "registry \<Rightarrow> abs_registry" where
  "abs_registry r = (r_next_id r, reg_get r, {(i, c). i \<in> set (subscribers_of r c)})"

lemma abs_registry_rel: "abs_registry r = (r_next_id r, reg_get r, index.rel r)"
  by (simp add: abs_registry_def index.rel_def)

lemma reg_exec_wf: "registry_wf r \<Longrightarrow> registry_wf (reg_exec op r)"
  by (cases op)
     (simp_all add: add_subscription_wf reg_remove_wf deregister_wf split_beta register_wf next_id_wf)

lemma abs_registry_step:
  "registry_wf r \<Longrightarrow> abs_registry (reg_exec op r) = abs_exec op (abs_registry r)"
  by (cases op)
     (auto simp: abs_registry_def reg_simps split_beta split: if_splits)

lemma abs_registry_run:
  "registry_wf r \<Longrightarrow>
     registry_wf (fold reg_exec ops r) \<and>
     abs_registry (fold reg_exec ops r) = fold abs_exec ops (abs_registry r)"
  by (induction ops arbitrary: r) (simp_all add: reg_exec_wf abs_registry_step)

text \<open>
  C10. Refinement of the session registry. After any sequence of operations, looking up a session
  and asking for a channel's subscribers give what a plain map and a plain relation give;
  deregistering a live session removes every one of its index entries, and deregistering an
  unknown one touches nothing.
\<close>

theorem registry_refines_relation:
  "abs_registry (fold reg_exec ops registry_new) = fold abs_exec ops (0, Map.empty, {})"
proof -
  have "abs_registry registry_new = (0, Map.empty, {})"
    by (simp add: abs_registry_def reg_simps fun_eq_iff) (simp add: registry_new_def)
  then show ?thesis using abs_registry_run [OF registry_new_wf, of ops] by simp
qed

end
