(* ===== verification/Runtime.thy ===== *)
theory Runtime
  imports Traits
begin

text \<open>
  What the hub uses of \<open>tokio\<close>, as a parameter: bounded mailboxes (\<open>mpsc\<close>), spawned
  forwarder tasks with their join handles, and the shutdown notifier. The laws are a locale; a
  concrete runtime satisfies them and runs the examples.
\<close>

section \<open>Operations\<close>

text \<open>
  The state captured by the task that \<open>handle_subscribe\<close> spawns: the broker stream, the session's
  outbox and the channel.
\<close>

record forwarder =
  fw_channel :: string
  fw_stream :: nat
  fw_outbox :: nat

text \<open>
  \<open>mpsc_send\<close> is the completed \<open>send(..).await\<close>: true when the frame was accepted, false when
  the receiver is gone; a full mailbox only delays it. \<open>mpsc_close\<close> is the drop of the receiver. \<open>rt_stop\<close> ends a task, by
  \<open>JoinHandle::abort\<close> or because its body returned; \<open>rt_task\<close> shows the tasks still running.
\<close>

record 't tokio =
  mpsc_send :: "nat \<Rightarrow> server_frame \<Rightarrow> 't \<Rightarrow> bool \<times> 't"
  mpsc_close :: "nat \<Rightarrow> 't \<Rightarrow> 't"
  rt_spawn :: "forwarder \<Rightarrow> 't \<Rightarrow> nat \<times> 't"
  rt_task :: "'t \<Rightarrow> nat \<Rightarrow> forwarder option"
  rt_stop :: "nat \<Rightarrow> 't \<Rightarrow> 't"
  notify_new :: "'t \<Rightarrow> nat \<times> 't"
  notify_waiters :: "nat \<Rightarrow> 't \<Rightarrow> 't"

section \<open>Laws\<close>

text \<open>
  \<open>used\<close> are the handles ever given out, \<open>sent t o\<close> the frames mailbox \<open>o\<close> has accepted,
  \<open>closed t o\<close> that its receiver is gone. Handles are not reused; a mailbox accepts a frame
  exactly when it is open; the operations touch nothing else.
\<close>

locale tokio_rt =
  fixes T :: "'t tokio"
    and used :: "'t \<Rightarrow> nat set"
    and sent :: "'t \<Rightarrow> nat \<Rightarrow> server_frame list"
    and closed :: "'t \<Rightarrow> nat \<Rightarrow> bool"
  assumes task_used: "rt_task T t h = Some f \<Longrightarrow> h \<in> used t"
    and spawn_fresh: "rt_spawn T f t = (h, t') \<Longrightarrow> h \<notin> used t"
    and spawn_used: "rt_spawn T f t = (h, t') \<Longrightarrow> used t' = insert h (used t)"
    and spawn_task: "rt_spawn T f t = (h, t') \<Longrightarrow> rt_task T t' = (rt_task T t)(h \<mapsto> f)"
    and spawn_sent: "rt_spawn T f t = (h, t') \<Longrightarrow> sent t' = sent t \<and> closed t' = closed t"
    and stop_used: "used (rt_stop T h t) = used t"
    and stop_task: "rt_task T (rt_stop T h t) = (rt_task T t)(h := None)"
    and stop_sent: "sent (rt_stop T h t) = sent t \<and> closed (rt_stop T h t) = closed t"
    and send_used: "used (snd (mpsc_send T ob fr t)) = used t"
    and send_task: "rt_task T (snd (mpsc_send T ob fr t)) = rt_task T t"
    and send_closed: "closed (snd (mpsc_send T ob fr t)) = closed t"
    and send_ok: "fst (mpsc_send T ob fr t) \<longleftrightarrow> \<not> closed t ob"
    and send_sent: "sent (snd (mpsc_send T ob fr t)) =
          (if closed t ob then sent t else (sent t)(ob := sent t ob @ [fr]))"
    and close_frame: "used (mpsc_close T ob t) = used t \<and> rt_task T (mpsc_close T ob t) = rt_task T t \<and>
          sent (mpsc_close T ob t) = sent t"
    and close_closed: "closed (mpsc_close T ob t) = (closed t)(ob := True)"
    and notify_new_frame: "notify_new T t = (n, t') \<Longrightarrow>
          used t' = used t \<and> rt_task T t' = rt_task T t \<and> sent t' = sent t \<and> closed t' = closed t"
    and notify_frame: "used (notify_waiters T n t) = used t \<and>
          rt_task T (notify_waiters T n t) = rt_task T t \<and>
          sent (notify_waiters T n t) = sent t \<and> closed (notify_waiters T n t) = closed t"

section \<open>A concrete runtime\<close>

record rt =
  rt_frames :: "nat \<Rightarrow> server_frame list"
  rt_closed :: "nat list"
  rt_running :: "nat \<Rightarrow> forwarder option"
  rt_next :: nat
  rt_notifiers :: nat
  rt_woken :: "nat list"

definition rt_init :: rt where
  "rt_init = \<lparr>rt_frames = (\<lambda>_. []), rt_closed = [], rt_running = Map.empty, rt_next = 0,
     rt_notifiers = 0, rt_woken = []\<rparr>"

text \<open>A running task's handle is below \<open>rt_next\<close>; handles at or above it show no task.\<close>

definition rt_ops :: "rt tokio" where
  "rt_ops =
     \<lparr>mpsc_send = (\<lambda>ob fr t. if ob \<in> set (rt_closed t) then (False, t)
        else (True, t\<lparr>rt_frames := (rt_frames t)(ob := rt_frames t ob @ [fr])\<rparr>)),
      mpsc_close = (\<lambda>ob t. t\<lparr>rt_closed := ob # rt_closed t\<rparr>),
      rt_spawn = (\<lambda>f t. (rt_next t,
        t\<lparr>rt_running := (rt_running t)(rt_next t \<mapsto> f), rt_next := Suc (rt_next t)\<rparr>)),
      rt_task = (\<lambda>t h. if h < rt_next t then rt_running t h else None),
      rt_stop = (\<lambda>h t. t\<lparr>rt_running := (rt_running t)(h := None)\<rparr>),
      notify_new = (\<lambda>t. (rt_notifiers t, t\<lparr>rt_notifiers := Suc (rt_notifiers t)\<rparr>)),
      notify_waiters = (\<lambda>n t. t\<lparr>rt_woken := n # rt_woken t\<rparr>)\<rparr>"

interpretation rt: tokio_rt rt_ops "\<lambda>t. {h. h < rt_next t}" rt_frames "\<lambda>t ob. ob \<in> set (rt_closed t)"
  by unfold_locales (auto simp: rt_ops_def fun_eq_iff split: if_splits)

end
