(* ===== verification/Hub.thy ===== *)
theory Hub
  imports Session Runtime
begin

text \<open>
  \<open>cherenkov-core/src/hub.rs\<close>: the builder and the hub's handlers. The hub's fixed parts
  (channel kinds by namespace, broker, validator, authenticator, access control, runtime) are the
  record \<open>hub\<close>; everything its \<open>Arc\<close>s share and mutate is the record \<open>world\<close>. A handler
  is a state-passing computation on the world that runs to completion; its early returns keep the
  state reached so far.
\<close>

section \<open>Building a hub\<close>

text \<open>A channel kind is a handle: an index of \<open>w_kinds\<close>, with \<open>hub_kops\<close> as its vtable.\<close>

record ('k, 'b, 't) hub =
  hub_kind :: nat
  hub_namespace_kinds :: "string \<Rightarrow> nat option"
  hub_kops :: "'k kind_ops"
  hub_broker :: "'b broker_ops"
  hub_validator :: schema_validator
  hub_authenticator :: authenticator
  hub_acl :: acl_checker
  hub_rt :: "'t tokio"

record 'b hub_builder =
  hb_kind :: "nat option"
  hb_namespace_kinds :: "string \<Rightarrow> nat option"
  hb_broker :: "'b broker_ops option"
  hb_validator :: "schema_validator option"
  hb_authenticator :: "authenticator option"
  hb_acl :: "acl_checker option"
  hb_transports :: "nat list"

definition builder_new :: "'b hub_builder" where
  "builder_new = \<lparr>hb_kind = None, hb_namespace_kinds = Map.empty, hb_broker = None,
     hb_validator = None, hb_authenticator = None, hb_acl = None, hb_transports = []\<rparr>"

definition with_channel_kind :: "nat \<Rightarrow> 'b hub_builder \<Rightarrow> 'b hub_builder" where
  "with_channel_kind k b = b\<lparr>hb_kind := Some k\<rparr>"

definition with_channel_kind_for :: "string \<Rightarrow> nat \<Rightarrow> 'b hub_builder \<Rightarrow> 'b hub_builder" where
  "with_channel_kind_for namespace k b =
     b\<lparr>hb_namespace_kinds := (hb_namespace_kinds b)(namespace \<mapsto> k)\<rparr>"

definition with_broker :: "'b broker_ops \<Rightarrow> 'b hub_builder \<Rightarrow> 'b hub_builder" where
  "with_broker br b = b\<lparr>hb_broker := Some br\<rparr>"

definition with_schema_validator :: "schema_validator \<Rightarrow> 'b hub_builder \<Rightarrow> 'b hub_builder" where
  "with_schema_validator v b = b\<lparr>hb_validator := Some v\<rparr>"

definition with_authenticator :: "authenticator \<Rightarrow> 'b hub_builder \<Rightarrow> 'b hub_builder" where
  "with_authenticator a b = b\<lparr>hb_authenticator := Some a\<rparr>"

definition with_acl_checker :: "acl_checker \<Rightarrow> 'b hub_builder \<Rightarrow> 'b hub_builder" where
  "with_acl_checker a b = b\<lparr>hb_acl := Some a\<rparr>"

definition with_transport :: "nat \<Rightarrow> 'b hub_builder \<Rightarrow> 'b hub_builder" where
  "with_transport t b = b\<lparr>hb_transports := hb_transports b @ [t]\<rparr>"

definition unwrap_or :: "'a option \<Rightarrow> 'a \<Rightarrow> 'a" where
  "unwrap_or x d = (case x of Some y \<Rightarrow> y | None \<Rightarrow> d)"

definition build :: "'k kind_ops \<Rightarrow> 't tokio \<Rightarrow> 'b hub_builder \<Rightarrow>
    (string, ('k, 'b, 't) hub \<times> nat list) result" where
  "build K T b =
     (case hb_kind b of
        None \<Rightarrow> Inl ''no channel kind registered''
      | Some k \<Rightarrow>
          (case hb_broker b of
             None \<Rightarrow> Inl ''no broker registered''
           | Some br \<Rightarrow>
               Inr (\<lparr>hub_kind = k, hub_namespace_kinds = hb_namespace_kinds b, hub_kops = K,
                     hub_broker = br,
                     hub_validator = unwrap_or (hb_validator b) AllowAllValidator,
                     hub_authenticator = unwrap_or (hb_authenticator b) AllowAllAuthenticator,
                     hub_acl = unwrap_or (hb_acl b) AllowAllAcl, hub_rt = T\<rparr>,
                    hb_transports b)))"

section \<open>The hub's state\<close>

text \<open>The metrics the hub records; \<open>m_active\<close> is the gauge.\<close>

record metrics =
  m_opened :: nat
  m_closed :: nat
  m_kicked :: nat
  m_published :: nat
  m_active :: nat

text \<open>
  \<open>w_store\<close> is the heap of sessions by reference and \<open>w_strong\<close> their strong counts, zero
  once dropped. The counts include the registry's handle, the one the transport keeps and the one
  \<open>kick_session\<close> takes; the clones the frame handlers take and drop again while they run cancel
  out and are not counted.
\<close>

record ('k, 'b, 't) world =
  w_registry :: registry
  w_store :: "nat \<Rightarrow> session"
  w_strong :: "nat \<Rightarrow> nat"
  w_next_ref :: nat
  w_kinds :: "nat \<Rightarrow> 'k"
  w_broker :: 'b
  w_rt :: 't
  w_metrics :: metrics

definition world_new :: "(nat \<Rightarrow> 'k) \<Rightarrow> 'b \<Rightarrow> 't \<Rightarrow> ('k, 'b, 't) world" where
  "world_new ks b t =
     \<lparr>w_registry = registry_new, w_store = (\<lambda>_. session_new 0 0 0), w_strong = (\<lambda>_. 0),
      w_next_ref = 0, w_kinds = ks, w_broker = b, w_rt = t,
      w_metrics = \<lparr>m_opened = 0, m_closed = 0, m_kicked = 0, m_published = 0, m_active = 0\<rparr>\<rparr>"

definition upd_session ::
    "nat \<Rightarrow> (session \<Rightarrow> session) \<Rightarrow> ('k, 'b, 't) world \<Rightarrow> ('k, 'b, 't) world" where
  "upd_session ref f w = w\<lparr>w_store := (w_store w)(ref := f (w_store w ref))\<rparr>"

definition upd_registry ::
    "(registry \<Rightarrow> registry) \<Rightarrow> ('k, 'b, 't) world \<Rightarrow> ('k, 'b, 't) world" where
  "upd_registry f w = w\<lparr>w_registry := f (w_registry w)\<rparr>"

text \<open>A call on a channel kind or the broker, with its error converted as \<open>?\<close> does.\<close>

definition on_kind ::
    "nat \<Rightarrow> ('k, channel_error, 'a) comp \<Rightarrow> (('k, 'b, 't) world, hub_error, 'a) comp" where
  "on_kind n m w =
     (case m (w_kinds w n) of
        (r, k) \<Rightarrow> (map_sum ChannelErr id r, w\<lparr>w_kinds := (w_kinds w)(n := k)\<rparr>))"

definition on_broker ::
    "('b, broker_error, 'a) comp \<Rightarrow> (('k, 'b, 't) world, hub_error, 'a) comp" where
  "on_broker m w = (case m (w_broker w) of (r, b) \<Rightarrow> (map_sum BrokerErr id r, w\<lparr>w_broker := b\<rparr>))"

definition drop_stream :: "('k, 'b, 't) hub \<Rightarrow> nat \<Rightarrow> ('k, 'b, 't) world \<Rightarrow> ('k, 'b, 't) world" where
  "drop_stream H st w = w\<lparr>w_broker := br_drop (hub_broker H) st (w_broker w)\<rparr>"

text \<open>Ending a forwarder drops the stream it owns; ending a finished one does nothing.\<close>

definition abort_task :: "('k, 'b, 't) hub \<Rightarrow> nat \<Rightarrow> ('k, 'b, 't) world \<Rightarrow> ('k, 'b, 't) world" where
  "abort_task H h w =
     (case rt_task (hub_rt H) (w_rt w) h of
        None \<Rightarrow> w
      | Some f \<Rightarrow> drop_stream H (fw_stream f) (w\<lparr>w_rt := rt_stop (hub_rt H) h (w_rt w)\<rparr>))"

text \<open>Dropping an \<open>Arc<Session>\<close>; the last one runs \<open>Drop for Session\<close>.\<close>

definition arc_drop :: "('k, 'b, 't) hub \<Rightarrow> nat \<Rightarrow> ('k, 'b, 't) world \<Rightarrow> ('k, 'b, 't) world" where
  "arc_drop H ref w =
     (let w' = w\<lparr>w_strong := (w_strong w)(ref := w_strong w ref - 1)\<rparr>
      in if w_strong w' ref = 0 then
           (case abort_all (w_store w' ref) of
              (tasks, s) \<Rightarrow> fold (abort_task H) tasks (upd_session ref (\<lambda>_. s) w'))
         else w')"

definition arc_clone :: "nat \<Rightarrow> ('k, 'b, 't) world \<Rightarrow> ('k, 'b, 't) world" where
  "arc_clone ref w = w\<lparr>w_strong := (w_strong w)(ref := w_strong w ref + 1)\<rparr>"

section \<open>Sessions\<close>

definition namespace_of :: "string \<Rightarrow> string" where
  "namespace_of channel =
     (case split_once (CHR ''.'') channel of Some (ns, _) \<Rightarrow> ns | None \<Rightarrow> channel)"

definition set_active :: "('k, 'b, 't) world \<Rightarrow> ('k, 'b, 't) world" where
  "set_active w = w\<lparr>w_metrics := (w_metrics w)\<lparr>m_active := reg_len (w_registry w)\<rparr>\<rparr>"

text \<open>
  Registering replaces a session that still has the same id (after the 64-bit counter has wrapped)
  and drops the registry's handle on it.
\<close>

definition open_session ::
    "('k, 'b, 't) hub \<Rightarrow> nat \<Rightarrow> ('k, 'b, 't) world \<Rightarrow> nat \<times> ('k, 'b, 't) world" where
  "open_session H outbox w =
     (let (i, reg) = next_id (w_registry w);
          (n, t) = notify_new (hub_rt H) (w_rt w);
          ref = w_next_ref w;
          s = session_new i outbox n;
          s = (if allow_anonymous (hub_authenticator H) then snd (set_claims anonymous s) else s);
          old = reg_get reg i;
          w = w\<lparr>w_registry := register i ref reg, w_rt := t, w_store := (w_store w)(ref := s),
                w_strong := (w_strong w)(ref := 2), w_next_ref := Suc ref\<rparr>;
          w = (case old of Some r \<Rightarrow> arc_drop H r w | None \<Rightarrow> w);
          w = w\<lparr>w_metrics := (w_metrics w)\<lparr>m_opened := m_opened (w_metrics w) + 1\<rparr>\<rparr>
      in (ref, set_active w))"

definition requires_connect :: "('k, 'b, 't) hub \<Rightarrow> bool" where
  "requires_connect H \<longleftrightarrow> \<not> allow_anonymous (hub_authenticator H)"

text \<open>The lookup that opens every handler.\<close>

definition get_session :: "u64 \<Rightarrow> (('k, 'b, 't) world, hub_error, nat) comp" where
  "get_session sid w =
     (case reg_get (w_registry w) sid of
        None \<Rightarrow> (Inl (SessionGone sid), w)
      | Some ref \<Rightarrow> (Inr ref, w))"

definition handle_connect ::
    "('k, 'b, 't) hub \<Rightarrow> instant \<Rightarrow> u64 \<Rightarrow> u64 \<Rightarrow> string \<Rightarrow>
     (('k, 'b, 't) world, hub_error, connect_ok) comp" where
  "handle_connect H now sid request_id token =
     try_bind (get_session sid) (\<lambda>ref w.
       if s_claims (w_store w ref) \<noteq> None \<and> \<not> allow_anonymous (hub_authenticator H)
       then (Inl (AlreadyConnected sid), w)
       else
         (case authenticate (hub_authenticator H) now token of
            Inl e \<Rightarrow> (Inl (AuthErr e), w)
          | Inr claims \<Rightarrow>
              (Inr \<lparr>connok_request_id = request_id, connok_subject = cl_subject claims,
                    connok_expires_at = cl_expires_at claims\<rparr>,
               upd_session ref (\<lambda>s. snd (set_claims claims s)) w)))"

definition kind_for :: "('k, 'b, 't) hub \<Rightarrow> string \<Rightarrow> nat" where
  "kind_for H channel = unwrap_or (hub_namespace_kinds H (namespace_of channel)) (hub_kind H)"

definition require_claims ::
    "('k, 'b, 't) hub \<Rightarrow> nat \<Rightarrow> (('k, 'b, 't) world, hub_error, session_claims) comp" where
  "require_claims H ref w =
     (case s_claims (w_store w ref) of
        Some claims \<Rightarrow> (Inr claims, w)
      | None \<Rightarrow>
          if allow_anonymous (hub_authenticator H)
          then (Inr anonymous, upd_session ref (\<lambda>s. snd (set_claims anonymous s)) w)
          else (Inl (NotConnected (s_id (w_store w ref))), w))"

definition enforce_acl ::
    "('k, 'b, 't) hub \<Rightarrow> session_claims \<Rightarrow> acl_action \<Rightarrow> string \<Rightarrow>
     (('k, 'b, 't) world, hub_error, unit) comp" where
  "enforce_acl H claims action channel =
     (case acl_check (hub_acl H) claims action channel of
        Inl e \<Rightarrow> err (AclErr e)
      | Inr Allow \<Rightarrow> ok ()
      | Inr Deny \<Rightarrow> err (AclErr (Denied (cl_subject claims) (acl_action_as_str action) channel
                                  ''policy denied'')))"

definition close_session ::
    "('k, 'b, 't) hub \<Rightarrow> u64 \<Rightarrow> ('k, 'b, 't) world \<Rightarrow> ('k, 'b, 't) world" where
  "close_session H sid w =
     (case deregister sid (w_registry w) of
        (None, _) \<Rightarrow> w
      | (Some ref, reg) \<Rightarrow>
          let w = arc_drop H ref (w\<lparr>w_registry := reg\<rparr>);
              w = w\<lparr>w_metrics := (w_metrics w)\<lparr>m_closed := m_closed (w_metrics w) + 1\<rparr>\<rparr>
          in set_active w)"

definition kick_session ::
    "('k, 'b, 't) hub \<Rightarrow> u64 \<Rightarrow> ('k, 'b, 't) world \<Rightarrow> bool \<times> ('k, 'b, 't) world" where
  "kick_session H sid w =
     (case reg_get (w_registry w) sid of
        None \<Rightarrow> (False, w)
      | Some ref \<Rightarrow>
          let w = arc_clone ref w;
              w = w\<lparr>w_rt := notify_waiters (hub_rt H) (s_shutdown (w_store w ref)) (w_rt w)\<rparr>
          in (case deregister sid (w_registry w) of
                (None, _) \<Rightarrow> (False, arc_drop H ref w)
              | (Some r, reg) \<Rightarrow>
                  let w = arc_drop H r (w\<lparr>w_registry := reg\<rparr>);
                      w = w\<lparr>w_metrics := (w_metrics w)\<lparr>m_kicked := m_kicked (w_metrics w) + 1\<rparr>\<rparr>
                  in (True, arc_drop H ref (set_active w))))"

section \<open>Subscribing\<close>

text \<open>The closure \<open>unwind\<close>: a failing \<open>on_unsubscribe\<close> is only logged.\<close>

definition unwind :: "('k, 'b, 't) hub \<Rightarrow> nat \<Rightarrow> string \<Rightarrow> ('k, 'b, 't) world \<Rightarrow> ('k, 'b, 't) world" where
  "unwind H k channel w =
     w\<lparr>w_kinds := (w_kinds w)(k := snd (k_on_unsubscribe (hub_kops H) channel (w_kinds w k)))\<rparr>"

text \<open>An early return that first runs some clean-up on the state.\<close>

definition or_cleanup :: "('s \<Rightarrow> 's) \<Rightarrow> ('s, 'e, 'a) comp \<Rightarrow> ('s, 'e, 'a) comp" where
  "or_cleanup c m s = (case m s of (Inl e, s') \<Rightarrow> (Inl e, c s') | (Inr x, s') \<Rightarrow> (Inr x, s'))"

definition send_frame ::
    "('k, 'b, 't) hub \<Rightarrow> nat \<Rightarrow> server_frame \<Rightarrow> ('k, 'b, 't) world \<Rightarrow> bool \<times> ('k, 'b, 't) world" where
  "send_frame H outbox frame w =
     (case mpsc_send (hub_rt H) outbox frame (w_rt w) of (sent, t) \<Rightarrow> (sent, w\<lparr>w_rt := t\<rparr>))"

text \<open>A transport drops the receiving end of a session's outbox.\<close>

definition hang_up :: "('k, 'b, 't) hub \<Rightarrow> nat \<Rightarrow> ('k, 'b, 't) world \<Rightarrow> ('k, 'b, 't) world" where
  "hang_up H outbox w = w\<lparr>w_rt := mpsc_close (hub_rt H) outbox (w_rt w)\<rparr>"

text \<open>The replay loop: push every publication, stop at the first refused one.\<close>

fun send_replay ::
    "('k, 'b, 't) hub \<Rightarrow> u64 \<Rightarrow> nat \<Rightarrow> publication list \<Rightarrow> (('k, 'b, 't) world, hub_error, unit) comp" where
  "send_replay H sid outbox [] w = (Inr (), w)"
| "send_replay H sid outbox (p # ps) w =
     (case send_frame H outbox (PublicationFrame p) w of
        (True, w') \<Rightarrow> send_replay H sid outbox ps w'
      | (False, w') \<Rightarrow> (Inl (SessionGone sid), w'))"

definition check_not_subscribed ::
    "u64 \<Rightarrow> nat \<Rightarrow> string \<Rightarrow> (('k, 'b, 't) world, hub_error, unit) comp" where
  "check_not_subscribed sid ref channel w =
     (if has_subscription (w_store w ref) channel
      then (Inl (AlreadySubscribed sid channel), w) else (Inr (), w))"

text \<open>The replay branch; a failure unwinds the kind and drops the broker stream.\<close>

definition replay ::
    "('k, 'b, 't) hub \<Rightarrow> instant \<Rightarrow> u64 \<Rightarrow> nat \<Rightarrow> string \<Rightarrow> u64 \<Rightarrow> nat \<Rightarrow> nat \<Rightarrow>
     (('k, 'b, 't) world, hub_error, unit) comp" where
  "replay H now sid outbox channel since_offset k stream =
     (if since_offset > 0 then
        or_cleanup (\<lambda>w. drop_stream H stream (unwind H k channel w))
          (try_bind (on_kind k (k_replay_since (hub_kops H) now channel since_offset))
             (send_replay H sid outbox))
      else ok ())"

text \<open>Spawn the forwarder and record the subscription in the session and the reverse index.\<close>

definition attach ::
    "('k, 'b, 't) hub \<Rightarrow> u64 \<Rightarrow> nat \<Rightarrow> string \<Rightarrow> nat \<Rightarrow> nat \<Rightarrow> (('k, 'b, 't) world, hub_error, unit) comp" where
  "attach H sid ref channel k stream w =
     (let (h, t) = rt_spawn (hub_rt H) \<lparr>fw_channel = channel, fw_stream = stream,
                     fw_outbox = s_outbox (w_store w ref)\<rparr> (w_rt w);
          w = w\<lparr>w_rt := t\<rparr>
      in (case insert_subscription channel h (w_store w ref) of
            (Inl stray, _) \<Rightarrow>
              (Inl (AlreadySubscribed sid channel), unwind H k channel (abort_task H stray w))
          | (Inr _, s) \<Rightarrow>
              (Inr (), upd_registry (add_subscription sid channel) (upd_session ref (\<lambda>_. s) w))))"

definition handle_subscribe ::
    "('k, 'b, 't) hub \<Rightarrow> instant \<Rightarrow> u64 \<Rightarrow> u64 \<Rightarrow> string \<Rightarrow> u64 \<Rightarrow>
     (('k, 'b, 't) world, hub_error, subscribe_ok) comp" where
  "handle_subscribe H now sid request_id channel since_offset =
     try_bind (get_session sid) (\<lambda>ref.
     try_bind (require_claims H ref) (\<lambda>claims.
     try_bind (enforce_acl H claims ActSubscribe channel) (\<lambda>_.
     try_bind (check_not_subscribed sid ref channel) (\<lambda>_.
     let k = kind_for H channel in
     try_bind (on_kind k (k_on_subscribe (hub_kops H) channel)) (\<lambda>cursor.
     try_bind (or_cleanup (unwind H k channel) (on_broker (br_subscribe (hub_broker H) channel)))
       (\<lambda>stream w.
     try_bind (replay H now sid (s_outbox (w_store w ref)) channel since_offset k stream) (\<lambda>_.
     try_bind (attach H sid ref channel k stream) (\<lambda>_.
     ok \<lparr>subok_request_id = request_id, subok_channel = channel, subok_epoch = cur_epoch cursor,
         subok_offset = cur_offset cursor\<rparr>)) w))))))"

definition detach ::
    "('k, 'b, 't) hub \<Rightarrow> u64 \<Rightarrow> nat \<Rightarrow> string \<Rightarrow> (('k, 'b, 't) world, hub_error, unit) comp" where
  "detach H sid ref channel w =
     (case session_remove_subscription channel (w_store w ref) of
        (None, _) \<Rightarrow> (Inl (NotSubscribed sid channel), w)
      | (Some forwarder, s) \<Rightarrow>
          (Inr (), upd_registry (reg_remove_subscription sid channel)
                     (abort_task H forwarder (upd_session ref (\<lambda>_. s) w))))"

definition handle_unsubscribe ::
    "('k, 'b, 't) hub \<Rightarrow> u64 \<Rightarrow> u64 \<Rightarrow> string \<Rightarrow> (('k, 'b, 't) world, hub_error, unsubscribe_ok) comp" where
  "handle_unsubscribe H sid request_id channel =
     try_bind (get_session sid) (\<lambda>ref.
     try_bind (detach H sid ref channel) (\<lambda>_.
     try_bind (on_kind (kind_for H channel) (k_on_unsubscribe (hub_kops H) channel)) (\<lambda>_.
     ok \<lparr>unsubok_request_id = request_id, unsubok_channel = channel\<rparr>)))"

section \<open>Publishing\<close>

definition check_schema ::
    "('k, 'b, 't) hub \<Rightarrow> string \<Rightarrow> bytes \<Rightarrow> (('k, 'b, 't) world, hub_error, unit) comp" where
  "check_schema H channel data w =
     (map_sum SchemaErr id (validate (hub_validator H) channel data), w)"

definition count_publication :: "(('k, 'b, 't) world, hub_error, unit) comp" where
  "count_publication w =
     (Inr (), w\<lparr>w_metrics := (w_metrics w)\<lparr>m_published := m_published (w_metrics w) + 1\<rparr>\<rparr>)"

definition handle_publish ::
    "('k, 'b, 't) hub \<Rightarrow> instant \<Rightarrow> u64 \<Rightarrow> string \<Rightarrow> bytes \<Rightarrow>
     (('k, 'b, 't) world, hub_error, publication) comp" where
  "handle_publish H now sid channel data =
     try_bind (get_session sid) (\<lambda>ref.
     try_bind (require_claims H ref) (\<lambda>claims.
     try_bind (enforce_acl H claims ActPublish channel) (\<lambda>_.
     try_bind (check_schema H channel data) (\<lambda>_.
     try_bind (on_kind (kind_for H channel) (k_on_publish (hub_kops H) now channel data)) (\<lambda>p.
     try_bind (on_broker (br_publish (hub_broker H) channel p)) (\<lambda>_.
     try_bind count_publication (\<lambda>_.
     ok p)))))))"

section \<open>Forwarding\<close>

text \<open>
  One round of a forwarder's loop: take the next publication of its stream and push it into the
  outbox; the task ends when the stream does or when the outbox is closed.
\<close>

definition forward :: "('k, 'b, 't) hub \<Rightarrow> nat \<Rightarrow> ('k, 'b, 't) world \<Rightarrow> ('k, 'b, 't) world" where
  "forward H h w =
     (case rt_task (hub_rt H) (w_rt w) h of
        None \<Rightarrow> w
      | Some f \<Rightarrow>
          (case br_next (hub_broker H) (fw_stream f) (w_broker w) of
             (Pending, b) \<Rightarrow> w\<lparr>w_broker := b\<rparr>
           | (Ended, b) \<Rightarrow> abort_task H h (w\<lparr>w_broker := b\<rparr>)
           | (Ready p, b) \<Rightarrow>
               (case send_frame H (fw_outbox f) (PublicationFrame p) (w\<lparr>w_broker := b\<rparr>) of
                  (True, w') \<Rightarrow> w'
                | (False, w') \<Rightarrow> abort_task H h w')))"

section \<open>The hub as a transition system\<close>

text \<open>
  Transports and forwarders call the hub in any order; a transport also pushes its replies into the
  session's outbox and drops its receiving end when the connection is over. A state pairs the world with the sessions
  whose transport still holds its handle. Opening is limited to fewer than \<open>2 ^ 64\<close> sessions over
  the life of a hub, so that ids are not reused.
\<close>

inductive hub_step ::
    "('k, 'b, 't) hub \<Rightarrow> nat set \<times> ('k, 'b, 't) world \<Rightarrow> nat set \<times> ('k, 'b, 't) world \<Rightarrow> bool"
  for H :: "('k, 'b, 't) hub" where
  Open: "m_opened (w_metrics w) + 1 < 2 ^ 64 \<Longrightarrow> open_session H outbox w = (ref, w') \<Longrightarrow>
    hub_step H (held, w) (insert ref held, w')"
| ConnectStep: "hub_step H (held, w) (held, snd (handle_connect H now sid rid token w))"
| SubscribeStep: "hub_step H (held, w) (held, snd (handle_subscribe H now sid rid channel since w))"
| UnsubscribeStep: "hub_step H (held, w) (held, snd (handle_unsubscribe H sid rid channel w))"
| PublishStep: "hub_step H (held, w) (held, snd (handle_publish H now sid channel data w))"
| Close: "hub_step H (held, w) (held, close_session H sid w)"
| Kick: "hub_step H (held, w) (held, snd (kick_session H sid w))"
| Release: "ref \<in> held \<Longrightarrow> hub_step H (held, w) (held - {ref}, arc_drop H ref w)"
| Forward: "hub_step H (held, w) (held, forward H h w)"
| Deliver: "hub_step H (held, w) (held, snd (send_frame H outbox frame w))"
| HangUp: "hub_step H (held, w) (held, hang_up H outbox w)"

inductive reachable ::
    "('k, 'b, 't) hub \<Rightarrow> ('k, 'b, 't) world \<Rightarrow> nat set \<times> ('k, 'b, 't) world \<Rightarrow> bool"
  for H :: "('k, 'b, 't) hub" and w0 :: "('k, 'b, 't) world" where
  Start: "reachable H w0 ({}, w0)"
| Step: "reachable H w0 s \<Longrightarrow> hub_step H s s' \<Longrightarrow> reachable H w0 s'"

inductive_cases hub_stepE: "hub_step H s s'"

end
