(* ===== verification/Schema.thy ===== *)
theory Schema
  imports Hub
begin

text \<open>
  \<open>cherenkov-schema/src/registry.rs\<close>: the per-namespace JSON Schema registry. JSON parsing
  (\<open>serde_json\<close>) and schema compilation and checking (\<open>jsonschema\<close>) are parameters.
\<close>

section \<open>The registry\<close>

datatype registry_error = InvalidSchema string string

fun registry_error_msg :: "registry_error \<Rightarrow> string" where
  "registry_error_msg (InvalidSchema ns reason) =
     ''schema for namespace `'' @ ns @ ''` is invalid: '' @ reason"

text \<open>
  \<open>from_slice\<close> parses JSON, \<open>validator_for\<close> compiles a schema document and
  \<open>check_value\<close> is \<open>Validator::validate\<close>; errors are their messages.
\<close>

record ('j, 'v) json_lib =
  from_slice :: "bytes \<Rightarrow> (string, 'j) result"
  validator_for :: "'j \<Rightarrow> (string, 'v) result"
  check_value :: "'v \<Rightarrow> 'j \<Rightarrow> (string, unit) result"

definition schema_namespace_of :: "string \<Rightarrow> string" where
  "schema_namespace_of channel =
     (case split_once (CHR ''.'') channel of None \<Rightarrow> channel | Some (ns, _) \<Rightarrow> ns)"

text \<open>The builder and the registry hold the same map from namespaces to compiled schemas.\<close>

record 'v schema_builder =
  sb_schemas :: "(string \<times> 'v) list"

record 'v schema_registry =
  sr_schemas :: "(string \<times> 'v) list"

definition schema_builder_new :: "'v schema_builder" where
  "schema_builder_new = \<lparr>sb_schemas = []\<rparr>"

definition with_namespace ::
    "('j, 'v) json_lib \<Rightarrow> string \<Rightarrow> 'j \<Rightarrow> 'v schema_builder \<Rightarrow>
     (registry_error, 'v schema_builder) result" where
  "with_namespace J ns schema b =
     (case validator_for J schema of
        Inl e \<Rightarrow> Inl (InvalidSchema ns e)
      | Inr v \<Rightarrow> Inr (b\<lparr>sb_schemas := AList.update ns v (sb_schemas b)\<rparr>))"

definition schema_build :: "'v schema_builder \<Rightarrow> 'v schema_registry" where
  "schema_build b = \<lparr>sr_schemas = sb_schemas b\<rparr>"

definition schema_registry_empty :: "'v schema_registry" where
  "schema_registry_empty = \<lparr>sr_schemas = []\<rparr>"

definition schema_len :: "'v schema_registry \<Rightarrow> nat" where
  "schema_len r = length (sr_schemas r)"

definition schema_is_empty :: "'v schema_registry \<Rightarrow> bool" where
  "schema_is_empty r \<longleftrightarrow> sr_schemas r = []"

definition schema_validate ::
    "('j, 'v) json_lib \<Rightarrow> 'v schema_registry \<Rightarrow> string \<Rightarrow> bytes \<Rightarrow> (schema_error, unit) result" where
  "schema_validate J r channel data =
     (case map_of (sr_schemas r) (schema_namespace_of channel) of
        None \<Rightarrow> Inr ()
      | Some validator \<Rightarrow>
          (case from_slice J data of
             Inl e \<Rightarrow> Inl (PayloadRejected channel (''payload is not valid JSON: '' @ e))
           | Inr value \<Rightarrow>
               (case check_value J validator value of
                  Inl e \<Rightarrow> Inl (PayloadRejected channel e)
                | Inr _ \<Rightarrow> Inr ())))"

definition schema_registry_validator ::
    "('j, 'v) json_lib \<Rightarrow> 'v schema_registry \<Rightarrow> schema_validator" where
  "schema_registry_validator J r =
     \<lparr>validator_name = ''json-schema'', validate = schema_validate J r\<rparr>"

section \<open>Building a registry\<close>

text \<open>A chain of \<open>with_namespace\<close> calls, each unwrapped by \<open>?\<close>.\<close>

fun with_namespaces ::
    "('j, 'v) json_lib \<Rightarrow> (string \<times> 'j) list \<Rightarrow> 'v schema_builder \<Rightarrow>
     (registry_error, 'v schema_builder) result" where
  "with_namespaces J [] b = Inr b"
| "with_namespaces J ((ns, s) # rest) b =
     (case with_namespace J ns s b of Inl e \<Rightarrow> Inl e | Inr b' \<Rightarrow> with_namespaces J rest b')"

lemma schema_namespace_of_hub [simp]: "schema_namespace_of channel = namespace_of channel"
  by (simp add: schema_namespace_of_def namespace_of_def split: option.splits)

lemma with_namespaces_distinct:
  "with_namespaces J decls b = Inr b' \<Longrightarrow> distinct (map fst (sb_schemas b)) \<Longrightarrow>
     distinct (map fst (sb_schemas b')) \<and>
     set (map fst (sb_schemas b')) = set (map fst (sb_schemas b)) \<union> set (map fst decls)"
proof (induction J decls b rule: with_namespaces.induct)
  case (2 J ns s rest b)
  then show ?case
    by (fastforce simp: with_namespace_def distinct_update dom_update split: sum.splits)
qed simp

lemma with_namespaces_lookup:
  "with_namespaces J decls b = Inr b' \<Longrightarrow>
     map_of (sb_schemas b') ns =
       (case map_of (rev decls) ns of
          None \<Rightarrow> map_of (sb_schemas b) ns
        | Some s \<Rightarrow> (case validator_for J s of Inr v \<Rightarrow> Some v | Inl _ \<Rightarrow> None))"
proof (induction J decls b rule: with_namespaces.induct)
  case (2 J n s rest b)
  then obtain v where v: "validator_for J s = Inr v"
    by (cases "validator_for J s") (auto simp: with_namespace_def)
  with "2.prems" have rest:
    "with_namespaces J rest (b\<lparr>sb_schemas := AList.update n v (sb_schemas b)\<rparr>) = Inr b'"
    by (simp add: with_namespace_def)
  from v have w: "with_namespace J n s b = Inr (b\<lparr>sb_schemas := AList.update n v (sb_schemas b)\<rparr>)"
    by (simp add: with_namespace_def)
  show ?case
    using "2.IH" [OF w rest] v
    by (auto simp: update_conv' map_add_def split: option.splits)
qed simp

lemma with_namespaces_Inl:
  "with_namespaces J decls b = Inl e \<Longrightarrow>
     \<exists>ns s r. (ns, s) \<in> set decls \<and> validator_for J s = Inl r \<and> e = InvalidSchema ns r"
  by (induction J decls b rule: with_namespaces.induct)
    (auto simp: with_namespace_def split: sum.splits)

text \<open>The schema in force on a channel: the last one declared for the channel's namespace.\<close>

definition schema_for :: "(string \<times> 'j) list \<Rightarrow> string \<Rightarrow> 'j option" where
  "schema_for decls channel = map_of (rev decls) (namespace_of channel)"

text \<open>
  C27. A registry built from a list of declarations accepts a payload exactly when the channel's
  namespace has no schema, or the payload parses as JSON and the last schema declared for that
  namespace accepts it. The namespace is the one the hub routes by, every refusal names the
  channel, and the registry has one entry per declared namespace.
\<close>

theorem schema_registry_accepts_iff:
  assumes "with_namespaces J decls schema_builder_new = Inr b"
  shows "(schema_validate J (schema_build b) channel data = Inr () \<longleftrightarrow>
           (case schema_for decls channel of
              None \<Rightarrow> True
            | Some s \<Rightarrow> (\<exists>v j. validator_for J s = Inr v \<and> from_slice J data = Inr j \<and>
                               check_value J v j = Inr ()))) \<and>
         (\<forall>e. schema_validate J (schema_build b) channel data = Inl e \<longrightarrow>
           (\<exists>r. e = PayloadRejected channel r)) \<and>
         schema_len (schema_build b) = card (fst ` set decls)"
proof (intro conjI)
  have look: "map_of (sb_schemas b) (namespace_of channel) =
      (case schema_for decls channel of
         None \<Rightarrow> None | Some s \<Rightarrow> (case validator_for J s of Inr v \<Rightarrow> Some v | Inl _ \<Rightarrow> None))"
    using with_namespaces_lookup [OF assms]
    by (simp add: schema_for_def schema_builder_new_def split: option.splits)
  have compiled: "schema_for decls channel = Some s \<Longrightarrow> \<exists>v. validator_for J s = Inr v" for s
  proof -
    assume s: "schema_for decls channel = Some s"
    then have "(namespace_of channel, s) \<in> set decls"
      by (auto simp: schema_for_def dest: map_of_SomeD)
    moreover have "namespace_of channel \<in> set (map fst (sb_schemas b))"
      using with_namespaces_distinct [OF assms] calculation
      by (force simp: schema_builder_new_def)
    then have "map_of (sb_schemas b) (namespace_of channel) \<noteq> None"
      by (simp add: map_of_eq_None_iff)
    then show ?thesis using look s by (cases "validator_for J s") auto
  qed
  show "schema_validate J (schema_build b) channel data = Inr () \<longleftrightarrow>
           (case schema_for decls channel of
              None \<Rightarrow> True
            | Some s \<Rightarrow> (\<exists>v j. validator_for J s = Inr v \<and> from_slice J data = Inr j \<and>
                               check_value J v j = Inr ()))"
    using compiled
    by (auto simp: schema_validate_def schema_build_def look split: option.splits sum.splits)
  show "\<forall>e. schema_validate J (schema_build b) channel data = Inl e \<longrightarrow>
           (\<exists>r. e = PayloadRejected channel r)"
    by (auto simp: schema_validate_def split: option.splits sum.splits)
  have "distinct (map fst (sb_schemas b)) \<and> set (map fst (sb_schemas b)) = fst ` set decls"
    using with_namespaces_distinct [OF assms] by (simp add: schema_builder_new_def)
  then show "schema_len (schema_build b) = card (fst ` set decls)"
    by (metis distinct_card length_map schema_build_def schema_len_def schema_registry.select_convs(1))
qed

text \<open>A JSON library for the witness: documents are bytes, schemas bound the length.\<close>

definition len_lib :: "(bytes, nat) json_lib" where
  "len_lib = \<lparr>from_slice = (\<lambda>d. if d = [] then Inl ''EOF'' else Inr d),
     validator_for = (\<lambda>s. if s = [] then Inl ''empty schema'' else Inr (length s)),
     check_value = (\<lambda>n d. if length d \<le> n then Inr () else Inl ''too long'')\<rparr>"

theorem schema_registry_accepts_iff_witness:
  "\<exists>b. with_namespaces len_lib [(''chat'', [1]), (''doc'', [1]), (''chat'', [1, 2])] schema_builder_new
         = Inr b \<and>
       schema_validate len_lib (schema_build b) ''chat.lobby'' [7, 7] = Inr () \<and>
       schema_validate len_lib (schema_build b) ''doc.1'' [7, 7] \<noteq> Inr () \<and>
       schema_len (schema_build b) = 2"
proof -
  let ?d = "[(''chat'', [1]), (''doc'', [1]), (''chat'', [1, 2])] :: (string \<times> bytes) list"
  obtain b where b: "with_namespaces len_lib ?d schema_builder_new = Inr b"
    by (simp add: with_namespace_def len_lib_def)
  have "schema_validate len_lib (schema_build b) ''chat.lobby'' [7, 7] = Inr ()"
    by (subst schema_registry_accepts_iff [OF b, THEN conjunct1]) (simp add: schema_for_def namespace_of_def len_lib_def)
  moreover have "schema_validate len_lib (schema_build b) ''doc.1'' [7, 7] \<noteq> Inr ()"
    by (subst schema_registry_accepts_iff [OF b, THEN conjunct1]) (simp add: schema_for_def namespace_of_def len_lib_def)
  moreover have "schema_len (schema_build b) = 2"
    by (subst schema_registry_accepts_iff [OF b, THEN conjunct2, THEN conjunct2]) (simp add: insert_commute)
  ultimately show ?thesis using b by blast
qed

end
