(* ===== verification/Crdt.thy ===== *)
theory Crdt
  imports Traits
begin

text \<open>
  \<open>cherenkov-channel-crdt/src\<close>: the Y.js and Automerge channel kinds. Both keep one document and
  one offset counter per channel and rebroadcast the published bytes. The document engines
  (\<open>yrs\<close>, \<open>automerge\<close>) are parameters.
\<close>

section \<open>Shared state\<close>

datatype crdt_error = InvalidUpdate string string string

fun crdt_error_msg :: "crdt_error \<Rightarrow> string" where
  "crdt_error_msg (InvalidUpdate engine channel reason) =
     ''invalid '' @ engine @ '' update for channel `'' @ channel @ ''`: '' @ reason"

record 'd doc_slot =
  slot_doc :: 'd
  slot_next_offset :: u64

record 'd crdt_channel =
  docs :: "string \<Rightarrow> 'd doc_slot option"

text \<open>\<open>entry(..).or_insert_with(..)\<close> on the document map, and replacing a slot's content.\<close>

definition or_insert_slot :: "'d \<Rightarrow> string \<Rightarrow> 'd crdt_channel \<Rightarrow> 'd doc_slot \<times> 'd crdt_channel" where
  "or_insert_slot fresh channel k =
     (case docs k channel of
        Some slot \<Rightarrow> (slot, k)
      | None \<Rightarrow> (let slot = \<lparr>slot_doc = fresh, slot_next_offset = 0\<rparr>
                 in (slot, k\<lparr>docs := (docs k)(channel \<mapsto> slot)\<rparr>)))"

definition put_slot :: "string \<Rightarrow> 'd doc_slot \<Rightarrow> 'd crdt_channel \<Rightarrow> 'd crdt_channel" where
  "put_slot channel slot k = k\<lparr>docs := (docs k)(channel \<mapsto> slot)\<rparr>"

text \<open>The offset the next publication gets.\<close>

definition crdt_next :: "'d crdt_channel \<Rightarrow> string \<Rightarrow> u64" where
  "crdt_next k channel = (case docs k channel of None \<Rightarrow> 0 | Some slot \<Rightarrow> slot_next_offset slot)"

section \<open>The Y.js kind\<close>

text \<open>
  What the code uses of \<open>yrs\<close>: \<open>Doc::new\<close>, \<open>Update::decode_v1\<close>, \<open>apply_update\<close>
  (a failing one leaves the document in whatever state it reached) and
  \<open>encode_state_as_update_v1\<close> from the empty state vector.
\<close>

record ('d, 'u) yrs =
  yrs_doc_new :: 'd
  decode_v1 :: "bytes \<Rightarrow> (string, 'u) result"
  apply_update :: "'u \<Rightarrow> ('d, string, unit) comp"
  encode_state_as_update_v1 :: "'d \<Rightarrow> bytes"

definition yjs_new :: "'d crdt_channel" where
  "yjs_new = \<lparr>docs = Map.empty\<rparr>"

definition yjs_snapshot :: "('d, 'u) yrs \<Rightarrow> 'd crdt_channel \<Rightarrow> string \<Rightarrow> bytes option" where
  "yjs_snapshot Y k channel =
     map_option (\<lambda>slot. encode_state_as_update_v1 Y (slot_doc slot)) (docs k channel)"

definition yjs_on_subscribe ::
    "('d, 'u) yrs \<Rightarrow> string \<Rightarrow> ('d crdt_channel, channel_error, channel_cursor) comp" where
  "yjs_on_subscribe Y channel k =
     (if channel = [] then (Inl (InvalidChannel channel), k)
      else (case or_insert_slot (yrs_doc_new Y) channel k of
              (slot, k') \<Rightarrow>
                (Inr \<lparr>cur_epoch = 1, cur_offset = saturating_sub (slot_next_offset slot) 1\<rparr>, k')))"

definition yjs_on_unsubscribe :: "string \<Rightarrow> ('d crdt_channel, channel_error, unit) comp" where
  "yjs_on_unsubscribe channel = ok ()"

definition yjs_reject :: "string \<Rightarrow> string \<Rightarrow> channel_error" where
  "yjs_reject channel reason =
     RejectedPublication (crdt_error_msg (InvalidUpdate ''yjs'' channel reason))"

definition yjs_on_publish ::
    "('d, 'u) yrs \<Rightarrow> instant \<Rightarrow> string \<Rightarrow> bytes \<Rightarrow> ('d crdt_channel, channel_error, publication) comp" where
  "yjs_on_publish Y now channel data k =
     (if channel = [] then (Inl (InvalidChannel channel), k)
      else (case decode_v1 Y data of
              Inl e \<Rightarrow> (Inl (yjs_reject channel e), k)
            | Inr update \<Rightarrow>
                (case or_insert_slot (yrs_doc_new Y) channel k of
                   (slot, k') \<Rightarrow>
                     (case apply_update Y update (slot_doc slot) of
                        (Inl e, d) \<Rightarrow>
                          (Inl (yjs_reject channel e), put_slot channel (slot\<lparr>slot_doc := d\<rparr>) k')
                      | (Inr _, d) \<Rightarrow>
                          (Inr \<lparr>pub_channel = channel, pub_offset = slot_next_offset slot,
                                pub_data = data\<rparr>,
                           put_slot channel \<lparr>slot_doc = d, slot_next_offset = slot_next_offset slot + 1\<rparr>
                             k')))))"

definition yjs_ops :: "('d, 'u) yrs \<Rightarrow> 'd crdt_channel kind_ops" where
  "yjs_ops Y = \<lparr>k_name = (\<lambda>_. ''crdt-yjs''), k_on_subscribe = yjs_on_subscribe Y,
     k_on_unsubscribe = yjs_on_unsubscribe, k_on_publish = yjs_on_publish Y,
     k_replay_since = default_replay_since\<rparr>"

section \<open>The Automerge kind\<close>

text \<open>
  What the code uses of \<open>automerge\<close>: \<open>AutoCommit::new\<close>, \<open>load_incremental\<close> and
  \<open>save\<close>, which commits pending changes and so may change the document.
\<close>

record 'd automerge =
  am_doc_new :: 'd
  load_incremental :: "bytes \<Rightarrow> ('d, string, unit) comp"
  am_save :: "'d \<Rightarrow> bytes \<times> 'd"

definition automerge_new :: "'d crdt_channel" where
  "automerge_new = \<lparr>docs = Map.empty\<rparr>"

definition automerge_snapshot ::
    "'d automerge \<Rightarrow> string \<Rightarrow> 'd crdt_channel \<Rightarrow> bytes option \<times> 'd crdt_channel" where
  "automerge_snapshot A channel k =
     (case docs k channel of
        None \<Rightarrow> (None, k)
      | Some slot \<Rightarrow>
          (case am_save A (slot_doc slot) of
             (bs, d) \<Rightarrow> (Some bs, put_slot channel (slot\<lparr>slot_doc := d\<rparr>) k)))"

definition automerge_on_subscribe ::
    "'d automerge \<Rightarrow> string \<Rightarrow> ('d crdt_channel, channel_error, channel_cursor) comp" where
  "automerge_on_subscribe A channel k =
     (if channel = [] then (Inl (InvalidChannel channel), k)
      else (case or_insert_slot (am_doc_new A) channel k of
              (slot, k') \<Rightarrow>
                (Inr \<lparr>cur_epoch = 1, cur_offset = saturating_sub (slot_next_offset slot) 1\<rparr>, k')))"

definition automerge_on_unsubscribe :: "string \<Rightarrow> ('d crdt_channel, channel_error, unit) comp" where
  "automerge_on_unsubscribe channel = ok ()"

definition automerge_on_publish ::
    "'d automerge \<Rightarrow> instant \<Rightarrow> string \<Rightarrow> bytes \<Rightarrow> ('d crdt_channel, channel_error, publication) comp" where
  "automerge_on_publish A now channel data k =
     (if channel = [] then (Inl (InvalidChannel channel), k)
      else (case or_insert_slot (am_doc_new A) channel k of
              (slot, k') \<Rightarrow>
                (case load_incremental A data (slot_doc slot) of
                   (Inl e, d) \<Rightarrow>
                     (Inl (RejectedPublication
                             (crdt_error_msg (InvalidUpdate ''automerge'' channel e))),
                      put_slot channel (slot\<lparr>slot_doc := d\<rparr>) k')
                 | (Inr _, d) \<Rightarrow>
                     (Inr \<lparr>pub_channel = channel, pub_offset = slot_next_offset slot, pub_data = data\<rparr>,
                      put_slot channel \<lparr>slot_doc = d, slot_next_offset = slot_next_offset slot + 1\<rparr>
                        k'))))"

definition automerge_ops :: "'d automerge \<Rightarrow> 'd crdt_channel kind_ops" where
  "automerge_ops A = \<lparr>k_name = (\<lambda>_. ''crdt-automerge''), k_on_subscribe = automerge_on_subscribe A,
     k_on_unsubscribe = automerge_on_unsubscribe, k_on_publish = automerge_on_publish A,
     k_replay_since = default_replay_since\<rparr>"

section \<open>Both are channel kinds\<close>

lemma or_insert_slot_next:
  "or_insert_slot fresh c k = (slot, k') \<Longrightarrow>
     slot_next_offset slot = crdt_next k c \<and> crdt_next k' = crdt_next k"
  by (auto simp: or_insert_slot_def crdt_next_def Let_def fun_eq_iff split: option.splits if_splits)

lemma put_slot_next [simp]:
  "crdt_next (put_slot c slot k) = (crdt_next k)(c := slot_next_offset slot)"
  by (simp add: put_slot_def crdt_next_def fun_eq_iff)

lemmas yjs_defs = yjs_ops_def yjs_on_subscribe_def yjs_on_unsubscribe_def yjs_on_publish_def
  default_replay_since_def ok_def

lemmas automerge_defs = automerge_ops_def automerge_on_subscribe_def automerge_on_unsubscribe_def
  automerge_on_publish_def default_replay_since_def ok_def

interpretation yjs: channel_kind "yjs_ops Y" "\<lambda>_. True" crdt_next
  for Y :: "('d, 'u) yrs"
  by unfold_locales
    (auto simp: yjs_defs fun_upd_idem dest!: or_insert_slot_next
      split: if_splits sum.splits prod.splits)

lemma automerge_ops_publish: "k_on_publish (automerge_ops A) = automerge_on_publish A"
  by (simp add: automerge_ops_def)

interpretation automerge: channel_kind "automerge_ops A" "\<lambda>_. True" crdt_next
  for A :: "'d automerge"
  by unfold_locales
    (auto simp: automerge_defs fun_upd_idem dest!: or_insert_slot_next
      split: if_splits sum.splits prod.splits)

section \<open>The document is the fold of the accepted updates\<close>

text \<open>The calls on a Y.js kind and the updates a sequence of calls carries for one channel.\<close>

datatype yjs_call = YSubscribe string | YUnsubscribe string | YPublish instant string bytes

fun yjs_step :: "('d, 'u) yrs \<Rightarrow> yjs_call \<Rightarrow> 'd crdt_channel \<Rightarrow> 'd crdt_channel" where
  "yjs_step Y (YSubscribe c) k = snd (yjs_on_subscribe Y c k)"
| "yjs_step Y (YUnsubscribe c) k = snd (yjs_on_unsubscribe c k)"
| "yjs_step Y (YPublish now c d) k = snd (yjs_on_publish Y now c d k)"

fun updates_of :: "('d, 'u) yrs \<Rightarrow> string \<Rightarrow> yjs_call \<Rightarrow> 'u list" where
  "updates_of Y c (YPublish now c' d) =
     (if c' = c then (case decode_v1 Y d of Inl _ \<Rightarrow> [] | Inr u \<Rightarrow> [u]) else [])"
| "updates_of Y c _ = []"

fun touches :: "('d, 'u) yrs \<Rightarrow> string \<Rightarrow> yjs_call \<Rightarrow> bool" where
  "touches Y c (YSubscribe c') \<longleftrightarrow> c' = c"
| "touches Y c (YUnsubscribe c') \<longleftrightarrow> False"
| "touches Y c (YPublish now c' d) \<longleftrightarrow> c' = c \<and> \<not> isl (decode_v1 Y d)"

definition apply_all :: "('d, 'u) yrs \<Rightarrow> 'u list \<Rightarrow> 'd \<Rightarrow> 'd" where
  "apply_all Y us d = fold (\<lambda>u d. snd (apply_update Y u d)) us d"

definition yjs_doc :: "('d, 'u) yrs \<Rightarrow> string \<Rightarrow> yjs_call list \<Rightarrow> 'd option" where
  "yjs_doc Y c calls =
     (if c \<noteq> [] \<and> list_ex (touches Y c) calls
      then Some (apply_all Y (concat (map (updates_of Y c) calls)) (yrs_doc_new Y)) else None)"

lemma apply_all_simps [simp]:
  "apply_all Y [] d = d"
  "apply_all Y (us @ [u]) d = snd (apply_update Y u (apply_all Y us d))"
  by (simp_all add: apply_all_def)

definition doc_of :: "'d crdt_channel \<Rightarrow> string \<Rightarrow> 'd option" where
  "doc_of k c = map_option slot_doc (docs k c)"

lemma or_insert_slot_doc:
  "or_insert_slot fresh c k = (slot, k') \<Longrightarrow>
     slot_doc slot = (case doc_of k c of None \<Rightarrow> fresh | Some d \<Rightarrow> d) \<and>
     doc_of k' = (doc_of k)(c \<mapsto> slot_doc slot)"
  by (auto simp: or_insert_slot_def doc_of_def Let_def split: option.splits)

lemma put_slot_doc [simp]: "doc_of (put_slot c slot k) = (doc_of k)(c \<mapsto> slot_doc slot)"
  by (auto simp: put_slot_def doc_of_def)

lemma no_touch_no_updates:
  "\<not> list_ex (touches Y c) calls \<Longrightarrow> concat (map (updates_of Y c) calls) = []"
proof (induction calls)
  case (Cons x calls)
  then show ?case by (cases x) (auto split: sum.splits)
qed simp

lemma yjs_doc_step:
  "doc_of (yjs_step Y x k) c =
     (if c \<noteq> [] \<and> touches Y c x
      then Some (apply_all Y (updates_of Y c x)
                   (case doc_of k c of None \<Rightarrow> yrs_doc_new Y | Some d \<Rightarrow> d))
      else doc_of k c)"
proof (cases x)
  case (YSubscribe c')
  obtain slot k' where "or_insert_slot (yrs_doc_new Y) c' k = (slot, k')"
    by (cases "or_insert_slot (yrs_doc_new Y) c' k")
  then show ?thesis
    using YSubscribe or_insert_slot_doc by (fastforce simp: yjs_on_subscribe_def)
next
  case (YPublish now c' d)
  obtain slot k' where ins: "or_insert_slot (yrs_doc_new Y) c' k = (slot, k')"
    by (cases "or_insert_slot (yrs_doc_new Y) c' k")
  show ?thesis
    using YPublish ins or_insert_slot_doc [OF ins]
    by (auto simp: yjs_on_publish_def apply_all_def split: prod.splits sum.splits)
qed (simp add: yjs_on_unsubscribe_def ok_def)

lemma yjs_run_doc:
  "doc_of (fold (yjs_step Y) calls yjs_new) c = yjs_doc Y c calls"
proof (induction calls rule: rev_induct)
  case Nil
  then show ?case by (simp add: yjs_new_def yjs_doc_def doc_of_def)
next
  case (snoc x calls)
  have split: "concat (map (updates_of Y c) (calls @ [x])) =
      concat (map (updates_of Y c) calls) @ updates_of Y c x" by simp
  have x: "\<not> touches Y c x \<Longrightarrow> updates_of Y c x = []"
    using no_touch_no_updates [of Y c "[x]"] by simp
  show ?case
    using snoc x no_touch_no_updates [of Y c calls]
    unfolding yjs_doc_def split
    by (cases "c = []") (simp_all add: yjs_doc_step apply_all_def del: concat_eq_Nil_conv)
qed

lemma yjs_snapshot_run:
  "yjs_snapshot Y (fold (yjs_step Y) calls yjs_new) c =
     map_option (encode_state_as_update_v1 Y) (yjs_doc Y c calls)"
  by (simp add: yjs_snapshot_def doc_of_def option.map_comp o_def flip: yjs_run_doc)

text \<open>
  C38. After any sequence of calls the snapshot of a channel is the encoding of a new document with
  exactly the well-formed updates published on that channel applied in order, whatever happened on
  other channels; a channel nobody subscribed to or published a well-formed update on has no
  snapshot. (\<open>openspec/specs/crdt-channel-yjs\<close> promises none before the first publish; a subscribe
  already creates the document.)
\<close>

theorem yjs_snapshot_is_fold:
  "yjs_snapshot Y (fold (yjs_step Y) calls yjs_new) c =
     (if c \<noteq> [] \<and> list_ex (touches Y c) calls
      then Some (encode_state_as_update_v1 Y
                   (fold (\<lambda>u d. snd (apply_update Y u d)) (concat (map (updates_of Y c) calls))
                      (yrs_doc_new Y)))
      else None)"
  by (simp add: yjs_snapshot_run yjs_doc_def apply_all_def)

text \<open>A small document engine for the examples: the document is the largest byte seen.\<close>

definition max_doc :: "(u8, u8) yrs" where
  "max_doc = \<lparr>yrs_doc_new = 0,
     decode_v1 = (\<lambda>bs. case bs of [b] \<Rightarrow> Inr b | _ \<Rightarrow> Inl ''unexpected end of buffer''),
     apply_update = (\<lambda>u d. (Inr (), max u d)), encode_state_as_update_v1 = (\<lambda>d. [d])\<rparr>"

text \<open>
  Automerge publications on a channel get consecutive offsets starting at the channel's next
  one, rejected updates in between taking none, as long as the 64-bit counter does not wrap.
\<close>

lemma automerge_offsets_consecutive:
  assumes "unat (crdt_next k c) + length xs < 2 ^ 64"
  shows "map (unat \<circ> pub_offset) (fst (automerge.publish_all A xs c k)) =
     [unat (crdt_next k c) ..<
        unat (crdt_next k c) + length (fst (automerge.publish_all A xs c k))]"
  using automerge.publish_all_offsets [OF TrueI assms] .

definition max_am :: "u8 automerge" where
  "max_am = \<lparr>am_doc_new = 0,
     load_incremental = (\<lambda>bs d. case bs of [b] \<Rightarrow> (Inr (), max b d) | _ \<Rightarrow> (Inl ''bad chunk'', d)),
     am_save = (\<lambda>d. ([d], d))\<rparr>"

lemma max_am_sel [simp]:
  "am_doc_new max_am = 0"
  "load_incremental max_am bs d =
     (case bs of [b] \<Rightarrow> (Inr (), max b d) | _ \<Rightarrow> (Inl ''bad chunk'', d))"
  by (simp_all add: max_am_def)

end
