(* ===== verification/HubInv.thy ===== *)
theory HubInv
  imports Hub
begin

text \<open>
  The invariant of the hub and that every operation keeps it: the registry, the sessions and the
  reverse index agree; strong counts are what the owners say; every running forwarder belongs to
  exactly one subscription of a live session and listens to that subscription's topic; when the
  hub requires a connect, every subscription was allowed by the access control for the claims the
  session holds; the session metrics balance.
\<close>

section \<open>What the steps leave alone\<close>

lemma abort_task_frame [hub_simps]:
  "w_registry (abort_task H h w) = w_registry w" "w_store (abort_task H h w) = w_store w"
  "w_strong (abort_task H h w) = w_strong w" "w_next_ref (abort_task H h w) = w_next_ref w"
  "w_kinds (abort_task H h w) = w_kinds w" "w_metrics (abort_task H h w) = w_metrics w"
  by (simp_all add: abort_task_def drop_stream_def split: option.splits)

lemma fold_abort_frame [hub_simps]:
  "w_registry (fold (abort_task H) hs w) = w_registry w"
  "w_store (fold (abort_task H) hs w) = w_store w"
  "w_strong (fold (abort_task H) hs w) = w_strong w"
  "w_next_ref (fold (abort_task H) hs w) = w_next_ref w"
  "w_kinds (fold (abort_task H) hs w) = w_kinds w"
  "w_metrics (fold (abort_task H) hs w) = w_metrics w"
  by (induction hs arbitrary: w) (simp_all add: abort_task_frame)

lemma drop_stream_frame [hub_simps]:
  "w_registry (drop_stream H s w) = w_registry w" "w_store (drop_stream H s w) = w_store w"
  "w_strong (drop_stream H s w) = w_strong w" "w_next_ref (drop_stream H s w) = w_next_ref w"
  "w_kinds (drop_stream H s w) = w_kinds w" "w_metrics (drop_stream H s w) = w_metrics w"
  "w_rt (drop_stream H s w) = w_rt w"
  by (simp_all add: drop_stream_def)

lemma unwind_frame [hub_simps]:
  "w_registry (unwind H k c w) = w_registry w" "w_store (unwind H k c w) = w_store w"
  "w_strong (unwind H k c w) = w_strong w" "w_next_ref (unwind H k c w) = w_next_ref w"
  "w_broker (unwind H k c w) = w_broker w" "w_rt (unwind H k c w) = w_rt w"
  "w_metrics (unwind H k c w) = w_metrics w"
  by (simp_all add: unwind_def)

lemma send_frame_frame [hub_simps]:
  "w_registry (snd (send_frame H o' f w)) = w_registry w"
  "w_store (snd (send_frame H o' f w)) = w_store w"
  "w_strong (snd (send_frame H o' f w)) = w_strong w"
  "w_next_ref (snd (send_frame H o' f w)) = w_next_ref w"
  "w_kinds (snd (send_frame H o' f w)) = w_kinds w"
  "w_broker (snd (send_frame H o' f w)) = w_broker w"
  "w_metrics (snd (send_frame H o' f w)) = w_metrics w"
  "w_rt (snd (send_frame H o' f w)) = snd (mpsc_send (hub_rt H) o' f (w_rt w))"
  "fst (send_frame H o' f w) = fst (mpsc_send (hub_rt H) o' f (w_rt w))"
  by (simp_all add: send_frame_def split: prod.splits)

lemma hang_up_frame [hub_simps]:
  "w_registry (hang_up H ob w) = w_registry w" "w_store (hang_up H ob w) = w_store w"
  "w_strong (hang_up H ob w) = w_strong w" "w_next_ref (hang_up H ob w) = w_next_ref w"
  "w_kinds (hang_up H ob w) = w_kinds w" "w_broker (hang_up H ob w) = w_broker w"
  "w_metrics (hang_up H ob w) = w_metrics w" "w_rt (hang_up H ob w) = mpsc_close (hub_rt H) ob (w_rt w)"
  by (simp_all add: hang_up_def)

lemma on_kind_frame [hub_simps]:
  "w_registry (snd (on_kind n m w)) = w_registry w" "w_store (snd (on_kind n m w)) = w_store w"
  "w_strong (snd (on_kind n m w)) = w_strong w" "w_next_ref (snd (on_kind n m w)) = w_next_ref w"
  "w_broker (snd (on_kind n m w)) = w_broker w" "w_rt (snd (on_kind n m w)) = w_rt w"
  "w_metrics (snd (on_kind n m w)) = w_metrics w"
  "w_kinds (snd (on_kind n m w)) = (w_kinds w)(n := snd (m (w_kinds w n)))"
  "fst (on_kind n m w) = map_sum ChannelErr id (fst (m (w_kinds w n)))"
  by (simp_all add: on_kind_def split: prod.splits)

lemma on_broker_frame [hub_simps]:
  "w_registry (snd (on_broker m w)) = w_registry w" "w_store (snd (on_broker m w)) = w_store w"
  "w_strong (snd (on_broker m w)) = w_strong w" "w_next_ref (snd (on_broker m w)) = w_next_ref w"
  "w_kinds (snd (on_broker m w)) = w_kinds w" "w_rt (snd (on_broker m w)) = w_rt w"
  "w_metrics (snd (on_broker m w)) = w_metrics w"
  "w_broker (snd (on_broker m w)) = snd (m (w_broker w))"
  "fst (on_broker m w) = map_sum BrokerErr id (fst (m (w_broker w)))"
  by (simp_all add: on_broker_def split: prod.splits)

lemma upd_session_frame [hub_simps]:
  "w_registry (upd_session r f w) = w_registry w"
  "w_store (upd_session r f w) = (w_store w)(r := f (w_store w r))"
  "w_strong (upd_session r f w) = w_strong w" "w_next_ref (upd_session r f w) = w_next_ref w"
  "w_kinds (upd_session r f w) = w_kinds w" "w_broker (upd_session r f w) = w_broker w"
  "w_rt (upd_session r f w) = w_rt w" "w_metrics (upd_session r f w) = w_metrics w"
  by (simp_all add: upd_session_def)

lemma upd_registry_frame [hub_simps]:
  "w_registry (upd_registry g w) = g (w_registry w)" "w_store (upd_registry g w) = w_store w"
  "w_strong (upd_registry g w) = w_strong w" "w_next_ref (upd_registry g w) = w_next_ref w"
  "w_kinds (upd_registry g w) = w_kinds w" "w_broker (upd_registry g w) = w_broker w"
  "w_rt (upd_registry g w) = w_rt w" "w_metrics (upd_registry g w) = w_metrics w"
  by (simp_all add: upd_registry_def)

lemma set_active_frame [hub_simps]:
  "w_registry (set_active w) = w_registry w" "w_store (set_active w) = w_store w"
  "w_strong (set_active w) = w_strong w" "w_next_ref (set_active w) = w_next_ref w"
  "w_kinds (set_active w) = w_kinds w" "w_broker (set_active w) = w_broker w"
  "w_rt (set_active w) = w_rt w"
  "w_metrics (set_active w) = (w_metrics w)\<lparr>m_active := reg_len (w_registry w)\<rparr>"
  by (simp_all add: set_active_def)

section \<open>The invariant\<close>

text \<open>Registry, sessions and reverse index agree.\<close>

definition registry_ok :: "('k, 'b, 't) world \<Rightarrow> bool" where
  "registry_ok w \<longleftrightarrow>
     registry_wf (w_registry w) \<and>
     (\<forall>i ref. reg_get (w_registry w) i = Some ref \<longrightarrow> s_id (w_store w ref) = i \<and> ref < w_next_ref w) \<and>
     (\<forall>ref. session_wf (w_store w ref)) \<and>
     (\<forall>c. distinct (subscribers_of (w_registry w) c)) \<and>
     (\<forall>i c. i \<in> set (subscribers_of (w_registry w) c) \<longleftrightarrow>
        (\<exists>ref. reg_get (w_registry w) i = Some ref \<and> has_subscription (w_store w ref) c))"

text \<open>\<open>held\<close> are the sessions whose transport still keeps its handle.\<close>

definition registered :: "('k, 'b, 't) world \<Rightarrow> nat \<Rightarrow> bool" where
  "registered w ref \<longleftrightarrow> (\<exists>i. reg_get (w_registry w) i = Some ref)"

definition counts_ok :: "nat set \<Rightarrow> ('k, 'b, 't) world \<Rightarrow> bool" where
  "counts_ok held w \<longleftrightarrow>
     (\<forall>ref. w_strong w ref = of_bool (registered w ref) + of_bool (ref \<in> held)) \<and>
     (\<forall>ref \<in> held. ref < w_next_ref w) \<and>
     (\<forall>ref. w_strong w ref = 0 \<longrightarrow> s_subscriptions (w_store w ref) = [])"

text \<open>When a connect is required, subscriptions are covered by authenticated claims.\<close>

definition session_auth :: "('k, 'b, 't) hub \<Rightarrow> session \<Rightarrow> bool" where
  "session_auth H s \<longleftrightarrow>
     (\<forall>cl. s_claims s = Some cl \<longrightarrow> (\<exists>now token. authenticate (hub_authenticator H) now token = Inr cl)) \<and>
     (\<forall>c. has_subscription s c \<longrightarrow>
        (\<exists>cl. s_claims s = Some cl \<and> acl_check (hub_acl H) cl ActSubscribe c = Inr Allow))"

definition auth_ok :: "('k, 'b, 't) hub \<Rightarrow> ('k, 'b, 't) world \<Rightarrow> bool" where
  "auth_ok H w \<longleftrightarrow> (requires_connect H \<longrightarrow> (\<forall>ref. session_auth H (w_store w ref)))"

text \<open>Ids are handed out in order; the counters balance.\<close>

definition metrics_ok :: "('k, 'b, 't) world \<Rightarrow> bool" where
  "metrics_ok w \<longleftrightarrow>
     (let m = w_metrics w in
        m_active m = reg_len (w_registry w) \<and>
        m_opened m = m_active m + m_closed m + m_kicked m \<and>
        unat (r_next_id (w_registry w)) = m_opened m \<and>
        (\<forall>i ref. reg_get (w_registry w) i = Some ref \<longrightarrow> unat i < m_opened m))"

definition core_inv :: "('k, 'b, 't) hub \<Rightarrow> nat set \<Rightarrow> ('k, 'b, 't) world \<Rightarrow> bool" where
  "core_inv H held w \<longleftrightarrow> registry_ok w \<and> counts_ok held w \<and> auth_ok H w \<and> metrics_ok w"

lemmas core_defs = core_inv_def registry_ok_def counts_ok_def auth_ok_def metrics_ok_def registered_def

text \<open>The core invariant only reads the registry, the sessions, their counts and the metrics.\<close>

lemma core_inv_cong:
  "w_registry w' = w_registry w \<Longrightarrow> w_store w' = w_store w \<Longrightarrow> w_strong w' = w_strong w \<Longrightarrow>
   w_next_ref w' = w_next_ref w \<Longrightarrow> w_metrics w' = w_metrics w \<Longrightarrow>
   core_inv H held w' \<longleftrightarrow> core_inv H held w"
  by (simp add: core_defs)

lemma core_invD:
  assumes "core_inv H held w"
  shows "registry_wf (w_registry w)"
    and "reg_get (w_registry w) i = Some ref \<Longrightarrow> s_id (w_store w ref) = i"
    and "reg_get (w_registry w) i = Some ref \<Longrightarrow> ref < w_next_ref w"
    and "session_wf (w_store w ref)"
    and "distinct (subscribers_of (w_registry w) c)"
    and "i \<in> set (subscribers_of (w_registry w) c) \<longleftrightarrow>
        (\<exists>ref. reg_get (w_registry w) i = Some ref \<and> has_subscription (w_store w ref) c)"
    and "registry_ok w" and "counts_ok held w" and "auth_ok H w" and "metrics_ok w"
  using assms unfolding core_inv_def registry_ok_def by blast+

lemma core_inv_inj:
  "core_inv H held w \<Longrightarrow> reg_get (w_registry w) i = Some ref \<Longrightarrow>
     reg_get (w_registry w) j = Some ref \<Longrightarrow> i = j"
  using core_invD(2) by metis

lemma auth_ok_upd:
  assumes "auth_ok H w" and "w_store w' = (w_store w)(ref := s)"
    and "requires_connect H \<Longrightarrow> session_auth H (w_store w ref) \<Longrightarrow> session_auth H s"
  shows "auth_ok H w'"
  using assms by (auto simp: auth_ok_def)

section \<open>Sessions change claims and subscriptions\<close>

lemma has_subscription_claims [simp]:
  "has_subscription (snd (set_claims cl s)) c = has_subscription s c"
  by (simp add: has_subscription_def set_claims_def)

lemma set_claims_fields [simp]:
  "s_id (snd (set_claims cl s)) = s_id s" "s_outbox (snd (set_claims cl s)) = s_outbox s"
  "s_subscriptions (snd (set_claims cl s)) = s_subscriptions s"
  "s_claims (snd (set_claims cl s)) = Some cl" "session_wf (snd (set_claims cl s)) = session_wf s"
  by (simp_all add: set_claims_def session_wf_def)

lemma core_set_claims:
  assumes "core_inv H held w"
    and "requires_connect H \<Longrightarrow> s_claims (w_store w ref) = None \<and>
           (\<exists>now token. authenticate (hub_authenticator H) now token = Inr cl)"
  shows "core_inv H held (upd_session ref (\<lambda>s. snd (set_claims cl s)) w)"
proof -
  let ?w = "upd_session ref (\<lambda>s. snd (set_claims cl s)) w"
  have same: "has_subscription (w_store ?w r) c = has_subscription (w_store w r) c"
    "s_id (w_store ?w r) = s_id (w_store w r)" "session_wf (w_store ?w r) = session_wf (w_store w r)"
    "s_subscriptions (w_store ?w r) = s_subscriptions (w_store w r)" for r c
    by (simp_all add: hub_simps)
  have "registry_ok ?w" "counts_ok held ?w" "metrics_ok ?w"
    using assms(1) same by (simp_all add: core_defs hub_simps del: fun_upd_apply)
  moreover have "auth_ok H ?w"
    by (rule auth_ok_upd [OF core_invD(9) [OF assms(1)] upd_session_frame(2)])
       (use assms(2) in \<open>auto simp: session_auth_def\<close>)
  ultimately show ?thesis by (simp add: core_inv_def)
qed

lemma insert_subscription_fields:
  assumes "insert_subscription c h s = (Inr u, s')"
  shows "s_id s' = s_id s" "s_outbox s' = s_outbox s" "s_claims s' = s_claims s"
    and "map_of (s_subscriptions s') = (map_of (s_subscriptions s))(c \<mapsto> h)"
    and "\<not> has_subscription s c"
    and "has_subscription s' c' \<longleftrightarrow> c' = c \<or> has_subscription s c'"
  using assms by (auto simp: insert_subscription_def has_subscription_def update_conv'
      split: option.splits)

lemma remove_subscription_fields:
  assumes "session_remove_subscription c s = (r, s')"
  shows "s_id s' = s_id s" "s_outbox s' = s_outbox s" "s_claims s' = s_claims s"
    and "r = map_of (s_subscriptions s) c"
    and "map_of (s_subscriptions s') = (map_of (s_subscriptions s))(c := None)"
    and "has_subscription s' c' \<longleftrightarrow> c' \<noteq> c \<and> has_subscription s c'"
  using assms by (auto simp: session_remove_subscription_def has_subscription_def delete_conv'
      split: if_splits)

text \<open>Recording a subscription that is new and, where a connect is required, allowed.\<close>

lemma core_subscribe:
  assumes inv: "core_inv H held w" and get: "reg_get (w_registry w) sid = Some ref"
    and ins: "insert_subscription c h (w_store w ref) = (Inr u, s')"
    and auth: "requires_connect H \<Longrightarrow> \<exists>cl. s_claims (w_store w ref) = Some cl \<and>
                 acl_check (hub_acl H) cl ActSubscribe c = Inr Allow"
  shows "core_inv H held (upd_registry (add_subscription sid c) (upd_session ref (\<lambda>_. s') w))"
proof -
  let ?w = "upd_registry (add_subscription sid c) (upd_session ref (\<lambda>_. s') w)"
  note f = insert_subscription_fields [OF ins]
  note D = core_invD [OF inv] and reg = core_invD(1) [OF inv]
  have inj: "reg_get (w_registry w) i = Some ref \<longleftrightarrow> i = sid" for i
    using core_inv_inj [OF inv _ get] get by blast
  have has: "has_subscription (w_store ?w r) c' \<longleftrightarrow>
      has_subscription (w_store w r) c' \<or> r = ref \<and> c' = c" for r c'
    using f(6) by (auto simp: hub_simps)
  have wf: "session_wf s'" using insert_subscription_wf [OF D(4), of c h ref] ins by simp
  have new: "sid \<notin> set (subscribers_of (w_registry w) c)"
    using get f(5) by (simp add: D(6))
  have "registry_ok ?w"
    unfolding registry_ok_def
  proof (intro conjI allI impI)
    show "distinct (subscribers_of (w_registry ?w) c')" for c'
      using new D(5) by (simp add: hub_simps reg_simps)
    show "i \<in> set (subscribers_of (w_registry ?w) c') \<longleftrightarrow>
        (\<exists>r. reg_get (w_registry ?w) i = Some r \<and> has_subscription (w_store ?w r) c')" for i c'
      unfolding has using inj by (auto simp: upd_registry_frame upd_session_frame(1) reg_simps D(6) get)
  qed (use D(2,3,4) f(1) wf add_subscription_wf [OF reg] in \<open>simp_all add: hub_simps reg_simps\<close>)
  moreover have "counts_ok held ?w"
    using D(8) get unfolding counts_ok_def registered_def by (auto simp: hub_simps reg_simps)
  moreover have "auth_ok H ?w"
    by (rule auth_ok_upd [OF D(9), of _ ref s'])
       (use auth f(3,6) in \<open>auto simp: session_auth_def hub_simps\<close>)
  moreover have "metrics_ok ?w"
    using D(10) by (simp add: metrics_ok_def hub_simps reg_simps)
  ultimately show ?thesis by (simp add: core_inv_def)
qed

lemma core_unsubscribe:
  assumes inv: "core_inv H held w" and get: "reg_get (w_registry w) sid = Some ref"
    and rem: "session_remove_subscription c (w_store w ref) = (r, s')"
  shows "core_inv H held (upd_registry (reg_remove_subscription sid c) (upd_session ref (\<lambda>_. s') w))"
proof -
  let ?w = "upd_registry (reg_remove_subscription sid c) (upd_session ref (\<lambda>_. s') w)"
  note f = remove_subscription_fields [OF rem]
  note D = core_invD [OF inv] and reg = core_invD(1) [OF inv]
  have inj: "reg_get (w_registry w) i = Some ref \<longleftrightarrow> i = sid" for i
    using core_inv_inj [OF inv _ get] get by blast
  have has: "has_subscription (w_store ?w r) c' \<longleftrightarrow>
      has_subscription (w_store w r) c' \<and> \<not> (r = ref \<and> c' = c)" for r c'
    using f(6) by (auto simp: hub_simps)
  have wf: "session_wf s'" using session_remove_wf [OF D(4), of c ref] rem by simp
  have "registry_ok ?w"
    unfolding registry_ok_def
  proof (intro conjI allI impI)
    show "distinct (subscribers_of (w_registry ?w) c')" for c'
      using D(5) by (simp add: hub_simps reg_simps)
    show "i \<in> set (subscribers_of (w_registry ?w) c') \<longleftrightarrow>
        (\<exists>r. reg_get (w_registry ?w) i = Some r \<and> has_subscription (w_store ?w r) c')" for i c'
      unfolding has using inj
      by (auto simp: upd_registry_frame upd_session_frame(1) reg_simps D(6) get)
  qed (use D(2,3,4) f(1) wf reg_remove_wf [OF reg] in \<open>simp_all add: hub_simps reg_simps\<close>)
  moreover have "counts_ok held ?w"
    using D(8) get unfolding counts_ok_def registered_def by (auto simp: hub_simps reg_simps)
  moreover have "auth_ok H ?w"
    by (rule auth_ok_upd [OF D(9), of _ ref s'])
       (use f(3,6) in \<open>auto simp: session_auth_def hub_simps\<close>)
  moreover have "metrics_ok ?w"
    using D(10) by (simp add: metrics_ok_def hub_simps reg_simps)
  ultimately show ?thesis by (simp add: core_inv_def)
qed

section \<open>Sessions come and go\<close>

definition emptied :: "session \<Rightarrow> session" where
  "emptied s = s\<lparr>s_subscriptions := []\<rparr>"

lemma emptied_simps [simp]:
  "s_id (emptied s) = s_id s" "s_claims (emptied s) = s_claims s" "s_outbox (emptied s) = s_outbox s"
  "s_subscriptions (emptied s) = []" "\<not> has_subscription (emptied s) c" "session_wf (emptied s)"
  by (simp_all add: emptied_def has_subscription_def session_wf_def)

lemma arc_drop_frame [hub_simps]:
  "w_registry (arc_drop H ref w) = w_registry w"
  "w_next_ref (arc_drop H ref w) = w_next_ref w"
  "w_metrics (arc_drop H ref w) = w_metrics w"
  "w_kinds (arc_drop H ref w) = w_kinds w"
  "w_strong (arc_drop H ref w) = (w_strong w)(ref := w_strong w ref - 1)"
  "w_store (arc_drop H ref w) =
     (if w_strong w ref \<le> 1 then (w_store w)(ref := emptied (w_store w ref)) else w_store w)"
  by (auto simp: arc_drop_def abort_all_def Let_def emptied_def hub_simps)

lemma arc_clone_frame [hub_simps]:
  "w_registry (arc_clone ref w) = w_registry w" "w_next_ref (arc_clone ref w) = w_next_ref w"
  "w_metrics (arc_clone ref w) = w_metrics w" "w_kinds (arc_clone ref w) = w_kinds w"
  "w_strong (arc_clone ref w) = (w_strong w)(ref := w_strong w ref + 1)"
  "w_store (arc_clone ref w) = w_store w" "w_broker (arc_clone ref w) = w_broker w"
  "w_rt (arc_clone ref w) = w_rt w"
  by (simp_all add: arc_clone_def)

lemma next_id_fresh:
  assumes "core_inv H held w"
  shows "reg_get (w_registry w) (r_next_id (w_registry w)) = None"
proof (rule ccontr)
  assume "reg_get (w_registry w) (r_next_id (w_registry w)) \<noteq> None"
  then show False using core_invD(10) [OF assms] by (fastforce simp: metrics_ok_def Let_def)
qed

text \<open>A new session: the next id, the next reference, no subscription.\<close>

lemma core_open:
  assumes inv: "core_inv H held w" and room: "m_opened (w_metrics w) + 1 < 2 ^ 64"
    and reg: "w_registry w' = register (r_next_id (w_registry w)) (w_next_ref w) (snd (next_id (w_registry w)))"
    and store: "w_store w' = (w_store w)(w_next_ref w := s)"
    and strong: "w_strong w' = (w_strong w)(w_next_ref w := 2)"
    and nref: "w_next_ref w' = Suc (w_next_ref w)"
    and mets: "w_metrics w' = (w_metrics w)\<lparr>m_opened := m_opened (w_metrics w) + 1,
                 m_active := reg_len (w_registry w')\<rparr>"
    and s: "s_id s = r_next_id (w_registry w)" "s_subscriptions s = []" "requires_connect H \<Longrightarrow> s_claims s = None"
  shows "core_inv H (insert (w_next_ref w) held) w'"
proof -
  note D = core_invD [OF inv] and fresh = next_id_fresh [OF inv]
  let ?i = "r_next_id (w_registry w)" and ?n = "w_next_ref w"
  have get: "reg_get (w_registry w') = (reg_get (w_registry w))(?i \<mapsto> ?n)"
    and subs: "subscribers_of (w_registry w') = subscribers_of (w_registry w)"
    by (simp_all add: reg reg_simps)
  have old: "reg_get (w_registry w) i \<noteq> Some ?n" for i using D(3) by blast
  have notsub: "?i \<notin> set (subscribers_of (w_registry w) c)" for c by (simp add: D(6) fresh)
  have nosub: "\<not> has_subscription s c" "session_wf s" for c
    using s(2) by (simp_all add: has_subscription_def session_wf_def)
  have "registry_ok w'"
    unfolding registry_ok_def
  proof (intro conjI allI impI)
    show "registry_wf (w_registry w')" by (simp add: reg register_wf next_id_wf D(1))
    show "s_id (w_store w' ref) = i" if "reg_get (w_registry w') i = Some ref" for i ref
      using that D(2) [of i ref] s(1) old [of i] by (auto simp: get store split: if_splits)
    show "ref < w_next_ref w'" if "reg_get (w_registry w') i = Some ref" for i ref
      using that D(3) [of i ref] by (auto simp: get nref split: if_splits)
    show "session_wf (w_store w' ref)" for ref using D(4) nosub(2) by (simp add: store)
    show "distinct (subscribers_of (w_registry w') c)" for c by (simp add: subs D(5))
    show "i \<in> set (subscribers_of (w_registry w') c) \<longleftrightarrow>
        (\<exists>r. reg_get (w_registry w') i = Some r \<and> has_subscription (w_store w' r) c)" for i c
      using old [of i] notsub [of c] nosub(1) by (cases "i = ?i") (auto simp: subs get store D(6))
  qed
  moreover have "counts_ok (insert ?n held) w'"
  proof -
    have c: "\<And>ref. w_strong w ref = of_bool (registered w ref) + of_bool (ref \<in> held)"
      "\<And>ref. ref \<in> held \<Longrightarrow> ref < ?n"
      "\<And>ref. w_strong w ref = 0 \<Longrightarrow> s_subscriptions (w_store w ref) = []"
      using D(8) by (auto simp: counts_ok_def)
    have "registered w' ref \<longleftrightarrow> registered w ref \<or> ref = ?n" for ref
      unfolding registered_def get by (metis fresh fun_upd_apply option.distinct(1) option.inject)
    with c show ?thesis
      by (auto simp: counts_ok_def strong store nref s(2) less_Suc_eq)
  qed
  moreover have "auth_ok H w'"
    by (rule auth_ok_upd [OF D(9) store]) (use s(3) nosub in \<open>simp add: session_auth_def\<close>)
  moreover have "metrics_ok w'"
  proof -
    have "unat (?i + 1) = unat ?i + 1"
      using D(10) room by (intro unat_succ) (simp add: u64_not_max metrics_ok_def Let_def)
    moreover have "reg_len (w_registry w') = Suc (reg_len (w_registry w))"
      by (simp add: reg reg_len_register reg_simps fresh)
    ultimately show ?thesis
      using D(10) by (auto simp: metrics_ok_def Let_def mets get reg reg_simps less_Suc_eq
          split: if_splits)
  qed
  ultimately show ?thesis by (simp add: core_inv_def)
qed

text \<open>A registered session leaves the registry, which drops its handle.\<close>

lemma core_deregister:
  assumes inv: "core_inv H held w" and got: "reg_get (w_registry w) sid = Some ref"
    and reg: "w_registry w' = snd (deregister sid (w_registry w))"
    and store: "w_store w' =
      (if w_strong w ref \<le> 1 then (w_store w)(ref := emptied (w_store w ref)) else w_store w)"
    and strong: "w_strong w' = (w_strong w)(ref := w_strong w ref - 1)"
    and nref: "w_next_ref w' = w_next_ref w"
    and mets: "m_active (w_metrics w') = reg_len (w_registry w')"
      "m_opened (w_metrics w') = m_opened (w_metrics w)"
      "m_closed (w_metrics w') + m_kicked (w_metrics w') =
         Suc (m_closed (w_metrics w) + m_kicked (w_metrics w))"
  shows "core_inv H held w'"
proof -
  note D = core_invD [OF inv]
  have get: "reg_get (w_registry w') = (reg_get (w_registry w))(sid := None)"
    by (simp add: reg reg_simps)
  have subs: "subscribers_of (w_registry w') c = filter (\<lambda>i. i \<noteq> sid) (subscribers_of (w_registry w) c)" for c
    by (simp add: reg reg_simps D(1) got)
  have inj: "reg_get (w_registry w) i = Some ref \<longleftrightarrow> i = sid" for i
    using core_inv_inj [OF inv _ got] got by blast
  have id: "s_id (w_store w' r) = s_id (w_store w r)" "s_claims (w_store w' r) = s_claims (w_store w r)"
    "session_wf (w_store w' r)" "r \<noteq> ref \<Longrightarrow> w_store w' r = w_store w r" for r
    using D(4) by (simp_all add: store)
  have "registry_ok w'"
    unfolding registry_ok_def
  proof (intro conjI allI impI)
    show "registry_wf (w_registry w')" by (simp add: reg deregister_wf D(1))
    show "i \<in> set (subscribers_of (w_registry w') c) \<longleftrightarrow>
        (\<exists>r. reg_get (w_registry w') i = Some r \<and> has_subscription (w_store w' r) c)" for i c
      using inj [of i] id(4) by (cases "i = sid") (auto simp: subs get D(6))
  qed (use D(2,3,5) id in \<open>auto simp: get subs nref split: if_splits\<close>)
  moreover have "counts_ok held w'"
  proof -
    have c: "\<And>ref. w_strong w ref = of_bool (registered w ref) + of_bool (ref \<in> held)"
      "\<And>ref. w_strong w ref = 0 \<Longrightarrow> s_subscriptions (w_store w ref) = []"
      "\<And>ref. ref \<in> held \<Longrightarrow> ref < w_next_ref w"
      using D(8) by (auto simp: counts_ok_def)
    have r: "registered w' r \<longleftrightarrow> registered w r \<and> r \<noteq> ref" for r
    proof -
      have "registered w' r \<longleftrightarrow> (\<exists>i. i \<noteq> sid \<and> reg_get (w_registry w) i = Some r)"
        by (auto simp: registered_def get)
      also have "\<dots> \<longleftrightarrow> registered w r \<and> r \<noteq> ref"
        unfolding registered_def using inj got by (metis option.inject)
      finally show ?thesis .
    qed
    have "registered w ref" using got by (auto simp: registered_def)
    with c(1) [of ref] have "w_strong w ref = Suc (of_bool (ref \<in> held))" by simp
    with c r show ?thesis
      by (simp add: counts_ok_def strong store nref)
  qed
  moreover have "auth_ok H w'"
    using D(9) id(2) by (auto simp: auth_ok_def session_auth_def store)
  moreover have "metrics_ok w'"
    using D(10) reg_len_deregister [OF D(1) got] mets
    by (auto simp: metrics_ok_def Let_def get reg reg_simps split: if_splits)
  ultimately show ?thesis by (simp add: core_inv_def)
qed

text \<open>The transport drops the handle it kept.\<close>

lemma core_release:
  assumes inv: "core_inv H held w" and held: "ref \<in> held"
  shows "core_inv H (held - {ref}) (arc_drop H ref w)"
proof -
  note D = core_invD [OF inv]
  let ?w = "arc_drop H ref w"
  have c: "\<And>ref. w_strong w ref = of_bool (registered w ref) + of_bool (ref \<in> held)"
    "\<And>ref. w_strong w ref = 0 \<Longrightarrow> s_subscriptions (w_store w ref) = []"
    "\<And>ref. ref \<in> held \<Longrightarrow> ref < w_next_ref w"
    using D(8) by (auto simp: counts_ok_def)
  have strong: "w_strong w ref = Suc (of_bool (registered w ref))" using c(1) [of ref] held by simp
  have same: "w_store ?w r = w_store w r" if "reg_get (w_registry w) i = Some r" for i r
    using that strong by (auto simp: hub_simps registered_def)
  have "registry_ok ?w"
    unfolding registry_ok_def
  proof (intro conjI allI impI)
    show "i \<in> set (subscribers_of (w_registry ?w) c) \<longleftrightarrow>
        (\<exists>r. reg_get (w_registry ?w) i = Some r \<and> has_subscription (w_store ?w r) c)" for i c
      using same [of i] by (auto simp: arc_drop_frame(1) D(6))
  qed (use D(1-5) in \<open>simp_all add: hub_simps\<close>)
  moreover have "counts_ok (held - {ref}) ?w"
    using c strong by (auto simp: counts_ok_def registered_def hub_simps)
  moreover have "auth_ok H ?w"
    using D(9) by (auto simp: auth_ok_def session_auth_def hub_simps)
  moreover have "metrics_ok ?w" using D(10) by (simp add: metrics_ok_def hub_simps)
  ultimately show ?thesis by (simp add: core_inv_def)
qed

end
