(* ===== verification/HubSafety.thy ===== *)
theory HubSafety
  imports HubInv
begin

text \<open>
  The hub on top of what it relies on: a channel kind, a broker and a runtime that meet their
  contracts. Inside this locale every handler is shown to keep the whole invariant, forwarders
  included, and reachability is by rule induction over the hub's operations in any order.
\<close>

locale hub_system =
  channel_kind "hub_kops H" kinv nxt +
  broker "hub_broker H" binv topic pending +
  tokio_rt "hub_rt H" used sent closed
  for H :: "('k, 'b, 't) hub" and kinv nxt binv topic pending used sent closed
begin

section \<open>Forwarders\<close>

definition owned :: "('k, 'b, 't) world \<Rightarrow> nat \<Rightarrow> forwarder \<Rightarrow> bool" where
  "owned w h f \<longleftrightarrow> (\<exists>ref. map_of (s_subscriptions (w_store w ref)) (fw_channel f) = Some h \<and>
     fw_outbox f = s_outbox (w_store w ref))"

text \<open>
  Running forwarders outside \<open>X\<close> have an owner; each has its own stream, on its channel's topic;
  handles recorded in sessions were handed out by the runtime and are recorded once.
\<close>

definition running_ok :: "nat set \<Rightarrow> ('k, 'b, 't) world \<Rightarrow> bool" where
  "running_ok X w \<longleftrightarrow> (\<forall>h f. rt_task (hub_rt H) (w_rt w) h = Some f \<longrightarrow>
     topic (w_broker w) (fw_stream f) = Some (fw_channel f) \<and> (h \<in> X \<or> owned w h f))"

definition streams_ok :: "('k, 'b, 't) world \<Rightarrow> bool" where
  "streams_ok w \<longleftrightarrow> (\<forall>h h' f f'. rt_task (hub_rt H) (w_rt w) h = Some f \<longrightarrow>
     rt_task (hub_rt H) (w_rt w) h' = Some f' \<longrightarrow> fw_stream f = fw_stream f' \<longrightarrow> h = h')"

definition handles_ok :: "('k, 'b, 't) world \<Rightarrow> bool" where
  "handles_ok w \<longleftrightarrow>
     (\<forall>r c h. map_of (s_subscriptions (w_store w r)) c = Some h \<longrightarrow> h \<in> used (w_rt w)) \<and>
     (\<forall>r r' c c' h. map_of (s_subscriptions (w_store w r)) c = Some h \<longrightarrow>
        map_of (s_subscriptions (w_store w r')) c' = Some h \<longrightarrow> r = r' \<and> c = c')"

definition tasks_ok :: "nat set \<Rightarrow> ('k, 'b, 't) world \<Rightarrow> bool" where
  "tasks_ok X w \<longleftrightarrow> running_ok X w \<and> streams_ok w \<and> handles_ok w \<and>
     binv (w_broker w) \<and> (\<forall>n. kinv (w_kinds w n))"

definition hub_inv :: "nat set \<Rightarrow> ('k, 'b, 't) world \<Rightarrow> bool" where
  "hub_inv held w \<longleftrightarrow> core_inv H held w \<and> tasks_ok {} w"

lemmas tasks_defs = tasks_ok_def running_ok_def streams_ok_def handles_ok_def owned_def

lemma tasks_okD:
  assumes "tasks_ok X w"
  shows "rt_task (hub_rt H) (w_rt w) h = Some f \<Longrightarrow> topic (w_broker w) (fw_stream f) = Some (fw_channel f)"
    and "rt_task (hub_rt H) (w_rt w) h = Some f \<Longrightarrow> h \<in> X \<or> owned w h f"
    and "rt_task (hub_rt H) (w_rt w) h = Some f \<Longrightarrow> rt_task (hub_rt H) (w_rt w) h' = Some f' \<Longrightarrow>
      fw_stream f = fw_stream f' \<Longrightarrow> h = h'"
    and "map_of (s_subscriptions (w_store w r)) c = Some h \<Longrightarrow> h \<in> used (w_rt w)"
    and "map_of (s_subscriptions (w_store w r)) c = Some h \<Longrightarrow>
      map_of (s_subscriptions (w_store w r')) c' = Some h \<Longrightarrow> r = r' \<and> c = c'"
    and "binv (w_broker w)" and "kinv (w_kinds w n)"
    and "running_ok X w" and "streams_ok w" and "handles_ok w"
  using assms unfolding tasks_ok_def running_ok_def streams_ok_def handles_ok_def by blast+

lemma tasks_ok_mono: "tasks_ok X w \<Longrightarrow> X \<subseteq> Y \<Longrightarrow> tasks_ok Y w"
  unfolding tasks_ok_def running_ok_def by blast

text \<open>Changes of claims, counts, metrics, kinds that keep their invariant, and of the runtime's mailboxes.\<close>

lemma tasks_ok_frame:
  assumes "tasks_ok X w"
    and "\<And>r. s_subscriptions (w_store w' r) = s_subscriptions (w_store w r)"
    and "\<And>r. s_subscriptions (w_store w r) \<noteq> [] \<Longrightarrow> s_outbox (w_store w' r) = s_outbox (w_store w r)"
    and "rt_task (hub_rt H) (w_rt w') = rt_task (hub_rt H) (w_rt w)" and "used (w_rt w') = used (w_rt w)"
    and "topic (w_broker w') = topic (w_broker w)"
    and "binv (w_broker w')" and "\<And>n. kinv (w_kinds w' n)"
  shows "tasks_ok X w'"
proof -
  have "owned w' h f \<longleftrightarrow> owned w h f" for h f
    unfolding owned_def assms(2) using assms(3) by (metis map_of.simps(1) option.distinct(1))
  then show ?thesis
    using assms by (simp add: tasks_ok_def running_ok_def streams_ok_def handles_ok_def)
qed

lemma tasks_abort:
  assumes "tasks_ok X w"
  shows "tasks_ok (X - {h}) (abort_task H h w)"
proof (cases "rt_task (hub_rt H) (w_rt w) h")
  case None
  have "running_ok (X - {h}) w"
    using tasks_okD(8) [OF assms] None unfolding running_ok_def by (metis DiffI option.distinct(1) singletonD)
  with assms None show ?thesis by (simp add: tasks_ok_def abort_task_def)
next
  case (Some f)
  let ?w = "abort_task H h w"
  note D = tasks_okD [OF assms]
  have rt: "w_rt ?w = rt_stop (hub_rt H) h (w_rt w)"
    and br: "w_broker ?w = br_drop (hub_broker H) (fw_stream f) (w_broker w)"
    by (simp_all add: abort_task_def drop_stream_def Some)
  have task: "rt_task (hub_rt H) (w_rt ?w) = (rt_task (hub_rt H) (w_rt w))(h := None)"
    by (simp add: rt stop_task)
  have top: "topic (w_broker ?w) = (topic (w_broker w))(fw_stream f := None)"
    by (simp add: br drop_topic [OF D(6)])
  have "running_ok (X - {h}) ?w"
    unfolding running_ok_def
  proof (intro allI impI)
    fix h' f' assume "rt_task (hub_rt H) (w_rt ?w) h' = Some f'"
    then have h': "rt_task (hub_rt H) (w_rt w) h' = Some f'" "h' \<noteq> h" by (auto simp: task split: if_splits)
    moreover have "fw_stream f' \<noteq> fw_stream f" using D(3) [OF h'(1) Some] h'(2) by blast
    ultimately show "topic (w_broker ?w) (fw_stream f') = Some (fw_channel f') \<and>
        (h' \<in> X - {h} \<or> owned ?w h' f')"
      using D(1,2) [OF h'(1)] by (simp add: top owned_def hub_simps)
  qed
  moreover have "streams_ok ?w"
    using D(9) unfolding streams_ok_def by (simp add: task)
  moreover have "handles_ok ?w"
    using D(10) by (simp add: handles_ok_def hub_simps rt stop_used)
  ultimately show ?thesis
    using D(7) drop_binv [OF D(6)] by (simp add: tasks_ok_def br hub_simps)
qed

lemma tasks_abort_all: "tasks_ok X w \<Longrightarrow> tasks_ok (X - set hs) (fold (abort_task H) hs w)"
proof (induction hs arbitrary: X w)
  case (Cons h hs)
  have "X - {h} - set hs = X - set (h # hs)" by auto
  with Cons.IH [OF tasks_abort [OF Cons.prems, of h]] show ?case by simp
qed simp

text \<open>A stream the handler owns itself: on its topic and not read by any forwarder.\<close>

definition own_stream :: "nat \<Rightarrow> string \<Rightarrow> ('k, 'b, 't) world \<Rightarrow> bool" where
  "own_stream s c w \<longleftrightarrow> topic (w_broker w) s = Some c \<and>
     (\<forall>h f. rt_task (hub_rt H) (w_rt w) h = Some f \<longrightarrow> fw_stream f \<noteq> s)"

lemma tasks_drop_stream:
  assumes "tasks_ok X w" and "own_stream s c w"
  shows "tasks_ok X (drop_stream H s w)"
proof -
  note D = tasks_okD [OF assms(1)]
  have top: "topic (w_broker (drop_stream H s w)) = (topic (w_broker w))(s := None)"
    by (simp add: drop_stream_def drop_topic [OF D(6)])
  have "running_ok X (drop_stream H s w)"
    using D(8) assms(2) unfolding running_ok_def own_stream_def
    by (auto simp: top hub_simps owned_def)
  with D(7,9,10) drop_binv [OF D(6)] show ?thesis
    by (simp add: tasks_ok_def streams_ok_def handles_ok_def hub_simps)
       (simp add: drop_stream_def)
qed

text \<open>Spawning a forwarder for a stream the handler owns.\<close>

lemma tasks_spawn:
  assumes "tasks_ok {} w" and "own_stream (fw_stream f) (fw_channel f) w"
    and "rt_spawn (hub_rt H) f (w_rt w) = (h, t)"
  shows "tasks_ok {h} (w\<lparr>w_rt := t\<rparr>)"
proof -
  note D = tasks_okD [OF assms(1)] and sp = spawn_task [OF assms(3)] spawn_used [OF assms(3)]
  have "running_ok {h} (w\<lparr>w_rt := t\<rparr>)"
    using D(8) assms(2) unfolding running_ok_def own_stream_def by (auto simp: sp owned_def)
  moreover have "streams_ok (w\<lparr>w_rt := t\<rparr>)"
    using D(9) assms(2) unfolding streams_ok_def own_stream_def
    by (fastforce simp: sp split: if_splits)
  moreover have "handles_ok (w\<lparr>w_rt := t\<rparr>)"
    using D(10) by (auto simp: handles_ok_def sp)
  ultimately show ?thesis using D(6,7) by (simp add: tasks_ok_def)
qed

lemma spawned_unrecorded:
  assumes "tasks_ok {} w" and "rt_spawn (hub_rt H) f (w_rt w) = (h, t)"
  shows "map_of (s_subscriptions (w_store w r)) c \<noteq> Some h"
  using tasks_okD(4) [OF assms(1)] spawn_fresh [OF assms(2)] by blast

section \<open>The handlers keep the invariant\<close>

definition at :: "nat set \<Rightarrow> u64 \<Rightarrow> nat \<Rightarrow> ('k, 'b, 't) world \<Rightarrow> bool" where
  "at held sid ref w \<longleftrightarrow> hub_inv held w \<and> reg_get (w_registry w) sid = Some ref"

definition claimed :: "nat set \<Rightarrow> u64 \<Rightarrow> nat \<Rightarrow> session_claims \<Rightarrow> ('k, 'b, 't) world \<Rightarrow> bool" where
  "claimed held sid ref cl w \<longleftrightarrow> at held sid ref w \<and> s_claims (w_store w ref) = Some cl"

lemma get_session_valid:
  "valid (hub_inv held) (get_session sid) (\<lambda>ref. at held sid ref) (hub_inv held)"
  by (auto simp: valid_def get_session_def at_def split: option.splits)

lemma hub_set_claims:
  assumes "hub_inv held w"
    and "requires_connect H \<Longrightarrow> s_claims (w_store w ref) = None \<and>
           (\<exists>now token. authenticate (hub_authenticator H) now token = Inr cl)"
  shows "hub_inv held (upd_session ref (\<lambda>s. snd (set_claims cl s)) w)"
proof -
  have core: "core_inv H held w" and tasks: "tasks_ok {} w" using assms(1) by (simp_all add: hub_inv_def)
  have "tasks_ok {} (upd_session ref (\<lambda>s. snd (set_claims cl s)) w)"
    by (rule tasks_ok_frame [OF tasks]) (use tasks_okD(6,7) [OF tasks] in \<open>simp_all add: hub_simps\<close>)
  with core_set_claims [OF core assms(2)] show ?thesis by (simp add: hub_inv_def)
qed

lemma require_claims_valid:
  "valid (at held sid ref) (require_claims H ref) (\<lambda>cl. claimed held sid ref cl) (hub_inv held)"
  by (rule validI)
     (auto simp: require_claims_def claimed_def at_def hub_simps requires_connect_def
        intro!: hub_set_claims split: option.splits if_splits)

lemma enforce_acl_valid:
  "valid P (enforce_acl H cl act c) (\<lambda>_ w. P w \<and> acl_check (hub_acl H) cl act c = Inr Allow) P"
  by (rule validI) (auto simp: enforce_acl_def ok_def err_def split: sum.splits acl_decision.splits)

lemma handle_connect_valid:
  "valid (hub_inv held) (handle_connect H now sid rid token) (\<lambda>_. hub_inv held) (hub_inv held)"
  unfolding handle_connect_def
  by (rule valid_try_bind [OF get_session_valid], rule validI)
     (auto simp: at_def requires_connect_def intro!: hub_set_claims split: if_splits sum.splits)

text \<open>
  Everything a subscribe handler knows after its checks: the session, its claims, that the access
  control allowed it, and, once obtained, the broker stream it owns.
\<close>

definition sub_ctx :: "nat set \<Rightarrow> u64 \<Rightarrow> nat \<Rightarrow> string \<Rightarrow> nat option \<Rightarrow> ('k, 'b, 't) world \<Rightarrow> bool" where
  "sub_ctx held sid ref c s w \<longleftrightarrow>
     hub_inv held w \<and> reg_get (w_registry w) sid = Some ref \<and>
     (\<exists>cl. s_claims (w_store w ref) = Some cl \<and> acl_check (hub_acl H) cl ActSubscribe c = Inr Allow) \<and>
     (case s of None \<Rightarrow> True | Some s \<Rightarrow> own_stream s c w)"

lemma hub_inv_frame:
  assumes "hub_inv held w"
    and "w_registry w' = w_registry w" "w_store w' = w_store w" "w_strong w' = w_strong w"
    and "w_next_ref w' = w_next_ref w" "w_metrics w' = w_metrics w"
    and "rt_task (hub_rt H) (w_rt w') = rt_task (hub_rt H) (w_rt w)" "used (w_rt w') = used (w_rt w)"
    and "topic (w_broker w') = topic (w_broker w)"
    and "binv (w_broker w')" and "\<And>n. kinv (w_kinds w' n)"
  shows "hub_inv held w'"
proof -
  have "core_inv H held w'" using assms by (simp add: hub_inv_def core_inv_cong [of w' w])
  moreover have "tasks_ok {} w'"
    by (rule tasks_ok_frame [of _ w]) (use assms in \<open>simp_all add: hub_inv_def\<close>)
  ultimately show ?thesis by (simp add: hub_inv_def)
qed

lemma hub_invD:
  assumes "hub_inv held w"
  shows "core_inv H held w" and "tasks_ok {} w" and "binv (w_broker w)" and "kinv (w_kinds w n)"
  using assms tasks_okD(6,7) by (auto simp: hub_inv_def)

lemma on_kind_inv:
  assumes "hub_inv held w" and "\<And>k. kinv k \<Longrightarrow> kinv (snd (m k))"
  shows "hub_inv held (snd (on_kind n m w))"
  by (rule hub_inv_frame [OF assms(1)])
     (use hub_invD [OF assms(1)] assms(2) in \<open>simp_all add: hub_simps\<close>)

lemma unwind_inv: "hub_inv held w \<Longrightarrow> hub_inv held (unwind H k c w)"
  by (rule hub_inv_frame)
     (use hub_invD unsubscribe_inv in \<open>auto simp: hub_simps, auto simp: unwind_def\<close>)

lemma send_frame_inv: "hub_inv held w \<Longrightarrow> hub_inv held (snd (send_frame H ob f w))"
  by (rule hub_inv_frame) (use hub_invD in \<open>auto simp: hub_simps send_task send_used\<close>)

lemma hang_up_inv: "hub_inv held w \<Longrightarrow> hub_inv held (hang_up H ob w)"
  by (rule hub_inv_frame) (use hub_invD in \<open>auto simp: hub_simps close_frame\<close>)

lemma on_kind_ctx:
  assumes "\<And>k. kinv k \<Longrightarrow> kinv (snd (m k))"
  shows "valid (sub_ctx held sid ref c s) (on_kind n m) (\<lambda>_. sub_ctx held sid ref c s)
    (sub_ctx held sid ref c s)"
proof -
  have "sub_ctx held sid ref c s (snd (on_kind n m w))" if "sub_ctx held sid ref c s w" for w
    using that on_kind_inv [OF _ assms]
    by (auto simp: sub_ctx_def own_stream_def hub_simps split: option.splits)
  then show ?thesis by (rule valid_of_inv)
qed

lemma valid_or_cleanup:
  assumes "valid P m Q R" and "\<And>s. R s \<Longrightarrow> E (cl s)"
  shows "valid P (or_cleanup cl m) Q E"
  using assms by (fastforce simp: valid_def or_cleanup_def split: prod.splits sum.splits)

lemma br_subscribe_valid:
  "valid (sub_ctx held sid ref c None) (on_broker (br_subscribe (hub_broker H) c))
     (\<lambda>s. sub_ctx held sid ref c (Some s)) (hub_inv held)"
proof (rule validI)
  fix w x w'
  assume ctx: "sub_ctx held sid ref c None w" and run: "on_broker (br_subscribe (hub_broker H) c) w = (Inr x, w')"
  then have inv: "hub_inv held w" by (simp add: sub_ctx_def)
  note binv = hub_invD(3) [OF inv] and tasks = hub_invD(2) [OF inv]
  obtain b where b: "br_subscribe (hub_broker H) c (w_broker w) = (Inr x, b)" and w': "w' = w\<lparr>w_broker := b\<rparr>"
    using run by (cases "fst (br_subscribe (hub_broker H) c (w_broker w))")
      (auto simp: on_broker_def split: prod.splits)
  have free: "rt_task (hub_rt H) (w_rt w) h = Some f \<Longrightarrow> fw_stream f \<noteq> x" for h f
    using tasks_okD(1) [OF tasks] subscribe_fresh [OF binv b] by fastforce
  have binv': "binv b" using subscribe_binv [OF binv, of c] b by simp
  have "running_ok {} w'"
    using tasks_okD(8) [OF tasks] free
    by (auto simp: running_ok_def owned_def w' subscribe_topic [OF binv b])
  then have "tasks_ok {} w'"
    using tasks binv' by (simp add: tasks_ok_def streams_ok_def handles_ok_def w')
  then have "hub_inv held w'"
    using hub_invD(1) [OF inv] by (simp add: hub_inv_def core_inv_cong [of "w\<lparr>w_broker := b\<rparr>" w] w')
  with ctx free show "sub_ctx held sid ref c (Some x) w'"
    by (auto simp: sub_ctx_def own_stream_def w' subscribe_topic [OF binv b])
next
  fix w e w'
  assume ctx: "sub_ctx held sid ref c None w" and run: "on_broker (br_subscribe (hub_broker H) c) w = (Inl e, w')"
  then have inv: "hub_inv held w" by (simp add: sub_ctx_def)
  obtain e' b where b: "br_subscribe (hub_broker H) c (w_broker w) = (Inl e', b)" and w': "w' = w\<lparr>w_broker := b\<rparr>"
    using run by (cases "fst (br_subscribe (hub_broker H) c (w_broker w))")
      (auto simp: on_broker_def split: prod.splits)
  show "hub_inv held w'"
    by (rule hub_inv_frame [OF inv])
       (use subscribe_err [OF hub_invD(3) [OF inv] b] subscribe_binv [OF hub_invD(3) [OF inv], of c] b
          hub_invD(4) [OF inv] in \<open>simp_all add: w'\<close>)
qed

lemma send_replay_ctx:
  "sub_ctx held sid ref c s w \<Longrightarrow> sub_ctx held sid ref c s (snd (send_replay H sid' ob ps w))"
proof (induction ps arbitrary: w)
  case (Cons p ps)
  let ?w = "snd (send_frame H ob (PublicationFrame p) w)"
  have "sub_ctx held sid ref c s ?w"
    using Cons.prems send_frame_inv
    by (auto simp: sub_ctx_def own_stream_def hub_simps send_task split: option.splits)
  then show ?case
    using Cons.IH by (cases "send_frame H ob (PublicationFrame p) w") (simp split: bool.splits)
qed simp

lemma drop_stream_inv:
  "sub_ctx held sid ref c (Some s) w \<Longrightarrow> hub_inv held (drop_stream H s w)"
  using tasks_drop_stream [of "{}" w s c] core_inv_cong [of "drop_stream H s w" w]
  by (simp add: sub_ctx_def hub_inv_def hub_simps)

lemma unwind_ctx: "sub_ctx held sid ref c s w \<Longrightarrow> sub_ctx held sid ref c s (unwind H k c' w)"
  using unwind_inv by (auto simp: sub_ctx_def own_stream_def hub_simps split: option.splits)

lemma replay_valid:
  "valid (sub_ctx held sid ref c (Some s)) (replay H now sid' ob c since k s)
     (\<lambda>_. sub_ctx held sid ref c (Some s)) (hub_inv held)"
proof -
  have "valid (sub_ctx held sid ref c (Some s)) (send_replay H sid' ob ps)
      (\<lambda>_. sub_ctx held sid ref c (Some s)) (sub_ctx held sid ref c (Some s))" for ps
    using send_replay_ctx by (rule valid_of_inv)
  from valid_try_bind [OF on_kind_ctx [OF replay_inv] this]
  show ?thesis unfolding replay_def
    by (auto intro!: valid_or_cleanup valid_ok drop_stream_inv unwind_ctx)
qed

lemma attach_valid:
  "valid (sub_ctx held sid ref c (Some s)) (attach H sid ref c k s) (\<lambda>_. hub_inv held) (hub_inv held)"
proof -
  have "hub_inv held (snd (attach H sid ref c k s w))" if ctx: "sub_ctx held sid ref c (Some s) w" for w
  proof -
    let ?f = "\<lparr>fw_channel = c, fw_stream = s, fw_outbox = s_outbox (w_store w ref)\<rparr>"
    obtain h t where sp: "rt_spawn (hub_rt H) ?f (w_rt w) = (h, t)" by (cases "rt_spawn (hub_rt H) ?f (w_rt w)")
    let ?w = "w\<lparr>w_rt := t\<rparr>"
    have inv: "hub_inv held w" and get: "reg_get (w_registry w) sid = Some ref"
      and own: "own_stream s c w" using ctx by (simp_all add: sub_ctx_def)
    note tasks = hub_invD(2) [OF inv]
    have spawned: "tasks_ok {h} ?w" by (rule tasks_spawn [OF tasks _ sp]) (simp add: own)
    have core: "core_inv H held ?w" using hub_invD(1) [OF inv] by (simp add: core_inv_cong [of ?w w])
    obtain r s' where ins: "insert_subscription c h (w_store w ref) = (r, s')"
      by (cases "insert_subscription c h (w_store w ref)")
    show ?thesis
    proof (cases r)
      case (Inl stray)
      then have "stray = h" using ins by (auto simp: insert_subscription_def split: option.splits)
      then have "hub_inv held (abort_task H stray ?w)"
        using tasks_abort [OF spawned, of h] core
        by (simp add: hub_inv_def core_inv_cong [of "abort_task H h ?w" ?w] hub_simps)
      from unwind_inv [OF this] show ?thesis by (simp add: attach_def sp ins Inl)
    next
      case (Inr u)
      let ?v = "upd_registry (add_subscription sid c) (upd_session ref (\<lambda>_. s') ?w)"
      note f = insert_subscription_fields [OF ins [unfolded Inr]]
      have "core_inv H held ?v"
        by (rule core_subscribe [OF core]) (use ctx get ins Inr in \<open>simp_all add: sub_ctx_def\<close>)
      moreover have "tasks_ok {} ?v"
      proof -
        note S = tasks_okD [OF spawned]
        have new: "map_of (s_subscriptions (w_store w r')) c' \<noteq> Some h" for r' c'
          by (rule spawned_unrecorded [OF tasks sp])
        have task: "rt_task (hub_rt H) t = (rt_task (hub_rt H) (w_rt w))(h \<mapsto> ?f)"
          by (rule spawn_task [OF sp])
        have mo: "map_of (s_subscriptions (w_store ?v r')) c' =
            (if r' = ref \<and> c' = c then Some h else map_of (s_subscriptions (w_store w r')) c')" for r' c'
          using f(4) by (simp add: hub_simps)
        have out: "s_outbox (w_store ?v r') = s_outbox (w_store w r')" for r' using f(2) by (simp add: hub_simps)
        have nosub: "map_of (s_subscriptions (w_store w ref)) c = None"
          using f(5) by (simp add: has_subscription_def)
        have "running_ok {} ?v"
          unfolding running_ok_def owned_def mo out
        proof (intro allI impI conjI disjI2)
          fix h' f' assume run: "rt_task (hub_rt H) (w_rt ?v) h' = Some f'"
          then have run': "rt_task (hub_rt H) (w_rt ?w) h' = Some f'" by (simp add: hub_simps)
          show "topic (w_broker ?v) (fw_stream f') = Some (fw_channel f')"
            using S(1) [OF run'] by (simp add: hub_simps)
          show "\<exists>r. (if r = ref \<and> fw_channel f' = c then Some h
                  else map_of (s_subscriptions (w_store w r)) (fw_channel f')) = Some h' \<and>
                fw_outbox f' = s_outbox (w_store w r)"
          proof (cases "h' = h")
            case True
            with run have "f' = ?f" by (simp add: hub_simps task)
            with True show ?thesis by auto
          next
            case False
            with S(2) [OF run'] obtain r' where
              "map_of (s_subscriptions (w_store w r')) (fw_channel f') = Some h'" "fw_outbox f' = s_outbox (w_store w r')"
              by (auto simp: owned_def)
            with nosub show ?thesis by (intro exI [of _ r']) auto
          qed
        qed
        moreover have "streams_ok ?v" using S(9) by (simp add: streams_ok_def hub_simps)
        moreover have "handles_ok ?v"
          unfolding handles_ok_def mo
          using S(4,5) new spawn_used [OF sp] by (auto simp: hub_simps split: if_splits)
        ultimately show ?thesis using S(6,7) by (simp add: tasks_ok_def hub_simps)
      qed
      ultimately show ?thesis by (simp add: attach_def sp ins Inr hub_inv_def)
    qed
  qed
  then show ?thesis by (rule valid_of_inv)
qed

lemma check_not_subscribed_valid: "valid P (check_not_subscribed sid ref c) (\<lambda>_. P) P"
  by (simp add: valid_def check_not_subscribed_def)

lemma valid_inv_cong: "valid P m Q P' \<Longrightarrow> (\<And>s. P' s \<Longrightarrow> E s) \<Longrightarrow> valid P m Q E"
  by (rule valid_mono)

theorem handle_subscribe_valid:
  "valid (hub_inv held) (handle_subscribe H now sid rid c since) (\<lambda>_. hub_inv held) (hub_inv held)"
proof -
  let ?k = "kind_for H c"
  have acl: "valid (claimed held sid ref cl) (enforce_acl H cl ActSubscribe c)
      (\<lambda>_. sub_ctx held sid ref c None) (hub_inv held)" for ref cl
    by (rule valid_mono [OF enforce_acl_valid [of "claimed held sid ref cl"]])
       (auto simp: claimed_def at_def sub_ctx_def)
  have chk: "valid (sub_ctx held sid ref c None) (check_not_subscribed sid ref c)
      (\<lambda>_. sub_ctx held sid ref c None) (hub_inv held)" for ref
    by (rule valid_mono [OF check_not_subscribed_valid [of "sub_ctx held sid ref c None"]])
       (auto simp: sub_ctx_def)
  have kind: "valid (sub_ctx held sid ref c None) (on_kind ?k (k_on_subscribe (hub_kops H) c))
      (\<lambda>_. sub_ctx held sid ref c None) (hub_inv held)" for ref
    by (rule valid_mono [OF on_kind_ctx
          [where held = held and sid = sid and ref = ref and c = c and s = None, OF subscribe_inv]])
       (auto simp: sub_ctx_def)
  have brk: "valid (sub_ctx held sid ref c None)
      (or_cleanup (unwind H ?k c) (on_broker (br_subscribe (hub_broker H) c)))
      (\<lambda>s. sub_ctx held sid ref c (Some s)) (hub_inv held)" for ref
    by (rule valid_or_cleanup [OF br_subscribe_valid]) (rule unwind_inv)
  have tail: "valid (sub_ctx held sid ref c (Some s))
      (try_bind (replay H now sid ob c since ?k s) (\<lambda>_. try_bind (attach H sid ref c ?k s) (\<lambda>_. ok x)))
      (\<lambda>_. hub_inv held) (hub_inv held)" for ref s ob and x :: subscribe_ok
    by (rule valid_try_bind [OF replay_valid], rule valid_try_bind [OF attach_valid], rule valid_ok)
  show ?thesis
    unfolding handle_subscribe_def Let_def
    by (rule valid_try_bind [OF get_session_valid], rule valid_try_bind [OF require_claims_valid],
        rule valid_try_bind [OF acl], rule valid_try_bind [OF chk], rule valid_try_bind [OF kind],
        rule valid_try_bind [OF brk], rule valid_state, rule tail)
qed

lemma detach_valid:
  "valid (at held sid ref) (detach H sid ref c) (\<lambda>_. hub_inv held) (hub_inv held)"
proof -
  have "hub_inv held (snd (detach H sid ref c w))" if at: "at held sid ref w" for w
  proof -
    obtain r s' where rem: "session_remove_subscription c (w_store w ref) = (r, s')"
      by (cases "session_remove_subscription c (w_store w ref)")
    note f = remove_subscription_fields [OF rem]
    have inv: "hub_inv held w" and get: "reg_get (w_registry w) sid = Some ref" using at by (simp_all add: at_def)
    note D = tasks_okD [OF hub_invD(2) [OF inv]]
    show ?thesis
    proof (cases r)
      case None
      with inv rem show ?thesis by (simp add: detach_def)
    next
      case (Some h)
      let ?u = "upd_session ref (\<lambda>_. s') w"
      let ?v = "upd_registry (reg_remove_subscription sid c) (abort_task H h ?u)"
      have mo: "map_of (s_subscriptions (w_store ?u r')) c' =
          (if r' = ref \<and> c' = c then None else map_of (s_subscriptions (w_store w r')) c')" for r' c'
        using f(5) by (simp add: hub_simps)
      have out: "s_outbox (w_store ?u r') = s_outbox (w_store w r')" for r' using f(2) by (simp add: hub_simps)
      have "running_ok {h} ?u"
        unfolding running_ok_def owned_def mo out
      proof (intro allI impI conjI)
        fix h' f' assume "rt_task (hub_rt H) (w_rt ?u) h' = Some f'"
        then have run: "rt_task (hub_rt H) (w_rt w) h' = Some f'" by (simp add: hub_simps)
        show "topic (w_broker ?u) (fw_stream f') = Some (fw_channel f')" using D(1) [OF run] by (simp add: hub_simps)
        obtain r' where r': "map_of (s_subscriptions (w_store w r')) (fw_channel f') = Some h'"
          "fw_outbox f' = s_outbox (w_store w r')" using D(2) [OF run] by (auto simp: owned_def)
        then show "h' \<in> {h} \<or> (\<exists>r. (if r = ref \<and> fw_channel f' = c then None
              else map_of (s_subscriptions (w_store w r)) (fw_channel f')) = Some h' \<and>
            fw_outbox f' = s_outbox (w_store w r))"
          using f(4) Some by (cases "r' = ref \<and> fw_channel f' = c") auto
      qed
      moreover have "handles_ok ?u"
        unfolding handles_ok_def mo using D(4,5) by (auto simp: hub_simps split: if_splits)
      ultimately have "tasks_ok {h} ?u"
        using D(6,7,9) by (simp add: tasks_ok_def streams_ok_def hub_simps)
      from tasks_abort [OF this, of h] have "tasks_ok {} (abort_task H h ?u)" by simp
      then have "tasks_ok {} ?v"
        by (rule tasks_ok_frame) (use tasks_okD(6,7) [OF \<open>tasks_ok {} (abort_task H h ?u)\<close>] in \<open>simp_all add: hub_simps\<close>)
      moreover have "core_inv H held ?v"
        using core_unsubscribe [OF hub_invD(1) [OF inv] get rem]
        by (rule core_inv_cong [THEN iffD2, rotated -1]) (simp_all add: hub_simps)
      ultimately show ?thesis by (simp add: detach_def rem Some hub_inv_def)
    qed
  qed
  then show ?thesis by (rule valid_of_inv)
qed

lemma on_kind_valid:
  "(\<And>k. kinv k \<Longrightarrow> kinv (snd (m k))) \<Longrightarrow> valid (hub_inv held) (on_kind n m) (\<lambda>_. hub_inv held) (hub_inv held)"
  by (rule valid_of_inv) (rule on_kind_inv)

theorem handle_unsubscribe_valid:
  "valid (hub_inv held) (handle_unsubscribe H sid rid c) (\<lambda>_. hub_inv held) (hub_inv held)"
  unfolding handle_unsubscribe_def
  by (rule valid_try_bind [OF get_session_valid], rule valid_try_bind [OF detach_valid],
      rule valid_try_bind [OF on_kind_valid [OF unsubscribe_inv]], assumption, rule valid_ok)

lemma on_publish_valid:
  "valid (hub_inv held) (on_broker (br_publish (hub_broker H) c p)) (\<lambda>_. hub_inv held) (hub_inv held)"
proof -
  have "hub_inv held (snd (on_broker (br_publish (hub_broker H) c p) w))" if "hub_inv held w" for w
    by (rule hub_inv_frame [OF that])
       (use hub_invD [OF that] publish_topic publish_binv in \<open>simp_all add: hub_simps\<close>)
  then show ?thesis by (rule valid_of_inv)
qed

lemma count_publication_valid:
  "valid (hub_inv held) count_publication (\<lambda>_. hub_inv held) (hub_inv held)"
proof -
  have "hub_inv held (w\<lparr>w_metrics := (w_metrics w)\<lparr>m_published := n\<rparr>\<rparr>)" if "hub_inv held w" for w n
  proof -
    let ?w = "w\<lparr>w_metrics := (w_metrics w)\<lparr>m_published := n\<rparr>\<rparr>"
    have "core_inv H held ?w"
      using core_invD(7-10) [OF hub_invD(1) [OF that]]
      by (auto simp: core_inv_def registry_ok_def counts_ok_def registered_def auth_ok_def
          metrics_ok_def Let_def)
    moreover have "tasks_ok {} ?w"
      by (rule tasks_ok_frame [OF hub_invD(2) [OF that]]) (use hub_invD(3,4) [OF that] in simp_all)
    ultimately show ?thesis by (simp add: hub_inv_def)
  qed
  then show ?thesis by (simp add: valid_def count_publication_def)
qed

theorem handle_publish_valid:
  "valid (hub_inv held) (handle_publish H now sid c d) (\<lambda>_. hub_inv held) (hub_inv held)"
proof -
  have claims: "valid (at held sid ref) (require_claims H ref) (\<lambda>_. hub_inv held) (hub_inv held)" for ref
    by (rule valid_mono [OF require_claims_valid]) (auto simp: claimed_def at_def)
  have acl: "valid (hub_inv held) (enforce_acl H cl ActPublish c) (\<lambda>_. hub_inv held) (hub_inv held)" for cl
    by (rule valid_mono [OF enforce_acl_valid]) auto
  have schema: "valid (hub_inv held) (check_schema H c d) (\<lambda>_. hub_inv held) (hub_inv held)"
    by (auto simp: valid_def check_schema_def split: sum.splits)
  show ?thesis
    unfolding handle_publish_def
    by (rule valid_try_bind [OF get_session_valid], rule valid_try_bind [OF claims],
        rule valid_try_bind [OF acl], rule valid_try_bind [OF schema],
        rule valid_try_bind [OF on_kind_valid [OF publish_inv]], assumption,
        rule valid_try_bind [OF on_publish_valid], rule valid_try_bind [OF count_publication_valid],
        rule valid_ok)
qed

section \<open>Sessions and forwarding\<close>

lemma tasks_arc_drop:
  assumes "tasks_ok {} w"
  shows "tasks_ok {} (arc_drop H ref w)"
proof (cases "w_strong w ref - 1 = 0")
  case True
  let ?s = "w_store w ref"
  let ?hs = "map snd (s_subscriptions ?s)"
  let ?w = "upd_session ref (\<lambda>_. emptied ?s) (w\<lparr>w_strong := (w_strong w)(ref := 0)\<rparr>)"
  note D = tasks_okD [OF assms]
  have mo: "map_of (s_subscriptions (w_store ?w r)) c =
      (if r = ref then None else map_of (s_subscriptions (w_store w r)) c)" for r c
    by (simp add: hub_simps)
  have out: "s_outbox (w_store ?w r) = s_outbox (w_store w r)" for r by (simp add: hub_simps)
  have "running_ok (set ?hs) ?w"
    unfolding running_ok_def owned_def mo out
  proof (intro allI impI conjI)
    fix h f assume "rt_task (hub_rt H) (w_rt ?w) h = Some f"
    then have run: "rt_task (hub_rt H) (w_rt w) h = Some f" by (simp add: hub_simps)
    show "topic (w_broker ?w) (fw_stream f) = Some (fw_channel f)" using D(1) [OF run] by (simp add: hub_simps)
    obtain r where r: "map_of (s_subscriptions (w_store w r)) (fw_channel f) = Some h"
      "fw_outbox f = s_outbox (w_store w r)" using D(2) [OF run] by (auto simp: owned_def)
    show "h \<in> set ?hs \<or> (\<exists>r. (if r = ref then None
          else map_of (s_subscriptions (w_store w r)) (fw_channel f)) = Some h \<and>
        fw_outbox f = s_outbox (w_store w r))"
    proof (cases "r = ref")
      case True
      with r(1) show ?thesis by (force dest: map_of_SomeD)
    next
      case False
      with r show ?thesis by (intro disjI2 exI [of _ r]) simp
    qed
  qed
  moreover have "handles_ok ?w"
    unfolding handles_ok_def mo using D(4,5) by (auto simp: hub_simps split: if_splits)
  ultimately have "tasks_ok (set ?hs) ?w"
    using D(6,7,9) by (simp add: tasks_ok_def streams_ok_def hub_simps)
  from tasks_abort_all [OF this, of ?hs] True show ?thesis
    by (simp add: arc_drop_def abort_all_def emptied_def)
next
  case False
  have "tasks_ok {} (w\<lparr>w_strong := x\<rparr>)" for x
    by (rule tasks_ok_frame [OF assms]) (use tasks_okD(6,7) [OF assms] in simp_all)
  with False show ?thesis by (simp add: arc_drop_def)
qed

lemma tasks_bookkeeping:
  assumes "tasks_ok X w"
  shows "tasks_ok X (w\<lparr>w_registry := r\<rparr>)" "tasks_ok X (w\<lparr>w_metrics := m\<rparr>)"
    "tasks_ok X (set_active w)" "tasks_ok X (arc_clone ref w)"
    "tasks_ok X (w\<lparr>w_rt := notify_waiters (hub_rt H) n (w_rt w)\<rparr>)"
  by (rule tasks_ok_frame [OF assms];
      use tasks_okD(6,7) [OF assms] notify_frame in \<open>simp add: hub_simps\<close>)+

lemma close_inv:
  assumes "hub_inv held w" shows "hub_inv held (close_session H sid w)"
proof (cases "reg_get (w_registry w) sid")
  case None
  with assms show ?thesis by (simp add: close_session_def deregister_def reg_get_def)
next
  case (Some ref)
  then obtain reg where dr: "deregister sid (w_registry w) = (Some ref, reg)"
    by (metis fst_deregister prod.collapse)
  let ?w = "close_session H sid w"
  have "core_inv H held ?w"
    by (rule core_deregister [OF hub_invD(1) [OF assms] Some])
       (simp_all add: close_session_def dr Let_def hub_simps)
  moreover have "tasks_ok {} ?w"
    using hub_invD(2) [OF assms]
    by (simp add: close_session_def dr Let_def tasks_bookkeeping tasks_arc_drop)
  ultimately show ?thesis by (simp add: hub_inv_def)
qed

lemma kick_inv:
  assumes "hub_inv held w" shows "hub_inv held (snd (kick_session H sid w))"
proof (cases "reg_get (w_registry w) sid")
  case None
  with assms show ?thesis by (simp add: kick_session_def)
next
  case (Some ref)
  then obtain reg where dr: "deregister sid (w_registry w) = (Some ref, reg)"
    by (metis fst_deregister prod.collapse)
  have strong: "w_strong w ref \<noteq> 0"
    using core_invD(8) [OF hub_invD(1) [OF assms]] Some by (auto simp: counts_ok_def registered_def)
  let ?w = "snd (kick_session H sid w)"
  have "core_inv H held ?w"
    by (rule core_deregister [OF hub_invD(1) [OF assms] Some])
       (use strong in \<open>simp_all add: kick_session_def Some dr Let_def hub_simps\<close>)
  moreover have "tasks_ok {} ?w"
    using hub_invD(2) [OF assms]
    by (simp add: kick_session_def Some dr Let_def arc_clone_frame(1) tasks_bookkeeping tasks_arc_drop)
  ultimately show ?thesis by (simp add: hub_inv_def)
qed

lemma release_inv:
  "hub_inv held w \<Longrightarrow> ref \<in> held \<Longrightarrow> hub_inv (held - {ref}) (arc_drop H ref w)"
  by (simp add: hub_inv_def core_release tasks_arc_drop)

lemma open_inv:
  assumes inv: "hub_inv held w" and room: "m_opened (w_metrics w) + 1 < 2 ^ 64"
    and run: "open_session H ob w = (ref, w')"
  shows "hub_inv (insert ref held) w'"
proof -
  note fresh = next_id_fresh [OF hub_invD(1) [OF inv]] and D = tasks_okD [OF hub_invD(2) [OF inv]]
  let ?i = "r_next_id (w_registry w)" and ?n = "w_next_ref w"
  obtain n t where nt: "notify_new (hub_rt H) (w_rt w) = (n, t)" by (cases "notify_new (hub_rt H) (w_rt w)")
  define s where "s = (if allow_anonymous (hub_authenticator H)
    then snd (set_claims anonymous (session_new ?i ob n)) else session_new ?i ob n)"
  obtain reg where nid: "next_id (w_registry w) = (?i, reg)" by (simp add: next_id_def)
  have fresh': "reg_get reg ?i = None"
    using fresh reg_get_next_id [of "w_registry w"] by (simp add: nid)
  have w': "w' = set_active (w\<lparr>w_registry := register ?i ?n reg, w_rt := t,
      w_store := (w_store w)(?n := s), w_strong := (w_strong w)(?n := 2), w_next_ref := Suc ?n,
      w_metrics := (w_metrics w)\<lparr>m_opened := m_opened (w_metrics w) + 1\<rparr>\<rparr>)" and ref: "ref = ?n"
    using run by (auto simp: open_session_def Let_def nt s_def nid fresh')
  have "core_inv H (insert ?n held) w'"
    by (rule core_open [OF hub_invD(1) [OF inv] room, where s = s])
       (simp_all add: w' hub_simps nid s_def session_new_def requires_connect_def)
  moreover have "tasks_ok {} w'"
  proof (rule tasks_ok_frame [OF hub_invD(2) [OF inv]])
    have c: "counts_ok held w" and "\<And>i. reg_get (w_registry w) i \<noteq> Some ?n"
      using core_invD(3,8) [OF hub_invD(1) [OF inv]] by blast+
    then have "w_strong w ?n = 0" by (auto simp: counts_ok_def registered_def)
    with c have old: "s_subscriptions (w_store w ?n) = []" by (simp add: counts_ok_def)
    then show "s_subscriptions (w_store w' r) = s_subscriptions (w_store w r)"
      "s_subscriptions (w_store w r) \<noteq> [] \<Longrightarrow> s_outbox (w_store w' r) = s_outbox (w_store w r)" for r
      by (auto simp: w' hub_simps s_def session_new_def)
  qed (use notify_new_frame [OF nt] D(6,7) in \<open>simp_all add: w' hub_simps\<close>)
  ultimately show ?thesis by (simp add: hub_inv_def ref)
qed

lemma next_inv:
  assumes "hub_inv held w" and "br_next (hub_broker H) s (w_broker w) = (x, b)"
  shows "hub_inv held (w\<lparr>w_broker := b\<rparr>)"
  by (rule hub_inv_frame [OF assms(1)])
     (use next_topic [OF hub_invD(3) [OF assms(1)], of s] next_binv [OF hub_invD(3) [OF assms(1)], of s]
        assms(2) hub_invD(4) [OF assms(1)] in simp_all)

lemma abort_inv: "hub_inv held w \<Longrightarrow> hub_inv held (abort_task H h w)"
  using tasks_abort [of "{}" w h] core_inv_cong [of "abort_task H h w" w]
  by (simp add: hub_inv_def hub_simps)

lemma forward_inv:
  assumes "hub_inv held w" shows "hub_inv held (forward H h w)"
proof (cases "rt_task (hub_rt H) (w_rt w) h")
  case None
  with assms show ?thesis by (simp add: forward_def)
next
  case (Some f)
  obtain x b where x: "br_next (hub_broker H) (fw_stream f) (w_broker w) = (x, b)"
    by (cases "br_next (hub_broker H) (fw_stream f) (w_broker w)")
  have nx: "hub_inv held (w\<lparr>w_broker := b\<rparr>)" by (rule next_inv [OF assms x])
  show ?thesis
  proof (cases x)
    case (Ready p)
    let ?s = "send_frame H (fw_outbox f) (PublicationFrame p) (w\<lparr>w_broker := b\<rparr>)"
    have "hub_inv held (snd ?s)" by (rule send_frame_inv [OF nx])
    then show ?thesis
      using Some x Ready by (cases ?s) (auto simp: forward_def abort_inv split: bool.splits)
  qed (use Some x nx in \<open>simp_all add: forward_def abort_inv\<close>)
qed

section \<open>Every reachable state satisfies the invariant\<close>

lemma start_inv:
  assumes "\<And>n. kinv (ks n)" and "binv b" and "\<And>h. rt_task (hub_rt H) t h = None"
  shows "hub_inv {} (world_new ks b t)"
  using assms
  by (simp add: hub_inv_def core_defs tasks_defs world_new_def reg_simps registry_new_wf session_new_wf
      session_auth_def has_subscription_def session_new_def reg_len_def Let_def)
     (simp add: registry_new_def registry_wf_def session_wf_def)

lemma step_inv: "hub_step H s s' \<Longrightarrow> hub_inv (fst s) (snd s) \<Longrightarrow> hub_inv (fst s') (snd s')"
  by (induction rule: hub_step.induct)
     (simp_all add: open_inv close_inv kick_inv release_inv forward_inv send_frame_inv hang_up_inv
        valid_inv [OF handle_connect_valid] valid_inv [OF handle_subscribe_valid]
        valid_inv [OF handle_unsubscribe_valid] valid_inv [OF handle_publish_valid])

lemma reachable_inv:
  assumes "reachable H (world_new ks b t) s"
    and "\<And>n. kinv (ks n)" and "binv b" and "\<And>h. rt_task (hub_rt H) t h = None"
  shows "hub_inv (fst s) (snd s)"
  using assms(1) by induction (use start_inv [OF assms(2-4)] step_inv in auto)

end

end
