(* ===== verification/App.thy ===== *)
theory App
  imports Config PubSub MemBroker Remote Acl Jwt Schema Crdt HubSafety
begin

text \<open>
  \<open>cherenkov-server/src/app.rs\<close>: how a server is put together from its configuration. A
  \<open>dyn ChannelKind\<close> is a sum of the three channel kinds with a dispatching vtable, a
  \<open>dyn Broker\<close> a sum of the three brokers. Binding listeners and spawning the transports is not
  modelled.
\<close>

section \<open>Trait objects\<close>

datatype ('y, 'm) node_kind =
    KPubSub pubsub
  | KYjs "'y crdt_channel"
  | KAutomerge "'m crdt_channel"

definition lift_comp :: "('s \<Rightarrow> 'k) \<Rightarrow> ('e, 'a) result \<times> 's \<Rightarrow> ('e, 'a) result \<times> 'k" where
  "lift_comp C x = (fst x, C (snd x))"

fun dyn_name :: "('y, 'u) yrs \<Rightarrow> 'm automerge \<Rightarrow> ('y, 'm) node_kind \<Rightarrow> string" where
  "dyn_name Y A (KPubSub s) = k_name pubsub_ops s"
| "dyn_name Y A (KYjs s) = k_name (yjs_ops Y) s"
| "dyn_name Y A (KAutomerge s) = k_name (automerge_ops A) s"

fun dyn_on_subscribe :: "('y, 'u) yrs \<Rightarrow> 'm automerge \<Rightarrow> string \<Rightarrow>
    (('y, 'm) node_kind, channel_error, channel_cursor) comp" where
  "dyn_on_subscribe Y A c (KPubSub s) = lift_comp KPubSub (k_on_subscribe pubsub_ops c s)"
| "dyn_on_subscribe Y A c (KYjs s) = lift_comp KYjs (k_on_subscribe (yjs_ops Y) c s)"
| "dyn_on_subscribe Y A c (KAutomerge s) = lift_comp KAutomerge (k_on_subscribe (automerge_ops A) c s)"

fun dyn_on_unsubscribe :: "('y, 'u) yrs \<Rightarrow> 'm automerge \<Rightarrow> string \<Rightarrow>
    (('y, 'm) node_kind, channel_error, unit) comp" where
  "dyn_on_unsubscribe Y A c (KPubSub s) = lift_comp KPubSub (k_on_unsubscribe pubsub_ops c s)"
| "dyn_on_unsubscribe Y A c (KYjs s) = lift_comp KYjs (k_on_unsubscribe (yjs_ops Y) c s)"
| "dyn_on_unsubscribe Y A c (KAutomerge s) =
     lift_comp KAutomerge (k_on_unsubscribe (automerge_ops A) c s)"

fun dyn_on_publish :: "('y, 'u) yrs \<Rightarrow> 'm automerge \<Rightarrow> instant \<Rightarrow> string \<Rightarrow> bytes \<Rightarrow>
    (('y, 'm) node_kind, channel_error, publication) comp" where
  "dyn_on_publish Y A now c d (KPubSub s) = lift_comp KPubSub (k_on_publish pubsub_ops now c d s)"
| "dyn_on_publish Y A now c d (KYjs s) = lift_comp KYjs (k_on_publish (yjs_ops Y) now c d s)"
| "dyn_on_publish Y A now c d (KAutomerge s) =
     lift_comp KAutomerge (k_on_publish (automerge_ops A) now c d s)"

fun dyn_replay_since :: "('y, 'u) yrs \<Rightarrow> 'm automerge \<Rightarrow> instant \<Rightarrow> string \<Rightarrow> u64 \<Rightarrow>
    (('y, 'm) node_kind, channel_error, publication list) comp" where
  "dyn_replay_since Y A now c o' (KPubSub s) = lift_comp KPubSub (k_replay_since pubsub_ops now c o' s)"
| "dyn_replay_since Y A now c o' (KYjs s) = lift_comp KYjs (k_replay_since (yjs_ops Y) now c o' s)"
| "dyn_replay_since Y A now c o' (KAutomerge s) =
     lift_comp KAutomerge (k_replay_since (automerge_ops A) now c o' s)"

definition dyn_ops :: "('y, 'u) yrs \<Rightarrow> 'm automerge \<Rightarrow> ('y, 'm) node_kind kind_ops" where
  "dyn_ops Y A = \<lparr>k_name = dyn_name Y A, k_on_subscribe = dyn_on_subscribe Y A,
     k_on_unsubscribe = dyn_on_unsubscribe Y A, k_on_publish = dyn_on_publish Y A,
     k_replay_since = dyn_replay_since Y A\<rparr>"

fun dyn_inv :: "('y, 'm) node_kind \<Rightarrow> bool" where
  "dyn_inv (KPubSub s) = pubsub_inv s"
| "dyn_inv (KYjs s) = True"
| "dyn_inv (KAutomerge s) = True"

fun dyn_next :: "('y, 'm) node_kind \<Rightarrow> string \<Rightarrow> u64" where
  "dyn_next (KPubSub s) = pubsub_next s"
| "dyn_next (KYjs s) = crdt_next s"
| "dyn_next (KAutomerge s) = crdt_next s"

text \<open>The three kinds' laws, each with the result of the call taken apart.\<close>

lemma pair_as: "fst x = r \<Longrightarrow> x = (r, snd x)"
  by (cases x) simp

lemma lift_comp_eq [simp]: "lift_comp C x = (r, k') \<longleftrightarrow> fst x = r \<and> k' = C (snd x)"
  by (auto simp: lift_comp_def)

lemma lift_comp_snd [simp]: "snd (lift_comp C x) = C (snd x)"
  by (simp add: lift_comp_def)

lemmas dyn_cursor = pubsub.subscribe_cursor [OF _ pair_as] yjs.subscribe_cursor [OF TrueI pair_as]
  automerge.subscribe_cursor [OF TrueI pair_as]
lemmas dyn_publish_ok = pubsub.publish_ok [OF _ pair_as] yjs.publish_ok [OF TrueI pair_as]
  automerge.publish_ok [OF TrueI pair_as]
lemmas dyn_publish_nxt = pubsub.publish_nxt [OF _ pair_as] yjs.publish_nxt [OF TrueI pair_as]
  automerge.publish_nxt [OF TrueI pair_as]
lemmas dyn_publish_err = pubsub.publish_err [OF _ pair_as] yjs.publish_err [OF TrueI pair_as]
  automerge.publish_err [OF TrueI pair_as]
lemmas dyn_replay_ok = pubsub.replay_ok [OF _ pair_as] yjs.replay_ok [OF TrueI pair_as]
  automerge.replay_ok [OF TrueI pair_as]
lemmas dyn_replay_sorted = pubsub.replay_sorted [OF _ pair_as] yjs.replay_sorted [OF TrueI pair_as]
  automerge.replay_sorted [OF TrueI pair_as]
lemmas dyn_frames = pubsub.subscribe_inv pubsub.unsubscribe_inv pubsub.publish_inv pubsub.replay_inv
  pubsub.subscribe_nxt yjs.subscribe_nxt [OF TrueI] automerge.subscribe_nxt [OF TrueI]
  pubsub.unsubscribe_nxt yjs.unsubscribe_nxt [OF TrueI] automerge.unsubscribe_nxt [OF TrueI]
  pubsub.replay_nxt yjs.replay_nxt [OF TrueI] automerge.replay_nxt [OF TrueI]

lemma dyn_ops_sel [simp]:
  "k_on_subscribe (dyn_ops Y A) = dyn_on_subscribe Y A"
  "k_on_unsubscribe (dyn_ops Y A) = dyn_on_unsubscribe Y A"
  "k_on_publish (dyn_ops Y A) = dyn_on_publish Y A"
  "k_replay_since (dyn_ops Y A) = dyn_replay_since Y A"
  by (simp_all add: dyn_ops_def)

interpretation dyn: channel_kind "dyn_ops Y A" dyn_inv dyn_next
  for Y :: "('y, 'u) yrs" and A :: "'m automerge"
proof
  fix k k' :: "('y, 'm) node_kind" and c d now since cur p e ps
  show "dyn_inv k \<Longrightarrow> dyn_inv (snd (k_on_subscribe (dyn_ops Y A) c k))"
    "dyn_inv k \<Longrightarrow> dyn_next (snd (k_on_subscribe (dyn_ops Y A) c k)) = dyn_next k"
    "dyn_inv k \<Longrightarrow> dyn_inv (snd (k_on_unsubscribe (dyn_ops Y A) c k))"
    "dyn_inv k \<Longrightarrow> dyn_next (snd (k_on_unsubscribe (dyn_ops Y A) c k)) = dyn_next k"
    "dyn_inv k \<Longrightarrow> dyn_inv (snd (k_on_publish (dyn_ops Y A) now c d k))"
    "dyn_inv k \<Longrightarrow> dyn_inv (snd (k_replay_since (dyn_ops Y A) now c since k))"
    "dyn_inv k \<Longrightarrow> dyn_next (snd (k_replay_since (dyn_ops Y A) now c since k)) = dyn_next k"
    by (cases k; simp add: dyn_frames)+
  show "dyn_inv k \<Longrightarrow> k_on_subscribe (dyn_ops Y A) c k = (Inr cur, k') \<Longrightarrow>
      cur_offset cur = saturating_sub (dyn_next k c) 1"
    by (cases k) (auto intro: dyn_cursor)
  show "dyn_inv k \<Longrightarrow> k_on_publish (dyn_ops Y A) now c d k = (Inr p, k') \<Longrightarrow>
      pub_channel p = c \<and> pub_data p = d \<and> pub_offset p = dyn_next k c"
    by (cases k) (auto dest: dyn_publish_ok)
  show "dyn_inv k \<Longrightarrow> k_on_publish (dyn_ops Y A) now c d k = (Inr p, k') \<Longrightarrow> dyn_next k c \<noteq> - 1 \<Longrightarrow>
      dyn_next k' = (dyn_next k)(c := dyn_next k c + 1)"
    by (cases k) (auto simp: dyn_publish_nxt)
  show "dyn_inv k \<Longrightarrow> k_on_publish (dyn_ops Y A) now c d k = (Inl e, k') \<Longrightarrow> dyn_next k' = dyn_next k"
    by (cases k) (simp_all add: dyn_publish_err)
  show "dyn_inv k \<Longrightarrow> c' \<noteq> c \<Longrightarrow> dyn_next (snd (k_on_publish (dyn_ops Y A) now c d k)) c' = dyn_next k c'"
    for c'
    by (cases k) (simp_all add: pubsub.publish_others yjs.publish_others [OF TrueI]
        automerge.publish_others [OF TrueI])
  show "dyn_inv k \<Longrightarrow> k_replay_since (dyn_ops Y A) now c since k = (Inr ps, k') \<Longrightarrow> p \<in> set ps \<Longrightarrow>
      pub_channel p = c \<and> since < pub_offset p \<and> pub_offset p \<le> dyn_next k c"
    by (cases k) (auto dest: dyn_replay_ok)
  show "dyn_inv k \<Longrightarrow> k_replay_since (dyn_ops Y A) now c since k = (Inr ps, k') \<Longrightarrow>
      dyn_next k c \<noteq> - 1 \<Longrightarrow> sorted_wrt (<) (map pub_offset ps @ [dyn_next k c])"
    by (cases k) (auto dest: dyn_replay_sorted)
qed

text \<open>The brokers behind \<open>Arc<dyn Broker>\<close>.\<close>

datatype ('c, 'r, 'n) node_broker =
    BMem "'c mem_broker"
  | BRedis "'r redis_broker"
  | BNats "'n nats_broker"

record ('c, 'pe, 'g, 'r, 'n) broker_libs =
  lib_broadcast :: "'c broadcast"
  lib_prost :: "'pe prost"
  lib_fred :: "('g, 'r) fred"
  lib_nats :: "'n async_nats"

fun node_br_subscribe :: "('c, 'pe, 'g, 'r, 'n) broker_libs \<Rightarrow> string \<Rightarrow>
    (('c, 'r, 'n) node_broker, broker_error, nat) comp" where
  "node_br_subscribe L t (BMem b) = lift_comp BMem (br_subscribe (mem_ops (lib_broadcast L)) t b)"
| "node_br_subscribe L t (BRedis b) =
     lift_comp BRedis (br_subscribe (redis_ops (lib_prost L) (lib_fred L)) t b)"
| "node_br_subscribe L t (BNats b) =
     lift_comp BNats (br_subscribe (nats_ops (lib_prost L) (lib_nats L)) t b)"

fun node_br_publish :: "('c, 'pe, 'g, 'r, 'n) broker_libs \<Rightarrow> string \<Rightarrow> publication \<Rightarrow>
    (('c, 'r, 'n) node_broker, broker_error, unit) comp" where
  "node_br_publish L t p (BMem b) = lift_comp BMem (br_publish (mem_ops (lib_broadcast L)) t p b)"
| "node_br_publish L t p (BRedis b) =
     lift_comp BRedis (br_publish (redis_ops (lib_prost L) (lib_fred L)) t p b)"
| "node_br_publish L t p (BNats b) =
     lift_comp BNats (br_publish (nats_ops (lib_prost L) (lib_nats L)) t p b)"

fun node_br_next :: "('c, 'pe, 'g, 'r, 'n) broker_libs \<Rightarrow> nat \<Rightarrow> ('c, 'r, 'n) node_broker \<Rightarrow>
    stream_poll \<times> ('c, 'r, 'n) node_broker" where
  "node_br_next L s (BMem b) = map_prod id BMem (br_next (mem_ops (lib_broadcast L)) s b)"
| "node_br_next L s (BRedis b) =
     map_prod id BRedis (br_next (redis_ops (lib_prost L) (lib_fred L)) s b)"
| "node_br_next L s (BNats b) =
     map_prod id BNats (br_next (nats_ops (lib_prost L) (lib_nats L)) s b)"

fun node_br_drop :: "('c, 'pe, 'g, 'r, 'n) broker_libs \<Rightarrow> nat \<Rightarrow> ('c, 'r, 'n) node_broker \<Rightarrow>
    ('c, 'r, 'n) node_broker" where
  "node_br_drop L s (BMem b) = BMem (br_drop (mem_ops (lib_broadcast L)) s b)"
| "node_br_drop L s (BRedis b) = BRedis (br_drop (redis_ops (lib_prost L) (lib_fred L)) s b)"
| "node_br_drop L s (BNats b) = BNats (br_drop (nats_ops (lib_prost L) (lib_nats L)) s b)"

fun backend_name :: "broker_backend \<Rightarrow> string" where
  "backend_name Memory = ''memory''"
| "backend_name Redis = ''redis''"
| "backend_name Nats = ''nats''"

definition node_br_ops :: "('c, 'pe, 'g, 'r, 'n) broker_libs \<Rightarrow> broker_backend \<Rightarrow>
    ('c, 'r, 'n) node_broker broker_ops" where
  "node_br_ops L backend = \<lparr>br_name = backend_name backend, br_subscribe = node_br_subscribe L,
     br_publish = node_br_publish L, br_next = node_br_next L, br_drop = node_br_drop L\<rparr>"

text \<open>
  On the in-process backend the sum meets the broker contract. The remote ones hand publications to
  a server that may lose them and are not covered by it.
\<close>

context tokio_broadcast
begin

fun node_binv :: "('c, 'r, 'n) node_broker \<Rightarrow> bool" where
  "node_binv (BMem b) = mem_inv b"
| "node_binv _ = False"

fun node_topic :: "('c, 'r, 'n) node_broker \<Rightarrow> nat \<Rightarrow> string option" where
  "node_topic (BMem b) = mem_topic b"
| "node_topic _ = Map.empty"

fun node_pending :: "('c, 'r, 'n) node_broker \<Rightarrow> nat \<Rightarrow> publication list" where
  "node_pending (BMem b) = mem_pending b"
| "node_pending _ = (\<lambda>_. [])"

lemma node_binvE: "node_binv x \<Longrightarrow> (\<And>b. x = BMem b \<Longrightarrow> mem_inv b \<Longrightarrow> P) \<Longrightarrow> P"
  by (cases x) auto

lemma node_broker_law:
  assumes L: "lib_broadcast L = BC"
  shows "broker (node_br_ops L backend :: ('c, 'r, 'n) node_broker broker_ops)
           node_binv node_topic node_pending"
proof
  fix x y :: "('c, 'r, 'n) node_broker" and t s p e ps and s' :: nat
  assume "node_binv x"
  then obtain b where x [simp]: "x = BMem b" and b: "mem_inv b" by (rule node_binvE)
  note [simp] = node_br_ops_def L
  show "node_binv (snd (br_subscribe (node_br_ops L backend) t x))"
    by (simp add: mem.subscribe_binv [OF b])
  show "br_subscribe (node_br_ops L backend) t x = (Inr s, y) \<Longrightarrow> node_topic x s = None"
    by (auto intro: mem.subscribe_fresh [OF b pair_as])
  show "br_subscribe (node_br_ops L backend) t x = (Inr s, y) \<Longrightarrow>
      node_topic y = (node_topic x)(s \<mapsto> t)"
    by (auto intro: mem.subscribe_topic [OF b pair_as])
  show "br_subscribe (node_br_ops L backend) t x = (Inr s, y) \<Longrightarrow>
      node_pending y = (node_pending x)(s := [])"
    by (auto intro: mem.subscribe_pending [OF b pair_as])
  show "br_subscribe (node_br_ops L backend) t x = (Inl e, y) \<Longrightarrow>
      node_topic y = node_topic x \<and> node_pending y = node_pending x"
    by (auto dest: mem.subscribe_err [OF b pair_as])
  show "node_binv (snd (br_publish (node_br_ops L backend) t p x))"
    by (simp add: mem.publish_binv [OF b])
  show "node_topic (snd (br_publish (node_br_ops L backend) t p x)) = node_topic x"
    by (simp add: mem.publish_topic [OF b])
  show "br_publish (node_br_ops L backend) t p x = (Inr (), y) \<Longrightarrow> node_topic x s = Some t \<Longrightarrow>
      \<exists>n. node_pending y s = drop n (node_pending x s) @ [p]"
    by (auto intro: mem.publish_pending [OF b pair_as])
  show "node_topic x s \<noteq> Some t \<Longrightarrow>
      node_pending (snd (br_publish (node_br_ops L backend) t p x)) s = node_pending x s"
    by (simp add: mem.publish_other [OF b])
  show "node_binv (snd (br_next (node_br_ops L backend) s x))"
    by (simp add: mem.next_binv [OF b])
  show "node_topic (snd (br_next (node_br_ops L backend) s x)) = node_topic x"
    by (simp add: mem.next_topic [OF b])
  show "node_topic x s = Some t \<Longrightarrow> node_pending x s = p # ps \<Longrightarrow>
      \<exists>b'. br_next (node_br_ops L backend) s x = (Ready p, b') \<and>
           node_pending b' = (node_pending x)(s := ps)"
    using mem.next_ready [OF b, of s t p ps] by auto
  show "node_topic x s = Some t \<Longrightarrow> node_pending x s = [] \<Longrightarrow>
      fst (br_next (node_br_ops L backend) s x) \<in> {Pending, Ended} \<and>
      node_pending (snd (br_next (node_br_ops L backend) s x)) = node_pending x"
    using mem.next_none [OF b, of s t] by auto
  show "node_binv (br_drop (node_br_ops L backend) s x)"
    by (simp add: mem.drop_binv [OF b])
  show "node_topic (br_drop (node_br_ops L backend) s x) = (node_topic x)(s := None)"
    by (simp add: mem.drop_topic [OF b])
  show "s' \<noteq> s \<Longrightarrow> node_pending (br_drop (node_br_ops L backend) s x) s' = node_pending x s'"
    by (simp add: mem.drop_pending [OF b])
qed

end

section \<open>Building the parts\<close>

datatype server_error =
    SHub string
  | STransport string
  | STask string
  | SSchema string
  | SAuth string
  | SAcl string
  | SBroker string

fun server_error_msg :: "server_error \<Rightarrow> string" where
  "server_error_msg (SHub m) = ''hub configuration error: '' @ m"
| "server_error_msg (STransport m) = ''transport error: '' @ m"
| "server_error_msg (STask m) = ''transport task panicked: '' @ m"
| "server_error_msg (SSchema m) = ''schema configuration error: '' @ m"
| "server_error_msg (SAuth m) = ''auth configuration error: '' @ m"
| "server_error_msg (SAcl m) = ''acl configuration error: '' @ m"
| "server_error_msg (SBroker m) = ''broker configuration error: '' @ m"

text \<open>\<open>None\<close> is a panic: the \<open>unreachable!\<close> arm and the builder's missing secret.\<close>

type_synonym 'a built = "(server_error, 'a) result option"

definition build_broker :: "('c, 'pe, 'g, 'r, 'n) broker_libs \<Rightarrow> 'c \<Rightarrow> 'r \<Rightarrow> 'n \<Rightarrow> broker_config \<Rightarrow>
    (server_error, ('c, 'r, 'n) node_broker) result" where
  "build_broker L chans r n cfg =
     (case bc_backend cfg of
        Memory \<Rightarrow> Inr (BMem (mem_with_capacity (bc_capacity cfg) chans))
      | Redis \<Rightarrow>
          (case bc_redis_url cfg of
             None \<Rightarrow> Inl (SBroker ''broker.backend = redis requires broker.redis_url'')
           | Some url \<Rightarrow>
               (case redis_connect (lib_fred L) (redis_config_new url) r of
                  Inl e \<Rightarrow> Inl (SBroker (broker_error_msg e))
                | Inr b \<Rightarrow> Inr (BRedis b)))
      | Nats \<Rightarrow>
          (case bc_nats_url cfg of
             None \<Rightarrow> Inl (SBroker ''broker.backend = nats requires broker.nats_url'')
           | Some url \<Rightarrow>
               (case nats_connect (lib_nats L) (nats_config_new url) n of
                  Inl e \<Rightarrow> Inl (SBroker (broker_error_msg e))
                | Inr b \<Rightarrow> Inr (BNats b))))"

text \<open>\<open>read\<close> is \<open>std::fs::read\<close>, with its error's message.\<close>

definition schema_value ::
    "('j, 'v) json_lib \<Rightarrow> (string \<Rightarrow> (string, bytes) result) \<Rightarrow> string \<Rightarrow> 'j namespace_config \<Rightarrow>
     'j built" where
  "schema_value J read ns c =
     (case (nc_schema c, nc_schema_path c) of
        (Some value, None) \<Rightarrow> Some (Inr value)
      | (None, Some path) \<Rightarrow>
          (case read path of
             Inl e \<Rightarrow> Some (Inl (SSchema (''namespace `'' @ ns @ ''`: cannot read schema file '' @
                        path @ '': '' @ e)))
           | Inr bs \<Rightarrow>
               (case from_slice J bs of
                  Inl e \<Rightarrow> Some (Inl (SSchema (''namespace `'' @ ns @ ''`: schema file '' @ path @
                             '' is not valid JSON: '' @ e)))
                | Inr v \<Rightarrow> Some (Inr v)))
      | _ \<Rightarrow> None)"

fun build_schema_loop ::
    "('j, 'v) json_lib \<Rightarrow> (string \<Rightarrow> (string, bytes) result) \<Rightarrow> 'j namespaces_config \<Rightarrow>
     'v schema_builder \<Rightarrow> 'v schema_registry built" where
  "build_schema_loop J read [] b = Some (Inr (schema_build b))"
| "build_schema_loop J read ((ns, c) # rest) b =
     (case validate_schema_source c of
        Inl reason \<Rightarrow> Some (Inl (SSchema (''namespace `'' @ ns @ ''`: '' @ reason)))
      | Inr _ \<Rightarrow>
          (case schema_value J read ns c of
             None \<Rightarrow> None
           | Some (Inl e) \<Rightarrow> Some (Inl e)
           | Some (Inr v) \<Rightarrow>
               (case with_namespace J ns v b of
                  Inl e \<Rightarrow> Some (Inl (SSchema (registry_error_msg e)))
                | Inr b' \<Rightarrow> build_schema_loop J read rest b')))"

definition build_schema_registry ::
    "('j, 'v) json_lib \<Rightarrow> (string \<Rightarrow> (string, bytes) result) \<Rightarrow> 'j namespaces_config \<Rightarrow>
     'v schema_registry built" where
  "build_schema_registry J read namespaces = build_schema_loop J read namespaces schema_builder_new"

definition build_authenticator ::
    "('v, 'key) jsonwebtoken \<Rightarrow> auth_config option \<Rightarrow> authenticator built" where
  "build_authenticator L auth =
     (case auth of
        None \<Rightarrow> Some (Inr AllowAllAuthenticator)
      | Some cfg \<Rightarrow>
          if au_hmac_secret cfg = [] then Some (Inl (SAuth ''auth.hmac_secret must not be empty''))
          else
            (let b = with_hmac_secret (as_bytes (au_hmac_secret cfg)) jwt_builder_new;
                 b = fold with_audience (au_audiences cfg) b;
                 b = (case au_issuer cfg of Some iss \<Rightarrow> with_issuer iss b | None \<Rightarrow> b)
             in map_option (\<lambda>a. Inr (jwt_authenticator L a)) (jwt_build L b)))"

fun action_match :: "acl_action_config \<Rightarrow> acl_match" where
  "action_match ActionSubscribe = MatchSubscribe"
| "action_match ActionPublish = MatchPublish"
| "action_match ActionAny = MatchAny"

definition compile_rule ::
    "'g globset \<Rightarrow> acl_rule_config \<Rightarrow> (server_error, 'g acl_rule) result" where
  "compile_rule G rule =
     (case (case rc_effect rule of
              EffAllow \<Rightarrow> try_allow G (rc_channel rule) (action_match (rc_action rule))
            | EffDeny \<Rightarrow> try_deny G (rc_channel rule) (action_match (rc_action rule))) of
        Inl e \<Rightarrow> Inl (SAcl (''invalid channel glob `'' @ rc_channel rule @ ''`: '' @ e))
      | Inr compiled \<Rightarrow>
          (case rc_subject rule of
             None \<Rightarrow> Inr compiled
           | Some subject \<Rightarrow>
               (case with_subject G subject compiled of
                  Inl e \<Rightarrow> Inl (SAcl (''invalid subject glob `'' @ subject @ ''`: '' @ e))
                | Inr r \<Rightarrow> Inr r)))"

fun add_rules ::
    "'g globset \<Rightarrow> acl_rule_config list \<Rightarrow> 'g namespace_acl \<Rightarrow> (server_error, 'g namespace_acl) result" where
  "add_rules G [] b = Inr b"
| "add_rules G (rule # rest) b =
     (case compile_rule G rule of Inl e \<Rightarrow> Inl e | Inr r \<Rightarrow> add_rules G rest (with_rule r b))"

definition build_acl :: "'g globset \<Rightarrow> acl_config option \<Rightarrow> (server_error, acl_checker) result" where
  "build_acl G acl =
     (case acl of
        None \<Rightarrow> Inr AllowAllAcl
      | Some cfg \<Rightarrow>
          (case add_rules G (al_rules cfg) (default_allow (al_default_allow cfg) acl_builder) of
             Inl e \<Rightarrow> Inl e
           | Inr b \<Rightarrow> Inr (namespace_acl_checker G (acl_build b))))"

fun kind_named :: "channel_kind_name \<Rightarrow> ('y, 'm) node_kind" where
  "kind_named Pubsub = KPubSub pubsub_new"
| "kind_named CrdtYjs = KYjs yjs_new"
| "kind_named CrdtAutomerge = KAutomerge automerge_new"

definition build_namespace_kinds ::
    "channel_kinds_config \<Rightarrow> (string \<times> ('y, 'm) node_kind) list" where
  "build_namespace_kinds cfg = map (\<lambda>(ns, name). (ns, kind_named name)) cfg"

section \<open>Building the hub\<close>

record ('y, 'u, 'm, 'g, 'j, 'v, 'jv, 'jk, 'c, 'pe, 'fg, 'r, 'n, 't) env =
  env_yrs :: "('y, 'u) yrs"
  env_automerge :: "'m automerge"
  env_glob :: "'g globset"
  env_json :: "('j, 'v) json_lib"
  env_read :: "string \<Rightarrow> (string, bytes) result"
  env_jwt :: "('jv, 'jk) jsonwebtoken"
  env_brokers :: "('c, 'pe, 'fg, 'r, 'n) broker_libs"
  env_chans :: 'c
  env_redis :: 'r
  env_nats :: 'n
  env_rt :: "'t tokio"

text \<open>
  The channel kinds' handles: the default kind is 0, the kind of the \<open>i\<close>-th entry of
  \<open>channel_kinds\<close> is \<open>i + 1\<close>.
\<close>

definition node_kinds :: "'j server_config \<Rightarrow> nat \<Rightarrow> ('y, 'm) node_kind" where
  "node_kinds cfg n =
     (let named = build_namespace_kinds (sc_channel_kinds cfg)
      in if 0 < n \<and> n \<le> length named then snd (named ! (n - 1))
         else KPubSub (with_bounds (cp_history_size (sc_channel_pubsub cfg))
                         (history_ttl (sc_channel_pubsub cfg))))"

definition route_namespaces :: "channel_kinds_config \<Rightarrow> 'b hub_builder \<Rightarrow> 'b hub_builder" where
  "route_namespaces cfg b =
     fold (\<lambda>(i, ns, _). with_channel_kind_for ns (Suc i)) (List.enumerate 0 cfg) b"

definition build_hub ::
    "('y, 'u, 'm, 'g, 'j, 'v, 'jv, 'jk, 'c, 'pe, 'fg, 'r, 'n, 't) env \<Rightarrow> 'j server_config \<Rightarrow>
     ((('y, 'm) node_kind, ('c, 'r, 'n) node_broker, 't) hub \<times> (nat \<Rightarrow> ('y, 'm) node_kind) \<times>
      ('c, 'r, 'n) node_broker) built" where
  "build_hub E cfg =
     (case build_broker (env_brokers E) (env_chans E) (env_redis E) (env_nats E) (sc_broker cfg) of
        Inl e \<Rightarrow> Some (Inl e)
      | Inr br \<Rightarrow>
          (case build_schema_registry (env_json E) (env_read E) (sc_namespaces cfg) of
             None \<Rightarrow> None
           | Some (Inl e) \<Rightarrow> Some (Inl e)
           | Some (Inr registry) \<Rightarrow>
               (case build_authenticator (env_jwt E) (sc_auth cfg) of
                  None \<Rightarrow> None
                | Some (Inl e) \<Rightarrow> Some (Inl e)
                | Some (Inr auth) \<Rightarrow>
                    (case build_acl (env_glob E) (sc_acl cfg) of
                       Inl e \<Rightarrow> Some (Inl e)
                     | Inr acl \<Rightarrow>
                         (let b = with_channel_kind 0 builder_new;
                              b = with_broker (node_br_ops (env_brokers E) (bc_backend (sc_broker cfg))) b;
                              b = with_schema_validator
                                    (schema_registry_validator (env_json E) registry) b;
                              b = with_authenticator auth b;
                              b = with_acl_checker acl b;
                              b = route_namespaces (sc_channel_kinds cfg) b
                          in (case build (dyn_ops (env_yrs E) (env_automerge E)) (env_rt E) b of
                                Inl e \<Rightarrow> Some (Inl (SHub e))
                              | Inr (hub, _) \<Rightarrow> Some (Inr (hub, node_kinds cfg, br))))))))"

section \<open>What the configuration builds\<close>

lemma fold_with_audience_secret: "jb_secret (fold with_audience as b) = jb_secret b"
  by (induction as arbitrary: b) (simp_all add: with_audience_def)

lemma build_authenticator_Some: "build_authenticator L auth \<noteq> None"
  by (auto simp: build_authenticator_def jwt_build_def Let_def with_hmac_secret_def with_issuer_def
      fold_with_audience_secret split: option.splits)

lemma build_authenticator_kind:
  "build_authenticator L auth = Some (Inr a) \<Longrightarrow>
     (case auth of
        None \<Rightarrow> a = AllowAllAuthenticator
      | Some c \<Rightarrow> au_hmac_secret c \<noteq> [] \<and> (\<exists>j. a = jwt_authenticator L j \<and>
                   ja_key j = from_secret L (as_bytes (au_hmac_secret c))))"
  by (auto simp: build_authenticator_def jwt_build_def Let_def with_hmac_secret_def with_issuer_def
      fold_with_audience_secret split: option.splits if_splits)

lemma build_schema_loop_Some: "build_schema_loop J read cs b \<noteq> None"
proof (induction J read cs b rule: build_schema_loop.induct)
  case (2 J read ns c rest b)
  have "validate_schema_source c = Inr () \<Longrightarrow> schema_value J read ns c \<noteq> None"
    by (auto simp: validate_schema_source_def schema_value_def split: option.splits sum.splits)
  with 2 show ?case by (auto split: sum.splits option.splits)
qed simp

lemma build_route:
  assumes "hb_kind b = Some k" and "hb_broker b = Some br"
  shows "build K T (route_namespaces cs b) =
     Inr (\<lparr>hub_kind = k, hub_namespace_kinds = hb_namespace_kinds (route_namespaces cs b), hub_kops = K,
           hub_broker = br, hub_validator = unwrap_or (hb_validator b) AllowAllValidator,
           hub_authenticator = unwrap_or (hb_authenticator b) AllowAllAuthenticator,
           hub_acl = unwrap_or (hb_acl b) AllowAllAcl, hub_rt = T\<rparr>, hb_transports b)"
proof -
  have "hb_kind (fold f xs b) = hb_kind b \<and> hb_broker (fold f xs b) = hb_broker b \<and>
        hb_validator (fold f xs b) = hb_validator b \<and>
        hb_authenticator (fold f xs b) = hb_authenticator b \<and> hb_acl (fold f xs b) = hb_acl b \<and>
        hb_transports (fold f xs b) = hb_transports b"
    if "f = (\<lambda>(i, ns, _). with_channel_kind_for ns (Suc i))"
    for f and xs :: "(nat \<times> string \<times> channel_kind_name) list"
    using that by (induction xs arbitrary: b) (auto simp: with_channel_kind_for_def)
  then show ?thesis using assms by (simp add: build_def route_namespaces_def)
qed

lemma route_lookup:
  "distinct (map fst cs) \<Longrightarrow>
     hb_namespace_kinds (route_namespaces cs b) ns = Some k \<longleftrightarrow>
       (\<exists>i < length cs. fst (cs ! i) = ns \<and> k = Suc i) \<or>
       ns \<notin> fst ` set cs \<and> hb_namespace_kinds b ns = Some k"
proof (induction cs rule: rev_induct)
  case (snoc x cs)
  obtain n name where x: "x = (n, name)" by (cases x)
  have "route_namespaces (cs @ [x]) b = with_channel_kind_for n (Suc (length cs)) (route_namespaces cs b)"
    by (simp add: route_namespaces_def enumerate_append_eq x)
  moreover have "i < length cs \<Longrightarrow> fst (cs ! i) \<noteq> n" for i
    using snoc.prems x nth_mem [of i cs] by (force simp del: nth_mem)
  ultimately show ?case
    using snoc x by (auto simp: with_channel_kind_for_def nth_append less_Suc_eq)
qed (simp add: route_namespaces_def)

definition builder_of ::
    "('y, 'u, 'm, 'g, 'j, 'v, 'jv, 'jk, 'c, 'pe, 'fg, 'r, 'n, 't) env \<Rightarrow> 'j server_config \<Rightarrow>
     'v schema_registry \<Rightarrow> authenticator \<Rightarrow> acl_checker \<Rightarrow> ('c, 'r, 'n) node_broker hub_builder" where
  "builder_of E cfg registry auth acl =
     with_acl_checker acl (with_authenticator auth (with_schema_validator
       (schema_registry_validator (env_json E) registry) (with_broker
         (node_br_ops (env_brokers E) (bc_backend (sc_broker cfg))) (with_channel_kind 0 builder_new))))"

lemma builder_of_fields [simp]:
  "hb_namespace_kinds (builder_of E cfg reg auth acl) = Map.empty"
  "hb_kind (builder_of E cfg reg auth acl) = Some 0"
  "hb_broker (builder_of E cfg reg auth acl) =
     Some (node_br_ops (env_brokers E) (bc_backend (sc_broker cfg)))"
  by (simp_all add: builder_of_def with_acl_checker_def with_authenticator_def with_schema_validator_def
      with_broker_def with_channel_kind_def builder_new_def)

lemma build_hub_InrE:
  assumes "build_hub E cfg = Some (Inr (H, ks, b))"
  obtains reg auth acl where
    "build_broker (env_brokers E) (env_chans E) (env_redis E) (env_nats E) (sc_broker cfg) = Inr b"
    "build_schema_registry (env_json E) (env_read E) (sc_namespaces cfg) = Some (Inr reg)"
    "build_authenticator (env_jwt E) (sc_auth cfg) = Some (Inr auth)"
    "build_acl (env_glob E) (sc_acl cfg) = Inr acl"
    "ks = node_kinds cfg"
    "H = \<lparr>hub_kind = 0, hub_namespace_kinds =
            hb_namespace_kinds (route_namespaces (sc_channel_kinds cfg) (builder_of E cfg reg auth acl)),
          hub_kops = dyn_ops (env_yrs E) (env_automerge E),
          hub_broker = node_br_ops (env_brokers E) (bc_backend (sc_broker cfg)),
          hub_validator = schema_registry_validator (env_json E) reg, hub_authenticator = auth,
          hub_acl = acl, hub_rt = env_rt E\<rparr>"
proof -
  have bld: "build K T (route_namespaces cs (builder_of E cfg reg auth acl)) =
      Inr (\<lparr>hub_kind = 0, hub_namespace_kinds =
            hb_namespace_kinds (route_namespaces cs (builder_of E cfg reg auth acl)), hub_kops = K,
          hub_broker = node_br_ops (env_brokers E) (bc_backend (sc_broker cfg)),
          hub_validator = schema_registry_validator (env_json E) reg, hub_authenticator = auth,
          hub_acl = acl, hub_rt = T\<rparr>, [])" for K T cs reg auth acl
    by (subst build_route [where k = 0 and br = "node_br_ops (env_brokers E) (bc_backend (sc_broker cfg))"])
       (simp_all add: builder_of_def with_acl_checker_def with_authenticator_def with_schema_validator_def
          with_broker_def with_channel_kind_def builder_new_def unwrap_or_def)
  show ?thesis
    using assms that
    by (auto simp: build_hub_def Let_def bld builder_of_def [symmetric] split: sum.splits option.splits)
qed

section \<open>Errors of the configuration\<close>

fun config_error :: "server_error \<Rightarrow> bool" where
  "config_error (SSchema _) = True"
| "config_error (SAuth _) = True"
| "config_error (SAcl _) = True"
| "config_error (SBroker _) = True"
| "config_error _ = False"

lemma build_broker_error: "build_broker L c r n bc = Inl e \<Longrightarrow> config_error e"
  by (auto simp: build_broker_def split: broker_backend.splits option.splits sum.splits)

lemma build_schema_error: "build_schema_loop J rd cs bl = Some (Inl e) \<Longrightarrow> config_error e"
  by (induction J rd cs bl rule: build_schema_loop.induct)
     (auto simp: schema_value_def split: sum.splits option.splits)

lemma build_authenticator_error: "build_authenticator L a = Some (Inl e) \<Longrightarrow> config_error e"
  by (auto simp: build_authenticator_def Let_def split: option.splits if_splits)

lemma add_rules_error: "add_rules G rs ab = Inl e \<Longrightarrow> config_error e"
  by (induction G rs ab rule: add_rules.induct)
     (auto simp: compile_rule_def split: sum.splits option.splits acl_effect_config.splits)

lemma build_acl_error: "build_acl G a = Inl e \<Longrightarrow> config_error e"
  by (auto simp: build_acl_def dest: add_rules_error split: option.splits sum.splits)

lemma build_not_Inl: "build K T (route_namespaces cs (builder_of E cfg reg auth acl)) \<noteq> Inl e"
  by (subst build_route) simp_all

text \<open>
  Building a hub from a configuration never panics: the builder always gets its secret, and the
  arm of the schema loader marked unreachable is. It fails only with an error of the broker, schema,
  authentication or access-control section.
\<close>

lemma build_hub_total:
  "\<exists>r. build_hub E cfg = Some r \<and> (case r of Inl e \<Rightarrow> config_error e | Inr _ \<Rightarrow> True)"
proof -
  obtain sc where sc: "build_schema_registry (env_json E) (env_read E) (sc_namespaces cfg) = Some sc"
    using build_schema_loop_Some unfolding build_schema_registry_def by blast
  obtain au where au: "build_authenticator (env_jwt E) (sc_auth cfg) = Some au"
    using build_authenticator_Some by blast
  have "sc = Inl e \<Longrightarrow> config_error e" "au = Inl e \<Longrightarrow> config_error e" for e
    using sc au build_schema_error build_authenticator_error unfolding build_schema_registry_def by blast+
  then show ?thesis
    using sc au
    by (auto simp: build_hub_def Let_def builder_of_def [symmetric] build_not_Inl
        dest: build_broker_error build_acl_error split: sum.splits prod.splits)
qed

end
