(* ===== verification/HubFlow.thy ===== *)
theory HubFlow
  imports HubSafety
begin

text \<open>
  What the handlers do on each branch: when a publication or subscription is accepted, what a
  refusal leaves unchanged, and how a publication travels from the publisher through the channel
  kind, the broker and a forwarder into a subscriber's outbox.
\<close>

section \<open>Taking a handler's run apart\<close>

lemma try_bind_eq_Inr:
  "try_bind m f s = (Inr y, s') \<longleftrightarrow> (\<exists>x t. m s = (Inr x, t) \<and> f x t = (Inr y, s'))"
  by (auto simp: try_bind_def split: prod.splits sum.splits)

lemma try_bind_eq_Inl:
  "try_bind m f s = (Inl e, s') \<longleftrightarrow>
     m s = (Inl e, s') \<or> (\<exists>x t. m s = (Inr x, t) \<and> f x t = (Inl e, s'))"
  by (auto simp: try_bind_def split: prod.splits sum.splits)

lemma get_session_eq:
  "get_session sid w = (Inr ref, w') \<longleftrightarrow> reg_get (w_registry w) sid = Some ref \<and> w' = w"
  "get_session sid w = (Inl e, w') \<longleftrightarrow>
     reg_get (w_registry w) sid = None \<and> e = SessionGone sid \<and> w' = w"
  by (auto simp: get_session_def split: option.splits)

lemma enforce_acl_eq:
  "enforce_acl H cl act c w = (Inr u, w') \<longleftrightarrow> acl_check (hub_acl H) cl act c = Inr Allow \<and> w' = w"
  "enforce_acl H cl act c w = (Inl e, w') \<Longrightarrow>
     acl_check (hub_acl H) cl act c \<noteq> Inr Allow \<and> w' = w \<and> (\<exists>a. e = AclErr a)"
  by (auto simp: enforce_acl_def ok_def err_def split: sum.splits acl_decision.splits)

lemma check_schema_eq:
  "check_schema H c d w = (Inr u, w') \<longleftrightarrow> validate (hub_validator H) c d = Inr () \<and> w' = w"
  "check_schema H c d w = (Inl e, w') \<Longrightarrow>
     \<exists>a. validate (hub_validator H) c d = Inl a \<and> e = SchemaErr a \<and> w' = w"
  by (cases "validate (hub_validator H) c d"; auto simp: check_schema_def)+

lemma on_kind_eq_Inr:
  "on_kind n m w = (Inr x, w') \<longleftrightarrow>
     (\<exists>k. m (w_kinds w n) = (Inr x, k) \<and> w' = w\<lparr>w_kinds := (w_kinds w)(n := k)\<rparr>)"
  by (cases "m (w_kinds w n)"; cases "fst (m (w_kinds w n))") (auto simp: on_kind_def)

lemma on_broker_eq_Inr:
  "on_broker m w = (Inr x, w') \<longleftrightarrow> (\<exists>b. m (w_broker w) = (Inr x, b) \<and> w' = w\<lparr>w_broker := b\<rparr>)"
  by (cases "m (w_broker w)"; cases "fst (m (w_broker w))") (auto simp: on_broker_def)

text \<open>The claims a handler acts with, and what fetching them may change.\<close>

definition acting_claims :: "('k, 'b, 't) hub \<Rightarrow> ('k, 'b, 't) world \<Rightarrow> nat \<Rightarrow> session_claims option" where
  "acting_claims H w ref =
     (case s_claims (w_store w ref) of
        Some cl \<Rightarrow> Some cl
      | None \<Rightarrow> if allow_anonymous (hub_authenticator H) then Some anonymous else None)"

definition with_acting :: "('k, 'b, 't) hub \<Rightarrow> nat \<Rightarrow> ('k, 'b, 't) world \<Rightarrow> ('k, 'b, 't) world" where
  "with_acting H ref w = w\<lparr>w_store := (w_store w)(ref :=
     (w_store w ref)\<lparr>s_claims := acting_claims H w ref\<rparr>)\<rparr>"

lemma with_acting_frame [simp]:
  "w_registry (with_acting H ref w) = w_registry w" "w_kinds (with_acting H ref w) = w_kinds w"
  "w_broker (with_acting H ref w) = w_broker w" "w_rt (with_acting H ref w) = w_rt w"
  "w_metrics (with_acting H ref w) = w_metrics w" "w_strong (with_acting H ref w) = w_strong w"
  "w_next_ref (with_acting H ref w) = w_next_ref w"
  "s_subscriptions (w_store (with_acting H ref w) r) = s_subscriptions (w_store w r)"
  "s_outbox (w_store (with_acting H ref w) r) = s_outbox (w_store w r)"
  "s_id (w_store (with_acting H ref w) r) = s_id (w_store w r)"
  by (simp_all add: with_acting_def)

lemma require_claims_eq:
  "require_claims H ref w = (Inr cl, w') \<longleftrightarrow> acting_claims H w ref = Some cl \<and> w' = with_acting H ref w"
  "require_claims H ref w = (Inl e, w') \<longleftrightarrow>
     acting_claims H w ref = None \<and> e = NotConnected (s_id (w_store w ref)) \<and> w' = w"
  by (auto simp: require_claims_def acting_claims_def with_acting_def upd_session_def set_claims_def
      fun_upd_idem split: option.splits)

lemma or_cleanup_eq_Inr: "or_cleanup c m s = (Inr x, s') \<longleftrightarrow> m s = (Inr x, s')"
  by (auto simp: or_cleanup_def split: prod.splits sum.splits)

lemmas run_eqs = try_bind_eq_Inr get_session_eq(1) require_claims_eq(1) enforce_acl_eq(1)
  check_schema_eq(1) on_kind_eq_Inr on_broker_eq_Inr

text \<open>
  The run of an accepted subscribe: the kind gives the cursor, the broker the stream, then come the
  replay and the forwarder.
\<close>

lemma subscribe_run:
  "handle_subscribe H now sid rid c since w = (Inr ack, w') \<Longrightarrow>
   \<exists>ref cur ks s b w2. reg_get (w_registry w) sid = Some ref \<and>
     k_on_subscribe (hub_kops H) c (w_kinds w (kind_for H c)) = (Inr cur, ks) \<and>
     br_subscribe (hub_broker H) c (w_broker w) = (Inr s, b) \<and>
     replay H now sid (s_outbox (w_store w ref)) c since (kind_for H c) s
       ((with_acting H ref w)\<lparr>w_kinds := (w_kinds w)(kind_for H c := ks), w_broker := b\<rparr>) = (Inr (), w2) \<and>
     attach H sid ref c (kind_for H c) s w2 = (Inr (), w')"
  unfolding handle_subscribe_def Let_def
  by (auto simp: run_eqs or_cleanup_eq_Inr check_not_subscribed_def ok_def split: if_splits)

section \<open>Publishing\<close>

lemma handle_publish_eq_Inr:
  "handle_publish H now sid c d w = (Inr p, w') \<longleftrightarrow>
     (\<exists>ref cl k b. reg_get (w_registry w) sid = Some ref \<and> acting_claims H w ref = Some cl \<and>
        acl_check (hub_acl H) cl ActPublish c = Inr Allow \<and> validate (hub_validator H) c d = Inr () \<and>
        k_on_publish (hub_kops H) now c d (w_kinds w (kind_for H c)) = (Inr p, k) \<and>
        br_publish (hub_broker H) c p (w_broker w) = (Inr (), b) \<and>
        w' = (with_acting H ref w)\<lparr>w_kinds := (w_kinds w)(kind_for H c := k), w_broker := b,
               w_metrics := (w_metrics w)\<lparr>m_published := m_published (w_metrics w) + 1\<rparr>\<rparr>)"
  unfolding handle_publish_def run_eqs count_publication_def ok_def
  by (auto simp: run_eqs)

text \<open>The errors that mean the request was refused before anything was done.\<close>

fun refusal :: "hub_error \<Rightarrow> bool" where
  "refusal (SessionGone _) = True"
| "refusal (NotConnected _) = True"
| "refusal (AclErr _) = True"
| "refusal (SchemaErr _) = True"
| "refusal _ = False"

lemma on_kind_not_refusal: "on_kind n m w = (Inl e, w') \<Longrightarrow> \<not> refusal e"
  by (cases "m (w_kinds w n)"; cases "fst (m (w_kinds w n))") (auto simp: on_kind_def)

lemma on_broker_not_refusal: "on_broker m w = (Inl e, w') \<Longrightarrow> \<not> refusal e"
  by (cases "m (w_broker w)"; cases "fst (m (w_broker w))") (auto simp: on_broker_def)

lemma handle_publish_refused:
  assumes "handle_publish H now sid c d w = (Inl e, w')" and "refusal e"
  shows "w' = w \<or> (\<exists>ref. reg_get (w_registry w) sid = Some ref \<and> w' = with_acting H ref w)"
  using assms
  by (auto simp: handle_publish_def try_bind_eq_Inl get_session_eq require_claims_eq run_eqs
      count_publication_def ok_def dest: enforce_acl_eq(2) check_schema_eq(2) on_kind_not_refusal
      on_broker_not_refusal)

section \<open>From the publisher to the subscriber\<close>

context hub_system
begin

lemma publish_frame:
  assumes "handle_publish H now sid c d w = (Inr p, w')"
  shows "w_rt w' = w_rt w" "br_publish (hub_broker H) c p (w_broker w) = (Inr (), w_broker w')"
    "w_registry w' = w_registry w"
  using assms by (auto simp: handle_publish_eq_Inr)

text \<open>One round of a forwarder with something to forward.\<close>

lemma forward_ready:
  assumes inv: "hub_inv held w" and task: "rt_task (hub_rt H) (w_rt w) h = Some f"
    and pend: "pending (w_broker w) (fw_stream f) = p # ps" and opened: "\<not> closed (w_rt w) (fw_outbox f)"
  shows "sent (w_rt (forward H h w)) =
     (sent (w_rt w))(fw_outbox f := sent (w_rt w) (fw_outbox f) @ [PublicationFrame p])"
    and "rt_task (hub_rt H) (w_rt (forward H h w)) = rt_task (hub_rt H) (w_rt w)"
    and "pending (w_broker (forward H h w)) = (pending (w_broker w))(fw_stream f := ps)"
    and "closed (w_rt (forward H h w)) = closed (w_rt w)"
proof -
  have "topic (w_broker w) (fw_stream f) = Some (fw_channel f)"
    by (rule tasks_okD(1) [OF hub_invD(2) [OF inv] task])
  from next_ready [OF hub_invD(3) [OF inv] this pend] obtain b
    where nx: "br_next (hub_broker H) (fw_stream f) (w_broker w) = (Ready p, b)"
      and b: "pending b = (pending (w_broker w))(fw_stream f := ps)" by blast
  have "fst (mpsc_send (hub_rt H) (fw_outbox f) (PublicationFrame p) (w_rt w))"
    using opened by (simp add: send_ok)
  then have fwd: "forward H h w = snd (send_frame H (fw_outbox f) (PublicationFrame p) (w\<lparr>w_broker := b\<rparr>))"
    using task nx by (auto simp: forward_def send_frame_def split: prod.splits bool.splits)
  show "sent (w_rt (forward H h w)) =
     (sent (w_rt w))(fw_outbox f := sent (w_rt w) (fw_outbox f) @ [PublicationFrame p])"
    and "rt_task (hub_rt H) (w_rt (forward H h w)) = rt_task (hub_rt H) (w_rt w)"
    and "pending (w_broker (forward H h w)) = (pending (w_broker w))(fw_stream f := ps)"
    and "closed (w_rt (forward H h w)) = closed (w_rt w)"
    using opened b by (simp_all add: fwd hub_simps send_sent send_task send_closed)
qed

text \<open>As many rounds as there are pending publications deliver them all, in order.\<close>

lemma forward_drains:
  assumes "hub_inv held w" and "rt_task (hub_rt H) (w_rt w) h = Some f"
    and "pending (w_broker w) (fw_stream f) = ps" and "\<not> closed (w_rt w) (fw_outbox f)"
  shows "sent (w_rt ((forward H h ^^ length ps) w)) =
     (sent (w_rt w))(fw_outbox f := sent (w_rt w) (fw_outbox f) @ map PublicationFrame ps)"
    and "pending (w_broker ((forward H h ^^ length ps) w)) (fw_stream f) = []"
proof -
  have "sent (w_rt ((forward H h ^^ length ps) w)) =
       (sent (w_rt w))(fw_outbox f := sent (w_rt w) (fw_outbox f) @ map PublicationFrame ps) \<and>
     pending (w_broker ((forward H h ^^ length ps) w)) (fw_stream f) = []"
    using assms
  proof (induction ps arbitrary: w)
    case (Cons p ps)
    note fwd = forward_ready [OF Cons.prems]
    from Cons.IH [OF forward_inv [OF Cons.prems(1)], of h] fwd Cons.prems(2,4)
    have "sent (w_rt ((forward H h ^^ length ps) (forward H h w))) =
        (sent (w_rt w))(fw_outbox f := sent (w_rt w) (fw_outbox f) @ PublicationFrame p # map PublicationFrame ps) \<and>
      pending (w_broker ((forward H h ^^ length ps) (forward H h w))) (fw_stream f) = []"
      by (simp add: fun_eq_iff)
    then show ?case by (simp add: funpow_swap1)
  qed simp
  then show "sent (w_rt ((forward H h ^^ length ps) w)) =
     (sent (w_rt w))(fw_outbox f := sent (w_rt w) (fw_outbox f) @ map PublicationFrame ps)"
    and "pending (w_broker ((forward H h ^^ length ps) w)) (fw_stream f) = []" by blast+
qed

lemma publish_inv_snd: "hub_inv held w \<Longrightarrow> handle_publish H now sid c d w = (Inr p, w') \<Longrightarrow> hub_inv held w'"
  using valid_inv [OF handle_publish_valid, of held w now sid c d] by simp

lemma publish_pends:
  assumes inv: "hub_inv held w"
    and task: "rt_task (hub_rt H) (w_rt w) h = Some f" and ch: "fw_channel f = c"
    and idle: "pending (w_broker w) (fw_stream f) = []"
    and publish: "handle_publish H now sid c d w = (Inr p, w')"
  shows "pending (w_broker w') (fw_stream f) = [p]"
proof -
  have "topic (w_broker w) (fw_stream f) = Some c"
    using tasks_okD(1) [OF hub_invD(2) [OF inv] task] ch by simp
  from publish_pending [OF hub_invD(3) [OF inv] publish_frame(2) [OF publish] this]
  show ?thesis by (auto simp: idle)
qed

lemma publish_then_forward:
  assumes inv: "hub_inv held w"
    and task: "rt_task (hub_rt H) (w_rt w) h = Some f" and ch: "fw_channel f = c"
    and idle: "pending (w_broker w) (fw_stream f) = []"
    and opened: "\<not> closed (w_rt w) (fw_outbox f)"
    and publish: "handle_publish H now sid c d w = (Inr p, w')"
  shows "sent (w_rt (forward H h w')) =
     (sent (w_rt w))(fw_outbox f := sent (w_rt w) (fw_outbox f) @ [PublicationFrame p])"
    and "rt_task (hub_rt H) (w_rt (forward H h w')) = rt_task (hub_rt H) (w_rt w)"
  using forward_ready(1,2) [OF publish_inv_snd [OF inv publish], of h f p "[]"] task opened
    publish_pends [OF inv task ch idle publish]
  by (simp_all add: publish_frame(1) [OF publish])

lemma publish_offset:
  assumes "hub_inv held w" and "handle_publish H now sid c d w = (Inr p, w')"
  shows "pub_channel p = c \<and> pub_data p = d \<and> pub_offset p = nxt (w_kinds w (kind_for H c)) c"
  using assms(2) publish_ok [OF hub_invD(4) [OF assms(1)]] by (auto simp: handle_publish_eq_Inr)

section \<open>A failed subscribe leaves nothing behind\<close>

text \<open>
  \<open>quiet w0 c s\<close>: nothing has been recorded or spawned since \<open>w0\<close>; the only new broker stream is
  \<open>s\<close>, on topic \<open>c\<close>.
\<close>

definition quiet :: "('k, 'b, 't) world \<Rightarrow> string \<Rightarrow> nat option \<Rightarrow> ('k, 'b, 't) world \<Rightarrow> bool" where
  "quiet w0 c s w \<longleftrightarrow>
     rt_task (hub_rt H) (w_rt w) = rt_task (hub_rt H) (w_rt w0) \<and>
     w_registry w = w_registry w0 \<and>
     (\<forall>r. s_subscriptions (w_store w r) = s_subscriptions (w_store w0 r)) \<and>
     binv (w_broker w) \<and> (\<forall>n. kinv (w_kinds w n)) \<and>
     (case s of
        None \<Rightarrow> topic (w_broker w) = topic (w_broker w0)
      | Some s \<Rightarrow> topic (w_broker w0) s = None \<and> topic (w_broker w) = (topic (w_broker w0))(s \<mapsto> c))"

lemma quiet_frame:
  "quiet w0 c s w \<Longrightarrow> rt_task (hub_rt H) (w_rt w') = rt_task (hub_rt H) (w_rt w) \<Longrightarrow>
   w_registry w' = w_registry w \<Longrightarrow>
   (\<And>r. s_subscriptions (w_store w' r) = s_subscriptions (w_store w r)) \<Longrightarrow>
   w_broker w' = w_broker w \<Longrightarrow> ((\<forall>n. kinv (w_kinds w n)) \<Longrightarrow> \<forall>n. kinv (w_kinds w' n)) \<Longrightarrow> quiet w0 c s w'"
  by (simp add: quiet_def split: option.splits)

lemma quiet_unwind: "quiet w0 c s w \<Longrightarrow> quiet w0 c s (unwind H k c' w)"
  by (erule quiet_frame) (simp_all add: unwind_def unsubscribe_inv)

lemma quiet_on_kind:
  assumes "\<And>k. kinv k \<Longrightarrow> kinv (snd (m k))"
  shows "valid (quiet w0 c s) (on_kind n m) (\<lambda>_. quiet w0 c s) (quiet w0 c s)"
  by (rule valid_of_inv, erule quiet_frame) (simp_all add: hub_simps assms)

lemma quiet_drop_stream: "quiet w0 c (Some s) w \<Longrightarrow> quiet w0 c None (drop_stream H s w)"
  by (auto simp: quiet_def drop_stream_def drop_binv drop_topic fun_upd_idem)

lemma quiet_send_replay: "quiet w0 c s w \<Longrightarrow> quiet w0 c s (snd (send_replay H sid ob ps w))"
proof (induction ps arbitrary: w)
  case (Cons p ps)
  let ?w = "snd (send_frame H ob (PublicationFrame p) w)"
  have "quiet w0 c s ?w" by (rule quiet_frame [OF Cons.prems]) (simp_all add: hub_simps send_task)
  then show ?case
    using Cons.IH by (cases "send_frame H ob (PublicationFrame p) w") (simp split: bool.splits)
qed simp

lemma quiet_replay:
  "valid (quiet w0 c (Some s)) (replay H now sid ob c since k s) (\<lambda>_. quiet w0 c (Some s))
     (quiet w0 c None)"
proof -
  have "valid (quiet w0 c (Some s)) (send_replay H sid ob ps) (\<lambda>_. quiet w0 c (Some s))
      (quiet w0 c (Some s))" for ps
    using quiet_send_replay by (rule valid_of_inv)
  from valid_try_bind [OF quiet_on_kind [OF replay_inv] this]
  show ?thesis unfolding replay_def
    by (auto intro!: valid_or_cleanup valid_ok quiet_drop_stream quiet_unwind)
qed

lemma quiet_br_subscribe:
  "valid (quiet w0 c None) (or_cleanup (unwind H k c) (on_broker (br_subscribe (hub_broker H) c)))
     (\<lambda>s. quiet w0 c (Some s)) (quiet w0 c None)"
proof (rule valid_or_cleanup [OF validI])
  fix w s w'
  assume q: "quiet w0 c None w" and "on_broker (br_subscribe (hub_broker H) c) w = (Inr s, w')"
  then obtain b where b: "br_subscribe (hub_broker H) c (w_broker w) = (Inr s, b)"
    and w': "w' = w\<lparr>w_broker := b\<rparr>" by (auto simp: on_broker_eq_Inr)
  have binv: "binv (w_broker w)" using q by (simp add: quiet_def)
  show "quiet w0 c (Some s) w'"
    using q subscribe_binv [OF binv, of c] b subscribe_topic [OF binv b] subscribe_fresh [OF binv b]
    by (simp add: quiet_def w')
next
  fix w e w'
  assume q: "quiet w0 c None w" and run: "on_broker (br_subscribe (hub_broker H) c) w = (Inl e, w')"
  have binv: "binv (w_broker w)" using q by (simp add: quiet_def)
  obtain e' b where b: "br_subscribe (hub_broker H) c (w_broker w) = (Inl e', b)"
    and w': "w' = w\<lparr>w_broker := b\<rparr>"
    using run by (cases "fst (br_subscribe (hub_broker H) c (w_broker w))")
      (auto simp: on_broker_def split: prod.splits)
  show "quiet w0 c None w'"
    using q subscribe_binv [OF binv, of c] b subscribe_err [OF binv b] by (simp add: quiet_def w')
qed (rule quiet_unwind)

lemma quiet_attach:
  "valid (quiet w0 c (Some s)) (attach H sid ref c k s) (\<lambda>_ _. True) (quiet w0 c None)"
proof (rule validI)
  fix w e w'
  assume q: "quiet w0 c (Some s) w" and run: "attach H sid ref c k s w = (Inl e, w')"
  let ?f = "\<lparr>fw_channel = c, fw_stream = s, fw_outbox = s_outbox (w_store w ref)\<rparr>"
  obtain h t where sp: "rt_spawn (hub_rt H) ?f (w_rt w) = (h, t)"
    by (cases "rt_spawn (hub_rt H) ?f (w_rt w)")
  from run sp have w': "w' = unwind H k c (abort_task H h (w\<lparr>w_rt := t\<rparr>))"
    by (auto simp: attach_def insert_subscription_def Let_def split: option.splits)
  have ab: "abort_task H h (w\<lparr>w_rt := t\<rparr>) = drop_stream H s (w\<lparr>w_rt := rt_stop (hub_rt H) h t\<rparr>)"
    using spawn_task [OF sp] by (simp add: abort_task_def)
  have "rt_task (hub_rt H) (w_rt w) h = None"
    using spawn_fresh [OF sp] task_used [of "w_rt w" h] by (cases "rt_task (hub_rt H) (w_rt w) h") auto
  then have "rt_task (hub_rt H) (rt_stop (hub_rt H) h t) = rt_task (hub_rt H) (w_rt w)"
    by (simp add: stop_task spawn_task [OF sp] fun_upd_idem)
  then have "quiet w0 c (Some s) (w\<lparr>w_rt := rt_stop (hub_rt H) h t\<rparr>)"
    by (intro quiet_frame [OF q]) simp_all
  then show "quiet w0 c None w'" by (simp add: w' ab quiet_unwind quiet_drop_stream)
qed simp

lemma quiet_same: "(\<And>w. snd (m w) = w) \<Longrightarrow> valid P m (\<lambda>_. P) P"
  by (rule valid_of_inv) simp

lemma handle_subscribe_fails_quietly:
  "valid (quiet w0 c None) (handle_subscribe H now sid rid c since) (\<lambda>_ _. True) (quiet w0 c None)"
proof -
  have g: "valid (quiet w0 c None) (get_session sid) (\<lambda>_. quiet w0 c None) (quiet w0 c None)"
    by (rule quiet_same) (simp add: get_session_def split: option.splits)
  have r: "valid (quiet w0 c None) (require_claims H ref) (\<lambda>_. quiet w0 c None) (quiet w0 c None)" for ref
    by (rule validI) (auto simp: require_claims_eq elim: quiet_frame)
  have a: "valid (quiet w0 c None) (enforce_acl H cl ActSubscribe c) (\<lambda>_. quiet w0 c None)
      (quiet w0 c None)" for cl
    by (rule quiet_same) (simp add: enforce_acl_def split: sum.splits acl_decision.splits)
  have n: "valid (quiet w0 c None) (check_not_subscribed sid ref c) (\<lambda>_. quiet w0 c None)
      (quiet w0 c None)" for ref
    by (rule quiet_same) (simp add: check_not_subscribed_def)
  have tail: "valid (quiet w0 c (Some s))
      (try_bind (replay H now sid ob c since k s) (\<lambda>_. try_bind (attach H sid ref c k s) (\<lambda>_. ok x)))
      (\<lambda>_ _. True) (quiet w0 c None)" for ref s ob k and x :: subscribe_ok
    by (rule valid_try_bind [OF quiet_replay], rule valid_try_bind [OF quiet_attach], rule valid_ok) simp
  show ?thesis
    unfolding handle_subscribe_def Let_def
    by (rule valid_try_bind [OF g], rule valid_try_bind [OF r], rule valid_try_bind [OF a],
        rule valid_try_bind [OF n], rule valid_try_bind [OF quiet_on_kind [OF subscribe_inv]], assumption,
        rule valid_try_bind [OF quiet_br_subscribe], rule valid_state, rule tail)
qed

lemma subscribe_failure:
  assumes "hub_inv held w" and "handle_subscribe H now sid rid c since w = (Inl e, w')"
  shows "rt_task (hub_rt H) (w_rt w') = rt_task (hub_rt H) (w_rt w)"
    and "topic (w_broker w') = topic (w_broker w)" and "w_registry w' = w_registry w"
    and "s_subscriptions (w_store w' r) = s_subscriptions (w_store w r)"
proof -
  have "quiet w c None w"
    using hub_invD(3,4) [OF assms(1)] by (simp add: quiet_def)
  from validD(2) [OF handle_subscribe_fails_quietly this assms(2)]
  have "quiet w c None w'" .
  then show "rt_task (hub_rt H) (w_rt w') = rt_task (hub_rt H) (w_rt w)"
    and "topic (w_broker w') = topic (w_broker w)" and "w_registry w' = w_registry w"
    and "s_subscriptions (w_store w' r) = s_subscriptions (w_store w r)"
    by (simp_all add: quiet_def)
qed

end

section \<open>Claims are fixed once set\<close>

text \<open>The state predicates only about the sessions' claims and how many sessions there are.\<close>

definition keeps_claims :: "(('k, 'b, 't) world \<Rightarrow> bool) \<Rightarrow> bool" where
  "keeps_claims P \<longleftrightarrow> (\<forall>w w'. P w \<longrightarrow> w_next_ref w' = w_next_ref w \<longrightarrow>
     (\<forall>r. s_claims (w_store w' r) = s_claims (w_store w r)) \<longrightarrow> P w')"

lemma keeps_claimsD:
  "keeps_claims P \<Longrightarrow> P w \<Longrightarrow> w_next_ref w' = w_next_ref w \<Longrightarrow>
     (\<And>r. s_claims (w_store w' r) = s_claims (w_store w r)) \<Longrightarrow> P w'"
  unfolding keeps_claims_def by blast

definition has_claims :: "nat \<Rightarrow> session_claims \<Rightarrow> ('k, 'b, 't) world \<Rightarrow> bool" where
  "has_claims ref cl w \<longleftrightarrow> ref < w_next_ref w \<and> s_claims (w_store w ref) = Some cl"

lemma has_claims_keeps: "keeps_claims (has_claims ref cl)"
  by (simp add: keeps_claims_def has_claims_def)

lemma pres_get_session [pres_intros]: "pres P (get_session sid)"
  by (auto simp: pres_def get_session_def split: option.splits)

lemma pres_enforce_acl [pres_intros]: "pres P (enforce_acl H cl act c)"
  by (auto simp: pres_def enforce_acl_def split: sum.splits acl_decision.splits)

lemma pres_check_not_subscribed [pres_intros]: "pres P (check_not_subscribed sid ref c)"
  by (simp add: pres_def check_not_subscribed_def)

lemma pres_check_schema [pres_intros]: "pres P (check_schema H c d)"
  by (simp add: pres_def check_schema_def)

lemma pres_on_kind [pres_intros]: "keeps_claims P \<Longrightarrow> pres P (on_kind n m)"
  by (rule presI, erule keeps_claimsD) (simp_all add: hub_simps)

lemma pres_on_broker [pres_intros]: "keeps_claims P \<Longrightarrow> pres P (on_broker m)"
  by (rule presI, erule keeps_claimsD) (simp_all add: hub_simps)

lemma pres_count_publication [pres_intros]: "keeps_claims P \<Longrightarrow> pres P count_publication"
  by (rule presI, erule keeps_claimsD) (simp_all add: count_publication_def)

lemma pres_or_cleanup [pres_intros]:
  "pres P m \<Longrightarrow> (\<And>s. P s \<Longrightarrow> P (cl s)) \<Longrightarrow> pres P (or_cleanup cl m)"
  by (force simp: pres_def or_cleanup_def split: prod.splits sum.splits)

lemma unwind_claims: "keeps_claims P \<Longrightarrow> P w \<Longrightarrow> P (unwind H k c w)"
  by (erule keeps_claimsD) (simp_all add: hub_simps)

lemma drop_stream_claims: "keeps_claims P \<Longrightarrow> P w \<Longrightarrow> P (drop_stream H s w)"
  by (erule keeps_claimsD) (simp_all add: hub_simps)

lemma abort_task_claims: "keeps_claims P \<Longrightarrow> P w \<Longrightarrow> P (abort_task H h w)"
  by (erule keeps_claimsD) (simp_all add: hub_simps)

lemma arc_drop_claims: "keeps_claims P \<Longrightarrow> P w \<Longrightarrow> P (arc_drop H r w)"
  by (erule keeps_claimsD, assumption) (auto simp: hub_simps)

lemma pres_send_replay: "keeps_claims P \<Longrightarrow> P w \<Longrightarrow> P (snd (send_replay H sid ob ps w))"
proof (induction ps arbitrary: w)
  case (Cons p ps)
  have "P (snd (send_frame H ob (PublicationFrame p) w))"
    by (rule keeps_claimsD [OF Cons.prems]) (simp_all add: hub_simps)
  then show ?case
    using Cons.IH Cons.prems(1)
    by (cases "send_frame H ob (PublicationFrame p) w") (simp split: bool.splits)
qed simp

lemma pres_replay [pres_intros]: "keeps_claims P \<Longrightarrow> pres P (replay H now sid ob c since k s)"
  unfolding replay_def
  by (intro pres_intros) (auto intro: presI pres_send_replay unwind_claims drop_stream_claims)

lemma pres_attach [pres_intros]: "keeps_claims P \<Longrightarrow> pres P (attach H sid ref c k s)"
  by (rule presI, erule keeps_claimsD, assumption)
     (auto simp: attach_def insert_subscription_def hub_simps Let_def split: option.splits prod.splits)

lemma pres_detach [pres_intros]: "keeps_claims P \<Longrightarrow> pres P (detach H sid ref c)"
  by (rule presI, erule keeps_claimsD, assumption)
     (auto simp: detach_def session_remove_subscription_def hub_simps split: option.splits)

lemma pres_state: "(\<And>s0. pres P (g s0)) \<Longrightarrow> pres P (\<lambda>s. g s s)"
  by (simp add: pres_def)

lemma pres_require_claims [pres_intros]: "pres (has_claims ref cl) (require_claims H r)"
  by (auto simp: pres_def require_claims_def has_claims_def hub_simps split: option.splits)

lemma pres_handle_publish: "pres (has_claims ref cl) (handle_publish H now sid c d)"
  unfolding handle_publish_def by (intro pres_intros has_claims_keeps)

lemma pres_handle_subscribe: "pres (has_claims ref cl) (handle_subscribe H now sid rid c since)"
proof -
  have tail: "pres (has_claims ref cl) (try_bind (replay H now sid ob c since k s)
      (\<lambda>_. try_bind (attach H sid r c k s) (\<lambda>_. ok x)))" for r s ob k and x :: subscribe_ok
    by (intro pres_intros has_claims_keeps)
  have brk: "pres (has_claims ref cl)
      (or_cleanup (unwind H k c) (on_broker (br_subscribe (hub_broker H) c)))" for k
    by (rule pres_or_cleanup [OF pres_on_broker [OF has_claims_keeps]])
       (erule unwind_claims [OF has_claims_keeps])
  show ?thesis
    unfolding handle_subscribe_def Let_def
    by (rule pres_try_bind [OF pres_get_session], rule pres_try_bind [OF pres_require_claims],
        rule pres_try_bind [OF pres_enforce_acl], rule pres_try_bind [OF pres_check_not_subscribed],
        rule pres_try_bind [OF pres_on_kind [OF has_claims_keeps]], rule pres_try_bind [OF brk],
        rule pres_state, rule tail)
qed

lemma pres_handle_unsubscribe: "pres (has_claims ref cl) (handle_unsubscribe H sid rid c)"
  unfolding handle_unsubscribe_def by (intro pres_intros has_claims_keeps)

lemma pres_handle_connect:
  "requires_connect H \<Longrightarrow> pres (has_claims ref cl) (handle_connect H now sid rid token)"
  unfolding handle_connect_def
  by (intro pres_intros)
     (auto simp: pres_def has_claims_def requires_connect_def hub_simps split: sum.splits)

lemma step_claims:
  "hub_step H s s' \<Longrightarrow> requires_connect H \<Longrightarrow> has_claims ref cl (snd s) \<Longrightarrow> has_claims ref cl (snd s')"
proof (induction rule: hub_step.induct)
  case (Open w outbox r w' held)
  then show ?case
    by (auto simp: open_session_def has_claims_def hub_simps Let_def split: prod.splits option.splits)
next
  case (Close held w sid)
  have "has_claims ref cl (close_session H sid w)"
    by (rule keeps_claimsD [OF has_claims_keeps, of ref cl w])
       (use Close in \<open>auto simp: close_session_def hub_simps Let_def split: prod.splits option.splits\<close>)
  then show ?case by simp
next
  case (Kick held w sid)
  have "has_claims ref cl (snd (kick_session H sid w))"
    by (rule keeps_claimsD [OF has_claims_keeps, of ref cl w])
       (use Kick in \<open>auto simp: kick_session_def hub_simps Let_def split: prod.splits option.splits\<close>)
  then show ?case by simp
next
  case (Forward held w h)
  have "has_claims ref cl (forward H h w)"
    by (rule keeps_claimsD [OF has_claims_keeps, of ref cl w])
       (use Forward in \<open>auto simp: forward_def send_frame_def hub_simps split: prod.splits option.splits
          stream_poll.splits bool.splits\<close>)
  then show ?case by simp
next
  case (Deliver held w outbox frame)
  have "has_claims ref cl (snd (send_frame H outbox frame w))"
    by (rule keeps_claimsD [OF has_claims_keeps, of ref cl w]) (use Deliver in \<open>simp_all add: hub_simps\<close>)
  then show ?case by simp
next
  case (HangUp held w outbox)
  then show ?case by (simp add: has_claims_def hub_simps)
qed (simp_all add: presD [OF pres_handle_connect] presD [OF pres_handle_subscribe]
      presD [OF pres_handle_unsubscribe] presD [OF pres_handle_publish]
      arc_drop_claims [OF has_claims_keeps])

lemma steps_claims:
  "(hub_step H)\<^sup>*\<^sup>* s s' \<Longrightarrow> requires_connect H \<Longrightarrow> has_claims ref cl (snd s) \<Longrightarrow> has_claims ref cl (snd s')"
  by (induction rule: rtranclp_induct) (auto dest: step_claims)

section \<open>Offsets grow\<close>

context hub_system
begin

text \<open>Kind \<open>n\<close> will give channel \<open>c\<close> the offset \<open>v\<close> next.\<close>

definition at_next :: "nat \<Rightarrow> string \<Rightarrow> u64 \<Rightarrow> ('k, 'b, 't) world \<Rightarrow> bool" where
  "at_next n c v w \<longleftrightarrow> (\<forall>m. kinv (w_kinds w m)) \<and> nxt (w_kinds w n) c = v"

lemma at_next_kinds: "at_next n c v w \<Longrightarrow> w_kinds w' = w_kinds w \<Longrightarrow> at_next n c v w'"
  by (simp add: at_next_def)

lemma at_next_on_kind:
  assumes "\<And>k. kinv k \<Longrightarrow> kinv (snd (m k))" and "\<And>k. kinv k \<Longrightarrow> nxt (snd (m k)) = nxt k"
  shows "pres (at_next n c v) (on_kind i m)"
  using assms by (auto simp: pres_def at_next_def hub_simps)

lemma at_next_unwind: "at_next n c v w \<Longrightarrow> at_next n c v (unwind H k c' w)"
  by (auto simp: at_next_def unwind_def unsubscribe_inv unsubscribe_nxt)

lemma at_next_same: "(\<And>w. w_kinds (snd (m w)) = w_kinds w) \<Longrightarrow> pres (at_next n c v) m"
  by (simp add: pres_def at_next_def)

lemma send_replay_kinds: "w_kinds (snd (send_replay H sid ob ps w)) = w_kinds w"
proof (induction ps arbitrary: w)
  case (Cons p ps)
  have "w_kinds (snd (send_frame H ob (PublicationFrame p) w)) = w_kinds w" by (simp add: hub_simps)
  with Cons show ?case by (cases "send_frame H ob (PublicationFrame p) w") (simp split: bool.splits)
qed simp

lemma get_session_kinds: "w_kinds (snd (get_session sid w)) = w_kinds w"
  by (simp add: get_session_def split: option.splits)

lemma require_claims_kinds: "w_kinds (snd (require_claims H r w)) = w_kinds w"
  by (simp add: require_claims_def hub_simps split: option.splits)

lemma enforce_acl_same: "snd (enforce_acl H cl act ch w) = w"
  by (simp add: enforce_acl_def split: sum.splits acl_decision.splits)

lemma attach_next: "pres (at_next n c v) (attach H sid ref ch k s)"
proof (rule presI)
  fix w assume w: "at_next n c v w"
  have "at_next n c v (abort_task H h (w\<lparr>w_rt := t\<rparr>))" for h t
    by (rule at_next_kinds [OF w]) (simp add: hub_simps)
  moreover have "at_next n c v (upd_registry f (upd_session ref g (w\<lparr>w_rt := t\<rparr>)))" for f g t
    by (rule at_next_kinds [OF w]) (simp add: hub_simps)
  ultimately show "at_next n c v (snd (attach H sid ref ch k s w))"
    by (auto simp: attach_def insert_subscription_def Let_def at_next_unwind
        split: option.splits prod.splits)
qed

lemma replay_next: "pres (at_next n c v) (replay H now sid ob ch since k s)"
proof -
  have "pres (at_next n c v) (send_replay H sid ob ps)" for ps
    by (rule at_next_same) (rule send_replay_kinds)
  from pres_try_bind [OF at_next_on_kind [OF replay_inv replay_nxt] this]
  have "pres (at_next n c v) (or_cleanup (\<lambda>w. drop_stream H s (unwind H k ch w))
      (try_bind (on_kind k (k_replay_since (hub_kops H) now ch since)) (send_replay H sid ob)))"
    by (rule pres_or_cleanup) (auto intro: at_next_kinds [OF at_next_unwind] simp: hub_simps)
  then show ?thesis unfolding replay_def by (auto intro: pres_ok)
qed

lemma handle_subscribe_next: "pres (at_next n c v) (handle_subscribe H now sid rid ch since)"
proof -
  have g: "pres (at_next n c v) (get_session sid)" by (rule at_next_same) (rule get_session_kinds)
  have r: "pres (at_next n c v) (require_claims H ref)" for ref
    by (rule at_next_same) (rule require_claims_kinds)
  have a: "pres (at_next n c v) (enforce_acl H cl ActSubscribe ch)" for cl
    by (rule at_next_same) (simp add: enforce_acl_same)
  have s: "pres (at_next n c v) (check_not_subscribed sid ref ch)" for ref
    by (rule at_next_same) (simp add: check_not_subscribed_def)
  have brk: "pres (at_next n c v)
      (or_cleanup (unwind H k ch) (on_broker (br_subscribe (hub_broker H) ch)))" for k
    by (rule pres_or_cleanup [OF at_next_same]) (simp_all add: hub_simps at_next_unwind)
  have tail: "pres (at_next n c v) (try_bind (replay H now sid ob ch since k s)
      (\<lambda>_. try_bind (attach H sid ref ch k s) (\<lambda>_. ok x)))" for ref s ob k and x :: subscribe_ok
    by (rule pres_try_bind [OF replay_next], rule pres_try_bind [OF attach_next], rule pres_ok)
  show ?thesis
    unfolding handle_subscribe_def Let_def
    by (rule pres_try_bind [OF g], rule pres_try_bind [OF r], rule pres_try_bind [OF a],
        rule pres_try_bind [OF s], rule pres_try_bind [OF at_next_on_kind [OF subscribe_inv subscribe_nxt]],
        assumption, assumption, rule pres_try_bind [OF brk], rule pres_state, rule tail)
qed

lemma handle_unsubscribe_next: "pres (at_next n c v) (handle_unsubscribe H sid rid ch)"
proof -
  have g: "pres (at_next n c v) (get_session sid)" by (rule at_next_same) (rule get_session_kinds)
  have d: "pres (at_next n c v) (detach H sid ref ch)" for ref
    by (rule at_next_same) (simp add: detach_def session_remove_subscription_def hub_simps split: option.splits)
  show ?thesis
    unfolding handle_unsubscribe_def
    by (rule pres_try_bind [OF g], rule pres_try_bind [OF d],
        rule pres_try_bind [OF at_next_on_kind [OF unsubscribe_inv unsubscribe_nxt]], assumption,
        assumption, rule pres_ok)
qed

text \<open>Steps that do not touch the kinds, before and after the one that does.\<close>

lemma kinds_valid_l:
  "(\<And>w. w_kinds (snd (m w)) = w_kinds w) \<Longrightarrow>
     valid (at_next n c v) m (\<lambda>_. at_next n c v) (\<lambda>w. at_next n c v w \<or> at_next n c v' w)"
  by (rule valid_mono [OF valid_of_inv [where P = "at_next n c v" and Q = "at_next n c v"]])
     (auto simp: at_next_def)

lemma kinds_valid_r:
  "(\<And>w. w_kinds (snd (m w)) = w_kinds w) \<Longrightarrow>
     valid (\<lambda>w. at_next n c v w \<or> at_next n c v' w) m (\<lambda>_ w. at_next n c v w \<or> at_next n c v' w)
       (\<lambda>w. at_next n c v w \<or> at_next n c v' w)"
  by (rule valid_of_inv) (auto simp: at_next_def)

lemma handle_publish_next:
  assumes "at_next n c v w" and "v \<noteq> - 1"
  shows "at_next n c v (snd (handle_publish H now sid ch d w)) \<or>
         at_next n c (v + 1) (snd (handle_publish H now sid ch d w))"
proof -
  let ?Q = "\<lambda>w. at_next n c v w \<or> at_next n c (v + 1) w"
  have k: "valid (at_next n c v) (on_kind i (k_on_publish (hub_kops H) now ch d)) (\<lambda>_. ?Q) ?Q" for i
  proof (rule valid_of_inv)
    fix w assume w: "at_next n c v w"
    let ?r = "k_on_publish (hub_kops H) now ch d (w_kinds w i)"
    have inv: "kinv (w_kinds w i)" using w by (simp add: at_next_def)
    have "nxt (snd ?r) c = nxt (w_kinds w i) c \<or>
        (nxt (w_kinds w i) c \<noteq> - 1 \<longrightarrow> nxt (snd ?r) c = nxt (w_kinds w i) c + 1)"
    proof (cases "ch = c")
      case True
      then show ?thesis
        using publish_err [OF inv, of now ch d] publish_nxt [OF inv, of now ch d]
        by (cases ?r; cases "fst ?r") auto
    qed (simp add: publish_others [OF inv])
    then show "?Q (snd (on_kind i (k_on_publish (hub_kops H) now ch d) w))"
      using w assms(2) publish_inv [OF inv] by (auto simp: at_next_def hub_simps)
  qed
  have "valid (at_next n c v) (handle_publish H now sid ch d) (\<lambda>_. ?Q) ?Q"
    unfolding handle_publish_def
    by (rule valid_try_bind [OF kinds_valid_l [OF get_session_kinds]],
        rule valid_try_bind [OF kinds_valid_l [OF require_claims_kinds]],
        rule valid_try_bind [OF kinds_valid_l], simp add: enforce_acl_same,
        rule valid_try_bind [OF kinds_valid_l], simp add: check_schema_def,
        rule valid_try_bind [OF k], rule valid_try_bind [OF kinds_valid_r], simp add: hub_simps,
        rule valid_try_bind [OF kinds_valid_r], simp add: count_publication_def, rule valid_ok, simp)
  then show ?thesis
    using assms(1)
    by (cases "handle_publish H now sid ch d w"; cases "fst (handle_publish H now sid ch d w)")
       (auto dest: validD)
qed

lemma step_next:
  assumes "hub_step H s s'" and "at_next n c v (snd s)" and "v \<noteq> - 1"
  shows "at_next n c v (snd s') \<or> at_next n c (v + 1) (snd s')"
  using assms
proof (induction rule: hub_step.induct)
  case (Open w outbox ref w' held)
  have "w_kinds w' = w_kinds w"
    using Open(2) by (auto simp: open_session_def hub_simps Let_def split: prod.splits option.splits)
  with Open show ?case by (simp add: at_next_def)
next
  case (ConnectStep held w now sid rid token)
  have "w_kinds (snd (handle_connect H now sid rid token w)) = w_kinds w"
    by (auto simp: handle_connect_def try_bind_def get_session_def hub_simps split: option.splits sum.splits)
  with ConnectStep show ?case by (simp add: at_next_def)
next
  case (SubscribeStep held w now sid rid channel since)
  then show ?case by (simp add: presD [OF handle_subscribe_next])
next
  case (UnsubscribeStep held w sid rid channel)
  then show ?case by (simp add: presD [OF handle_unsubscribe_next])
next
  case (PublishStep held w now sid channel data)
  then show ?case by (simp add: handle_publish_next)
next
  case (Close held w sid)
  have "w_kinds (close_session H sid w) = w_kinds w"
    by (auto simp: close_session_def hub_simps Let_def split: prod.splits option.splits)
  with Close show ?case by (simp add: at_next_def)
next
  case (Kick held w sid)
  have "w_kinds (snd (kick_session H sid w)) = w_kinds w"
    by (auto simp: kick_session_def hub_simps Let_def split: prod.splits option.splits)
  with Kick show ?case by (simp add: at_next_def)
next
  case (Release ref held w)
  then show ?case by (simp add: at_next_def hub_simps)
next
  case (Forward held w h)
  have "w_kinds (forward H h w) = w_kinds w"
    by (auto simp: forward_def send_frame_def hub_simps split: prod.splits option.splits
        stream_poll.splits bool.splits)
  with Forward show ?case by (simp add: at_next_def)
next
  case (Deliver held w outbox frame)
  then show ?case by (simp add: at_next_def hub_simps)
next
  case (HangUp held w outbox)
  then show ?case by (simp add: at_next_def hub_simps)
qed

text \<open>Along steps that do not start from the counter's last value, the next offset never falls.\<close>

lemma steps_next:
  assumes "(\<lambda>s s'. hub_step H s s' \<and> nxt (w_kinds (snd s) n) c \<noteq> - 1)\<^sup>*\<^sup>* s s'"
    and "at_next n c v (snd s)"
  shows "\<exists>v'. at_next n c v' (snd s') \<and> v \<le> v'"
  using assms
proof (induction rule: rtranclp_induct)
  case (step y z)
  then obtain v' where v': "at_next n c v' (snd y)" "v \<le> v'" by blast
  then have ne: "v' \<noteq> - 1" using step(2) by (simp add: at_next_def)
  have "v' \<le> v' + 1" using ne by (simp add: word_le_nat_alt u64_not_max unat_succ)
  then show ?case using step_next [OF conjunct1 [OF step(2)] v'(1) ne] v'(2) by (meson order_trans)
qed auto

lemma offsets_increase:
  assumes inv: "hub_inv held w" and p: "handle_publish H now sid c d w = (Inr p, w')"
    and ne: "pub_offset p \<noteq> - 1"
    and steps: "(\<lambda>s s'. hub_step H s s' \<and> nxt (w_kinds (snd s) (kind_for H c)) c \<noteq> - 1)\<^sup>*\<^sup>*
      (held, w') (held'', w'')"
    and p': "handle_publish H now' sid' c d' w'' = (Inr p', w3)"
  shows "pub_offset p < pub_offset p'"
proof -
  let ?n = "kind_for H c"
  have off: "pub_offset p = nxt (w_kinds w ?n) c" using publish_offset [OF inv p] by simp
  obtain k where k: "k_on_publish (hub_kops H) now c d (w_kinds w ?n) = (Inr p, k)"
    and w': "w_kinds w' = (w_kinds w)(?n := k)"
    using p by (auto simp: handle_publish_eq_Inr)
  have "nxt k c = pub_offset p + 1"
    using publish_nxt [OF hub_invD(4) [OF inv] k] ne off by simp
  moreover have "kinv k" using publish_inv [OF hub_invD(4) [OF inv], of now c d ?n] k by simp
  ultimately have "at_next ?n c (pub_offset p + 1) w'"
    using hub_invD(4) [OF inv] w' by (simp add: at_next_def)
  with steps_next [OF steps] obtain v where v: "at_next ?n c v w''" "pub_offset p + 1 \<le> v" by auto
  have "pub_offset p' = v"
    using p' publish_ok v(1) by (fastforce simp: handle_publish_eq_Inr at_next_def)
  moreover have "pub_offset p < pub_offset p + 1" using ne by (simp add: word_less_nat_alt u64_not_max unat_succ)
  ultimately show ?thesis using v(2) by simp
qed

end

section \<open>What the handlers push into outboxes\<close>

context hub_system
begin

text \<open>
  \<open>pushed w0 ob w\<close>: since \<open>w0\<close> only publications were pushed, and only into \<open>ob\<close>; sessions and
  outboxes are where they were.
\<close>

definition pushed :: "('k, 'b, 't) world \<Rightarrow> nat \<Rightarrow> ('k, 'b, 't) world \<Rightarrow> bool" where
  "pushed w0 ob w \<longleftrightarrow>
     (\<exists>ps. sent (w_rt w) = (sent (w_rt w0))(ob := sent (w_rt w0) ob @ map PublicationFrame ps)) \<and>
     closed (w_rt w) = closed (w_rt w0) \<and> reg_get (w_registry w) = reg_get (w_registry w0) \<and>
     (\<forall>r. s_outbox (w_store w r) = s_outbox (w_store w0 r))"

lemma pushed_refl: "pushed w ob w"
  by (auto simp: pushed_def intro: exI [of _ "[]"])

lemma pushed_frame:
  assumes "pushed w0 ob w" and "sent (w_rt w') = sent (w_rt w)" and "closed (w_rt w') = closed (w_rt w)"
    and "reg_get (w_registry w') = reg_get (w_registry w)"
    and "\<And>r. s_outbox (w_store w' r) = s_outbox (w_store w r)"
  shows "pushed w0 ob w'"
  using assms by (simp add: pushed_def)

lemma pushed_rt:
  "pushed w0 ob w \<Longrightarrow> w_rt w' = w_rt w \<Longrightarrow> w_registry w' = w_registry w \<Longrightarrow>
     (\<And>r. s_outbox (w_store w' r) = s_outbox (w_store w r)) \<Longrightarrow> pushed w0 ob w'"
  by (rule pushed_frame) simp_all

lemma pres_pushed_rt:
  "(\<And>w. w_rt (snd (m w)) = w_rt w) \<Longrightarrow> (\<And>w. w_registry (snd (m w)) = w_registry w) \<Longrightarrow>
     (\<And>w r. s_outbox (w_store (snd (m w)) r) = s_outbox (w_store w r)) \<Longrightarrow> pres (pushed w0 ob) m"
  by (rule presI, erule pushed_rt) simp_all

lemma pushed_abort:
  assumes "pushed w0 ob w" shows "pushed w0 ob (abort_task H h w)"
proof (rule pushed_frame [OF assms])
  show "sent (w_rt (abort_task H h w)) = sent (w_rt w)" "closed (w_rt (abort_task H h w)) = closed (w_rt w)"
    using stop_sent [of h "w_rt w"] by (simp_all add: abort_task_def drop_stream_def split: option.splits)
qed (simp_all add: hub_simps)

lemma pushed_send:
  assumes "pushed w0 ob w" shows "pushed w0 ob (snd (send_frame H ob (PublicationFrame p) w))"
proof -
  from assms obtain ps where
    ps: "sent (w_rt w) = (sent (w_rt w0))(ob := sent (w_rt w0) ob @ map PublicationFrame ps)"
    by (auto simp: pushed_def)
  have "sent (w_rt w0) ob @ map PublicationFrame ps @ [PublicationFrame p] =
      sent (w_rt w0) ob @ map PublicationFrame (ps @ [p])" by simp
  then show ?thesis
    using assms ps by (auto simp: pushed_def hub_simps send_sent send_closed simp del: map_append)
qed

lemma pushed_replay_loop:
  "pushed w0 ob w \<Longrightarrow> pushed w0 ob (snd (send_replay H sid ob ps w))"
proof (induction ps arbitrary: w)
  case (Cons p ps)
  have "pushed w0 ob (snd (send_frame H ob (PublicationFrame p) w))" by (rule pushed_send [OF Cons.prems])
  then show ?case
    using Cons.IH by (cases "send_frame H ob (PublicationFrame p) w") (simp split: bool.splits)
qed simp

lemma pushed_replay: "pres (pushed w0 ob) (replay H now sid ob c since k s)"
proof -
  have k: "pres (pushed w0 ob) (on_kind k m)" for m :: "('k, channel_error, publication list) comp"
    by (rule pres_pushed_rt) (simp_all add: hub_simps)
  have "pres (pushed w0 ob) (send_replay H sid ob ps)" for ps
    by (rule presI) (rule pushed_replay_loop)
  from pres_try_bind [OF k this]
  have "pres (pushed w0 ob) (or_cleanup (\<lambda>w. drop_stream H s (unwind H k c w))
      (try_bind (on_kind k (k_replay_since (hub_kops H) now c since)) (send_replay H sid ob)))"
    by (rule pres_or_cleanup) (erule pushed_rt, simp_all add: hub_simps)
  then show ?thesis unfolding replay_def by (auto intro: pres_ok)
qed

lemma pushed_attach: "pres (pushed w0 ob) (attach H sid ref c k s)"
proof (rule presI)
  fix w assume w: "pushed w0 ob w"
  let ?f = "\<lparr>fw_channel = c, fw_stream = s, fw_outbox = s_outbox (w_store w ref)\<rparr>"
  obtain h t where sp: "rt_spawn (hub_rt H) ?f (w_rt w) = (h, t)"
    by (cases "rt_spawn (hub_rt H) ?f (w_rt w)")
  have w1: "pushed w0 ob (w\<lparr>w_rt := t\<rparr>)"
    by (rule pushed_frame [OF w]) (use spawn_sent [OF sp] in simp_all)
  have "pushed w0 ob (unwind H k c (abort_task H h (w\<lparr>w_rt := t\<rparr>)))"
    by (rule pushed_rt [OF pushed_abort [OF w1, of h]]) (simp_all add: hub_simps)
  moreover have "pushed w0 ob (upd_registry (add_subscription sid c) (upd_session ref (\<lambda>_. (w_store w ref)
      \<lparr>s_subscriptions := AList.update c h (s_subscriptions (w_store w ref))\<rparr>) (w\<lparr>w_rt := t\<rparr>)))"
    by (rule pushed_frame [OF w1]) (simp_all add: hub_simps reg_simps)
  ultimately show "pushed w0 ob (snd (attach H sid ref c k s w))"
    by (simp add: attach_def sp insert_subscription_def Let_def split: option.splits)
qed

lemma pushed_require: "pres (pushed w0 ob) (require_claims H ref)"
  by (rule pres_pushed_rt)
     (auto simp: require_claims_def set_claims_def hub_simps split: option.splits)

lemma subscribe_pushed:
  assumes "reg_get (w_registry w0) sid = Some ref" and ob: "ob = s_outbox (w_store w0 ref)"
  shows "pushed w0 ob (snd (handle_subscribe H now sid rid c since w0))"
proof -
  have k: "pres (pushed w0 ob) (on_kind k m)" for k and m :: "('k, channel_error, channel_cursor) comp"
    by (rule pres_pushed_rt) (simp_all add: hub_simps)
  have a: "pres (pushed w0 ob) (enforce_acl H cl ActSubscribe c)" for cl
    by (rule pres_pushed_rt) (simp_all add: enforce_acl_same)
  have s: "pres (pushed w0 ob) (check_not_subscribed sid r c)" for r
    by (rule pres_pushed_rt) (simp_all add: check_not_subscribed_def)
  have brk: "pres (pushed w0 ob)
      (or_cleanup (unwind H k c) (on_broker (br_subscribe (hub_broker H) c)))" for k
    by (rule pres_or_cleanup [OF pres_pushed_rt]) (simp_all add: hub_simps, erule pushed_rt, simp_all add: hub_simps)
  have tail: "pres (pushed w0 ob) (\<lambda>w. try_bind (replay H now sid (s_outbox (w_store w ref)) c since k st)
      (\<lambda>_. try_bind (attach H sid ref c k st) (\<lambda>_. ok x)) w)" for st k and x :: subscribe_ok
  proof (rule presI)
    fix w assume w: "pushed w0 ob w"
    then have o': "s_outbox (w_store w ref) = ob" by (simp add: pushed_def ob)
    have "pres (pushed w0 ob) (try_bind (replay H now sid ob c since k st)
        (\<lambda>_. try_bind (attach H sid ref c k st) (\<lambda>_. ok x)))"
      by (rule pres_try_bind [OF pushed_replay], rule pres_try_bind [OF pushed_attach], rule pres_ok)
    from presD [OF this w] show "pushed w0 ob (snd (try_bind (replay H now sid (s_outbox (w_store w ref)) c since k st)
      (\<lambda>_. try_bind (attach H sid ref c k st) (\<lambda>_. ok x)) w))" by (simp add: o')
  qed
  have "pres (pushed w0 ob) (try_bind (require_claims H ref) (\<lambda>claims.
     try_bind (enforce_acl H claims ActSubscribe c) (\<lambda>_.
     try_bind (check_not_subscribed sid ref c) (\<lambda>_.
     try_bind (on_kind (kind_for H c) (k_on_subscribe (hub_kops H) c)) (\<lambda>cursor.
     try_bind (or_cleanup (unwind H (kind_for H c) c) (on_broker (br_subscribe (hub_broker H) c)))
       (\<lambda>stream w. try_bind (replay H now sid (s_outbox (w_store w ref)) c since (kind_for H c) stream)
         (\<lambda>_. try_bind (attach H sid ref c (kind_for H c) stream) (\<lambda>_.
     ok \<lparr>subok_request_id = rid, subok_channel = c, subok_epoch = cur_epoch cursor,
         subok_offset = cur_offset cursor\<rparr>)) w))))))"
    by (rule pres_try_bind [OF pushed_require], rule pres_try_bind [OF a], rule pres_try_bind [OF s],
        rule pres_try_bind [OF k], rule pres_try_bind [OF brk], rule tail)
  from presD [OF this pushed_refl [of w0 ob]] show ?thesis
    by (simp add: handle_subscribe_def try_bind_def [of "get_session sid"] get_session_def assms(1) Let_def)
qed

text \<open>What exactly an accepted subscribe pushes: the publications the kind replays.\<close>

lemma send_replay_sent:
  "send_replay H sid ob ps w = (Inr u, w') \<Longrightarrow>
     sent (w_rt w') = (sent (w_rt w))(ob := sent (w_rt w) ob @ map PublicationFrame ps)"
proof (induction ps arbitrary: w)
  case (Cons p ps)
  let ?f = "send_frame H ob (PublicationFrame p) w"
  from Cons.prems have f: "fst ?f" and r: "send_replay H sid ob ps (snd ?f) = (Inr u, w')"
    by (cases ?f; simp split: bool.splits)+
  have "sent (w_rt (snd ?f)) = (sent (w_rt w))(ob := sent (w_rt w) ob @ [PublicationFrame p])"
    using f by (simp add: hub_simps send_ok send_sent)
  with Cons.IH [OF r] show ?case by (simp add: fun_eq_iff)
qed simp

lemma replay_sent:
  assumes "replay H now sid ob c since k s w = (Inr u, w')"
  shows "\<exists>ps. sent (w_rt w') = (sent (w_rt w))(ob := sent (w_rt w) ob @ map PublicationFrame ps) \<and>
     (if since = 0 then ps = [] else fst (k_replay_since (hub_kops H) now c since (w_kinds w k)) = Inr ps)"
proof (cases "since = 0")
  case False
  then have "since > 0" by (simp add: word_gt_0)
  with assms obtain ps ks where "k_replay_since (hub_kops H) now c since (w_kinds w k) = (Inr ps, ks)"
    and "send_replay H sid ob ps (w\<lparr>w_kinds := (w_kinds w)(k := ks)\<rparr>) = (Inr u, w')"
    by (auto simp: replay_def or_cleanup_eq_Inr try_bind_eq_Inr on_kind_eq_Inr)
  with False send_replay_sent show ?thesis by fastforce
qed (use assms in \<open>auto simp: replay_def ok_def\<close>)

lemma attach_sent:
  "attach H sid ref c k s w = (Inr u, w') \<Longrightarrow> sent (w_rt w') = sent (w_rt w)"
  using spawn_sent
  by (fastforce simp: attach_def insert_subscription_def hub_simps Let_def split: prod.splits option.splits)

lemma subscribe_sent:
  assumes "handle_subscribe H now sid rid c since w = (Inr ack, w')"
  shows "\<exists>ref ps ks. reg_get (w_registry w) sid = Some ref \<and>
     sent (w_rt w') = (sent (w_rt w))(s_outbox (w_store w ref) :=
       sent (w_rt w) (s_outbox (w_store w ref)) @ map PublicationFrame ps) \<and>
     ks = snd (k_on_subscribe (hub_kops H) c (w_kinds w (kind_for H c))) \<and>
     (if since = 0 then ps = [] else fst (k_replay_since (hub_kops H) now c since ks) = Inr ps)"
proof -
  from subscribe_run [OF assms] obtain ref cur ks s b w2 where ref: "reg_get (w_registry w) sid = Some ref"
    and ks: "k_on_subscribe (hub_kops H) c (w_kinds w (kind_for H c)) = (Inr cur, ks)"
    and rp: "replay H now sid (s_outbox (w_store w ref)) c since (kind_for H c) s
       ((with_acting H ref w)\<lparr>w_kinds := (w_kinds w)(kind_for H c := ks), w_broker := b\<rparr>) = (Inr (), w2)"
    and att: "attach H sid ref c (kind_for H c) s w2 = (Inr (), w')" by blast
  from replay_sent [OF rp] attach_sent [OF att] ref ks show ?thesis by auto
qed

lemma unsubscribe_pushed: "pushed w0 ob (snd (handle_unsubscribe H sid rid c w0))"
proof -
  have g: "pres (pushed w0 ob) (get_session sid)"
    by (rule pres_pushed_rt) (simp_all add: get_session_def split: option.splits)
  have d: "pres (pushed w0 ob) (detach H sid ref c)" for ref
  proof (rule presI)
    fix w assume w: "pushed w0 ob w"
    let ?u = "upd_session ref (\<lambda>_. (w_store w ref)
      \<lparr>s_subscriptions := AList.delete c (s_subscriptions (w_store w ref))\<rparr>) w"
    have u: "pushed w0 ob ?u" by (rule pushed_rt [OF w]) (simp_all add: hub_simps)
    have "pushed w0 ob (upd_registry (reg_remove_subscription sid c) (abort_task H h ?u))" for h
      by (rule pushed_frame [OF pushed_abort [OF u, of h]]) (simp_all add: hub_simps reg_simps)
    with w show "pushed w0 ob (snd (detach H sid ref c w))"
      by (simp add: detach_def session_remove_subscription_def split: option.splits)
  qed
  have k: "pres (pushed w0 ob) (on_kind k m)" for k and m :: "('k, channel_error, unit) comp"
    by (rule pres_pushed_rt) (simp_all add: hub_simps)
  have "pres (pushed w0 ob) (handle_unsubscribe H sid rid c)"
    unfolding handle_unsubscribe_def
    by (rule pres_try_bind [OF g], rule pres_try_bind [OF d], rule pres_try_bind [OF k], rule pres_ok)
  from presD [OF this pushed_refl] show ?thesis .
qed

lemma publish_pushed: "pushed w0 ob (snd (handle_publish H now sid c d w0))"
proof -
  have g: "pres (pushed w0 ob) (get_session sid)"
    by (rule pres_pushed_rt) (simp_all add: get_session_def split: option.splits)
  have a: "pres (pushed w0 ob) (enforce_acl H cl ActPublish c)" for cl
    by (rule pres_pushed_rt) (simp_all add: enforce_acl_same)
  have s: "pres (pushed w0 ob) (check_schema H c d)"
    by (rule pres_pushed_rt) (simp_all add: check_schema_def)
  have k: "pres (pushed w0 ob) (on_kind k m)" for k and m :: "('k, channel_error, publication) comp"
    by (rule pres_pushed_rt) (simp_all add: hub_simps)
  have b: "pres (pushed w0 ob) (on_broker m)" for m :: "('b, broker_error, unit) comp"
    by (rule pres_pushed_rt) (simp_all add: hub_simps)
  have n: "pres (pushed w0 ob) count_publication"
    by (rule pres_pushed_rt) (simp_all add: count_publication_def)
  have "pres (pushed w0 ob) (handle_publish H now sid c d)"
    unfolding handle_publish_def
    by (rule pres_try_bind [OF g], rule pres_try_bind [OF pushed_require], rule pres_try_bind [OF a],
        rule pres_try_bind [OF s], rule pres_try_bind [OF k], rule pres_try_bind [OF b],
        rule pres_try_bind [OF n], rule pres_ok)
  from presD [OF this pushed_refl] show ?thesis .
qed

lemma connect_pushed: "pushed w0 ob (snd (handle_connect H now sid rid token w0))"
proof -
  have "pres (pushed w0 ob) (handle_connect H now sid rid token)"
    by (rule pres_pushed_rt)
       (auto simp: handle_connect_def try_bind_def get_session_def set_claims_def hub_simps
          split: option.splits sum.splits)
  from presD [OF this pushed_refl] show ?thesis .
qed

end

text \<open>The acknowledgements carry the request's id and channel.\<close>

lemma subscribe_ack:
  "handle_subscribe H now sid rid c since w = (Inr ack, w') \<Longrightarrow>
     subok_request_id ack = rid \<and> subok_channel ack = c"
  by (auto simp: handle_subscribe_def try_bind_eq_Inr Let_def ok_def)

lemma unsubscribe_ack:
  "handle_unsubscribe H sid rid c w = (Inr ack, w') \<Longrightarrow>
     unsubok_request_id ack = rid \<and> unsubok_channel ack = c"
  by (auto simp: handle_unsubscribe_def try_bind_eq_Inr ok_def)

lemma connect_ack:
  "handle_connect H now sid rid token w = (Inr ack, w') \<Longrightarrow> connok_request_id ack = rid"
  by (auto simp: handle_connect_def try_bind_eq_Inr split: if_splits sum.splits)

end
