(* ===== verification/Ws.thy ===== *)
theory Ws
  imports HubFlow Config
begin

text \<open>
  \<open>cherenkov-transport-ws/src/lib.rs\<close>: the WebSocket transport. Accepting connections and the
  socket itself are outside; what one connection does with the messages it reads, the replies it
  queues and how it ends are modelled. The frames a connection writes are its outbox, each encoded
  by \<open>encode_server\<close>.
\<close>

section \<open>Building the transport\<close>

definition WS_DEFAULT_PATH :: string where "WS_DEFAULT_PATH = ''/connect/v1''"

definition WS_DEFAULT_OUTBOX_CAPACITY :: nat where "WS_DEFAULT_OUTBOX_CAPACITY = 1024"

record ws_builder =
  wb_listen :: socket_addr
  wb_path :: string
  wb_outbox_capacity :: nat

record ('k, 'b, 't) ws_transport =
  wt_hub :: "('k, 'b, 't) hub"
  wt_listen :: socket_addr
  wt_path :: string
  wt_outbox_capacity :: nat

definition ws_builder_new :: "socket_addr \<Rightarrow> ws_builder" where
  "ws_builder_new listen = \<lparr>wb_listen = listen, wb_path = WS_DEFAULT_PATH,
     wb_outbox_capacity = WS_DEFAULT_OUTBOX_CAPACITY\<rparr>"

definition ws_with_path :: "string \<Rightarrow> ws_builder \<Rightarrow> ws_builder" where
  "ws_with_path path b = b\<lparr>wb_path := path\<rparr>"

definition ws_with_outbox_capacity :: "nat \<Rightarrow> ws_builder \<Rightarrow> ws_builder" where
  "ws_with_outbox_capacity capacity b = b\<lparr>wb_outbox_capacity := max capacity 1\<rparr>"

definition ws_build :: "('k, 'b, 't) hub \<Rightarrow> ws_builder \<Rightarrow> ('k, 'b, 't) ws_transport" where
  "ws_build hub b = \<lparr>wt_hub = hub, wt_listen = wb_listen b, wt_path = wb_path b,
     wt_outbox_capacity = wb_outbox_capacity b\<rparr>"

section \<open>Requests and replies\<close>

datatype ws_message = Binary bytes | Text string | Ping bytes | Pong bytes | CloseMsg

fun error_code_for :: "hub_error \<Rightarrow> error_code" where
  "error_code_for (SchemaErr _) = ValidationFailed"
| "error_code_for (AuthErr _) = InvalidTokenCode"
| "error_code_for (AclErr _) = AclDeniedCode"
| "error_code_for (NotConnected _) = NotConnectedCode"
| "error_code_for _ = Internal"

text \<open>A reply to a session that is gone, or whose outbox is closed, is dropped.\<close>

definition deliver ::
    "('k, 'b, 't) hub \<Rightarrow> u64 \<Rightarrow> server_frame \<Rightarrow> ('k, 'b, 't) world \<Rightarrow> ('k, 'b, 't) world" where
  "deliver H sid frame w =
     (case reg_get (w_registry w) sid of
        None \<Rightarrow> w
      | Some ref \<Rightarrow> snd (send_frame H (s_outbox (w_store w ref)) frame w))"

definition error_frame :: "u64 \<Rightarrow> hub_error \<Rightarrow> server_frame" where
  "error_frame rid e = ErrorFrame \<lparr>err_request_id = rid, err_code = error_code_u32 (error_code_for e),
     err_message = hub_error_msg e\<rparr>"

fun handle_frame ::
    "('k, 'b, 't) hub \<Rightarrow> instant \<Rightarrow> u64 \<Rightarrow> client_frame \<Rightarrow> ('k, 'b, 't) world \<Rightarrow> ('k, 'b, 't) world" where
  "handle_frame H now sid (Subscribe sub) w =
     (case handle_subscribe H now sid (sub_request_id sub) (sub_channel sub) (sub_since_offset sub) w of
        (Inr ack, w') \<Rightarrow> deliver H sid (SubscribeOk ack) w'
      | (Inl e, w') \<Rightarrow> deliver H sid (error_frame (sub_request_id sub) e) w')"
| "handle_frame H now sid (Unsubscribe unsub) w =
     (case handle_unsubscribe H sid (unsub_request_id unsub) (unsub_channel unsub) w of
        (Inr ack, w') \<Rightarrow> deliver H sid (UnsubscribeOk ack) w'
      | (Inl e, w') \<Rightarrow> deliver H sid (error_frame (unsub_request_id unsub) e) w')"
| "handle_frame H now sid (Publish p) w =
     (case handle_publish H now sid (publish_channel p) (publish_data p) w of
        (Inr _, w') \<Rightarrow> w'
      | (Inl e, w') \<Rightarrow> deliver H sid (error_frame (publish_request_id p) e) w')"
| "handle_frame H now sid (Connect c) w =
     (case handle_connect H now sid (conn_request_id c) (conn_token c) w of
        (Inr ack, w') \<Rightarrow> deliver H sid (ConnectOk ack) w'
      | (Inl e, w') \<Rightarrow> deliver H sid (error_frame (conn_request_id c) e) w')"

text \<open>The decoder and the display of its errors.\<close>

record 'pe codec =
  cd_prost :: "'pe prost"
  cd_show :: "'pe \<Rightarrow> string"

definition invalid_frame :: "'pe codec \<Rightarrow> 'pe decode_error \<Rightarrow> server_frame" where
  "invalid_frame C e = ErrorFrame \<lparr>err_request_id = 0, err_code = error_code_u32 InvalidFrame,
     err_message = ''invalid frame: '' @ decode_error_msg (cd_show C) e\<rparr>"

text \<open>False when the socket should be closed after the message.\<close>

fun ws_dispatch ::
    "'pe codec \<Rightarrow> ('k, 'b, 't) hub \<Rightarrow> instant \<Rightarrow> u64 \<Rightarrow> ws_message \<Rightarrow> ('k, 'b, 't) world \<Rightarrow>
     bool \<times> ('k, 'b, 't) world" where
  "ws_dispatch C H now sid (Binary bs) w =
     (case decode_client (cd_prost C) bs of
        Inr frame \<Rightarrow> (True, handle_frame H now sid frame w)
      | Inl e \<Rightarrow> (False, deliver H sid (invalid_frame C e) w))"
| "ws_dispatch C H now sid (Text _) w = (True, w)"
| "ws_dispatch C H now sid (Ping _) w = (True, w)"
| "ws_dispatch C H now sid (Pong _) w = (True, w)"
| "ws_dispatch C H now sid CloseMsg w = (False, w)"

section \<open>A connection\<close>

text \<open>
  A connection reads messages until its loop is left: the socket ends or fails, the writer stops, the
  hub kicks the session, or a message asks for it. Then the session is closed and the transport's
  handle dropped. Between its own steps the rest of the server takes any steps of the hub.
\<close>

text \<open>Accepting a socket: a session is opened on a new outbox, whose receiver the writer task owns.\<close>

definition ws_accept :: "('k, 'b, 't) hub \<Rightarrow> nat \<Rightarrow> ('k, 'b, 't) world \<Rightarrow> u64 \<times> nat \<times> ('k, 'b, 't) world" where
  "ws_accept H outbox w =
     (case open_session H outbox w of (ref, w') \<Rightarrow> (s_id (w_store w' ref), ref, w'))"

text \<open>The writer task: one binary message for each frame it receives, in order.\<close>

definition ws_writer :: "'pe codec \<Rightarrow> server_frame list \<Rightarrow> ws_message list" where
  "ws_writer C frames = map (\<lambda>frame. Binary (encode_server (cd_prost C) frame)) frames"

text \<open>
  What follows the loop: the writer is aborted and with it the outbox's receiver dropped, the session
  closed and, at the end of the function, the transport's handle dropped.
\<close>

definition teardown :: "('k, 'b, 't) hub \<Rightarrow> u64 \<Rightarrow> nat \<Rightarrow> ('k, 'b, 't) world \<Rightarrow> ('k, 'b, 't) world" where
  "teardown H sid ref w =
     arc_drop H ref (close_session H sid (hang_up H (s_outbox (w_store w ref)) w))"

datatype phase = Reading | Leaving | Done

type_synonym ('k, 'b, 't) conn_state = "phase \<times> nat set \<times> ('k, 'b, 't) world"

inductive ws_step ::
    "'pe codec \<Rightarrow> ('k, 'b, 't) hub \<Rightarrow> u64 \<Rightarrow> nat \<Rightarrow> ('k, 'b, 't) conn_state \<Rightarrow> ('k, 'b, 't) conn_state \<Rightarrow> bool"
  for C :: "'pe codec" and H :: "('k, 'b, 't) hub" and sid :: u64 and ref :: nat where
  Elsewhere: "hub_step H (held, w) (held', w') \<Longrightarrow> ref \<in> held \<longleftrightarrow> ref \<in> held' \<Longrightarrow>
    ws_step C H sid ref (ph, held, w) (ph, held', w')"
| Read: "ws_dispatch C H now sid msg w = (True, w') \<Longrightarrow>
    ws_step C H sid ref (Reading, held, w) (Reading, held, w')"
| ReadLast: "ws_dispatch C H now sid msg w = (False, w') \<Longrightarrow>
    ws_step C H sid ref (Reading, held, w) (Leaving, held, w')"
| Leave: "ws_step C H sid ref (Reading, held, w) (Leaving, held, w)"
| Finish: "ref \<in> held \<Longrightarrow>
    ws_step C H sid ref (Leaving, held, w) (Done, held - {ref}, teardown H sid ref w)"

section \<open>A connection only takes steps of the hub\<close>

lemma deliver_steps: "(hub_step H)\<^sup>*\<^sup>* (held, w) (held, deliver H sid frame w)"
  by (auto simp: deliver_def split: option.splits intro: r_into_rtranclp hub_step.Deliver)

lemma then_deliver:
  "hub_step H (held, w) (held, w') \<Longrightarrow> (hub_step H)\<^sup>*\<^sup>* (held, w) (held, deliver H sid frame w')"
  by (rule converse_rtranclp_into_rtranclp [OF _ deliver_steps])

lemma handle_frame_steps: "(hub_step H)\<^sup>*\<^sup>* (held, w) (held, handle_frame H now sid frame w)"
proof (cases frame)
  case (Subscribe s)
  have "hub_step H (held, w)
      (held, snd (handle_subscribe H now sid (sub_request_id s) (sub_channel s) (sub_since_offset s) w))"
    by (rule hub_step.SubscribeStep)
  then show ?thesis by (auto simp: Subscribe split: prod.splits sum.splits intro: then_deliver)
next
  case (Unsubscribe u)
  have "hub_step H (held, w) (held, snd (handle_unsubscribe H sid (unsub_request_id u) (unsub_channel u) w))"
    by (rule hub_step.UnsubscribeStep)
  then show ?thesis by (auto simp: Unsubscribe split: prod.splits sum.splits intro: then_deliver)
next
  case (Publish p)
  have "hub_step H (held, w)
      (held, snd (handle_publish H now sid (publish_channel p) (publish_data p) w))"
    by (rule hub_step.PublishStep)
  then show ?thesis by (auto simp: Publish split: prod.splits sum.splits intro: then_deliver)
next
  case (Connect c)
  have "hub_step H (held, w) (held, snd (handle_connect H now sid (conn_request_id c) (conn_token c) w))"
    by (rule hub_step.ConnectStep)
  then show ?thesis by (auto simp: Connect split: prod.splits sum.splits intro: then_deliver)
qed

lemma ws_dispatch_steps:
  "ws_dispatch C H now sid msg w = (r, w') \<Longrightarrow> (hub_step H)\<^sup>*\<^sup>* (held, w) (held, w')"
  by (cases msg) (auto split: sum.splits intro: handle_frame_steps deliver_steps)

lemma finish_steps:
  "ref \<in> held \<Longrightarrow> (hub_step H)\<^sup>*\<^sup>* (held, w) (held - {ref}, teardown H sid ref w)"
  unfolding teardown_def
  by (meson converse_rtranclp_into_rtranclp hub_step.HangUp hub_step.Close hub_step.Release r_into_rtranclp)

lemma ws_step_hub: "ws_step C H sid ref s s' \<Longrightarrow> (hub_step H)\<^sup>*\<^sup>* (snd s) (snd s')"
  by (induction rule: ws_step.induct) (auto intro: ws_dispatch_steps finish_steps)

lemma ws_steps_hub: "(ws_step C H sid ref)\<^sup>*\<^sup>* s s' \<Longrightarrow> (hub_step H)\<^sup>*\<^sup>* (snd s) (snd s')"
  by (induction rule: rtranclp_induct) (auto dest: ws_step_hub)

lemma reachable_steps: "(hub_step H)\<^sup>*\<^sup>* s s' \<Longrightarrow> reachable H w0 s \<Longrightarrow> reachable H w0 s'"
  by (induction rule: rtranclp_induct) (auto intro: reachable.Step)

section \<open>Every request is answered\<close>

fun request_id :: "client_frame \<Rightarrow> u64" where
  "request_id (Subscribe s) = sub_request_id s"
| "request_id (Unsubscribe u) = unsub_request_id u"
| "request_id (Publish p) = publish_request_id p"
| "request_id (Connect c) = conn_request_id c"

text \<open>What may answer a request: its own acknowledgement or an error, with the request's id.\<close>

fun answers :: "client_frame \<Rightarrow> server_frame list \<Rightarrow> bool" where
  "answers (Publish p) [] \<longleftrightarrow> True"
| "answers f [ErrorFrame e] \<longleftrightarrow> err_request_id e = request_id f"
| "answers (Subscribe s) [SubscribeOk a] \<longleftrightarrow>
     subok_request_id a = sub_request_id s \<and> subok_channel a = sub_channel s"
| "answers (Unsubscribe u) [UnsubscribeOk a] \<longleftrightarrow>
     unsubok_request_id a = unsub_request_id u \<and> unsubok_channel a = unsub_channel u"
| "answers (Connect c) [ConnectOk a] \<longleftrightarrow> connok_request_id a = conn_request_id c"
| "answers _ _ \<longleftrightarrow> False"

lemma answers_error [simp]: "answers f [error_frame rid e] \<longleftrightarrow> rid = request_id f"
  by (cases f) (auto simp: error_frame_def)

context hub_system
begin

lemma pushed_deliver:
  assumes "pushed w0 ob w" and "reg_get (w_registry w0) sid = Some ref" and "ob = s_outbox (w_store w0 ref)"
    and "\<not> closed (w_rt w0) ob"
  shows "\<exists>ps. sent (w_rt (deliver H sid frame w)) =
    (sent (w_rt w0))(ob := sent (w_rt w0) ob @ map PublicationFrame ps @ [frame])"
proof -
  from assms(1) obtain ps where
    ps: "sent (w_rt w) = (sent (w_rt w0))(ob := sent (w_rt w0) ob @ map PublicationFrame ps)"
    and "reg_get (w_registry w) sid = Some ref" "s_outbox (w_store w ref) = ob" "\<not> closed (w_rt w) ob"
    using assms(2-4) by (auto simp: pushed_def)
  then have "sent (w_rt (deliver H sid frame w)) =
      (sent (w_rt w0))(ob := sent (w_rt w0) ob @ map PublicationFrame ps @ [frame])"
    by (simp add: deliver_def hub_simps send_sent)
  then show ?thesis by blast
qed

lemma handle_frame_answers:
  assumes reg: "reg_get (w_registry w) sid = Some ref" and ob: "ob = s_outbox (w_store w ref)"
    and opened: "\<not> closed (w_rt w) ob"
  shows "\<exists>ps rs. sent (w_rt (handle_frame H now sid frame w)) =
      (sent (w_rt w))(ob := sent (w_rt w) ob @ map PublicationFrame ps @ rs) \<and> answers frame rs"
proof (cases frame)
  case (Subscribe s)
  let ?r = "handle_subscribe H now sid (sub_request_id s) (sub_channel s) (sub_since_offset s) w"
  have "pushed w ob (snd ?r)" by (rule subscribe_pushed [OF reg ob])
  note del = pushed_deliver [OF this reg ob opened]
  show ?thesis
  proof (cases ?r)
    case (Pair r w')
    then show ?thesis
      using del subscribe_ack [of H now sid _ _ _ w _ w'] Subscribe
      by (cases r) (fastforce intro: exI [of _ "[SubscribeOk _]"])+
  qed
next
  case (Unsubscribe u)
  let ?r = "handle_unsubscribe H sid (unsub_request_id u) (unsub_channel u) w"
  note del = pushed_deliver [OF unsubscribe_pushed [of w ob sid "unsub_request_id u" "unsub_channel u"] reg ob opened]
  show ?thesis
  proof (cases ?r)
    case (Pair r w')
    then show ?thesis
      using del unsubscribe_ack [of H sid _ _ w _ w'] Unsubscribe by (cases r) fastforce+
  qed
next
  case (Publish p)
  let ?r = "handle_publish H now sid (publish_channel p) (publish_data p) w"
  note pu = publish_pushed [of w ob now sid "publish_channel p" "publish_data p"]
  show ?thesis
  proof (cases ?r)
    case (Pair r w')
    show ?thesis
    proof (cases r)
      case (Inl e)
      then show ?thesis using pushed_deliver [OF pu reg ob opened] Pair Publish by fastforce
    next
      case (Inr x)
      then obtain ps where
        "sent (w_rt w') = (sent (w_rt w))(ob := sent (w_rt w) ob @ map PublicationFrame ps)"
        using pu Pair by (auto simp: pushed_def)
      then show ?thesis using Inr Pair Publish by (intro exI [of _ ps] exI [of _ "[]"]) simp
    qed
  qed
next
  case (Connect c)
  let ?r = "handle_connect H now sid (conn_request_id c) (conn_token c) w"
  note del = pushed_deliver [OF connect_pushed [of w ob now sid "conn_request_id c" "conn_token c"] reg ob opened]
  show ?thesis
  proof (cases ?r)
    case (Pair r w')
    then show ?thesis
      using del connect_ack [of H now sid _ _ w _ w'] Connect by (cases r) fastforce+
  qed
qed

end

end
