(* ===== verification/Wt.thy ===== *)
theory Wt
  imports Ws
begin

text \<open>
  \<open>cherenkov-transport-wt/src/lib.rs\<close>: the WebTransport transport. A connection is one
  bidirectional byte stream in which every frame is preceded by its length as four bytes, most
  significant first. The QUIC endpoint (\<open>wtransport\<close>) is a parameter.
\<close>

section \<open>Building the transport\<close>

definition WT_DEFAULT_OUTBOX_CAPACITY :: nat where "WT_DEFAULT_OUTBOX_CAPACITY = 1024"

datatype wt_error = EndpointSetup string

fun wt_error_msg :: "wt_error \<Rightarrow> string" where
  "wt_error_msg (EndpointSetup m) = ''WebTransport endpoint setup failed: '' @ m"

record 'i wt_builder =
  wtb_listen :: socket_addr
  wtb_identity :: 'i
  wtb_outbox_capacity :: nat

record ('k, 'b, 't, 'e) wt_transport =
  wtt_hub :: "('k, 'b, 't) hub"
  wtt_endpoint :: 'e
  wtt_outbox_capacity :: nat

definition wt_builder_new :: "socket_addr \<Rightarrow> 'i \<Rightarrow> 'i wt_builder" where
  "wt_builder_new listen identity = \<lparr>wtb_listen = listen, wtb_identity = identity,
     wtb_outbox_capacity = WT_DEFAULT_OUTBOX_CAPACITY\<rparr>"

definition wt_with_outbox_capacity :: "nat \<Rightarrow> 'i wt_builder \<Rightarrow> 'i wt_builder" where
  "wt_with_outbox_capacity capacity b = b\<lparr>wtb_outbox_capacity := max capacity 1\<rparr>"

text \<open>\<open>endpoint\<close> is \<open>Endpoint::server\<close> on the configured address and identity.\<close>

definition wt_build ::
    "(socket_addr \<Rightarrow> 'i \<Rightarrow> (string, 'e) result) \<Rightarrow> ('k, 'b, 't) hub \<Rightarrow> 'i wt_builder \<Rightarrow>
     (wt_error, ('k, 'b, 't, 'e) wt_transport) result" where
  "wt_build endpoint hub b =
     (case endpoint (wtb_listen b) (wtb_identity b) of
        Inl e \<Rightarrow> Inl (EndpointSetup e)
      | Inr ep \<Rightarrow> Inr \<lparr>wtt_hub = hub, wtt_endpoint = ep, wtt_outbox_capacity = wtb_outbox_capacity b\<rparr>)"

section \<open>Framing\<close>

definition to_be_bytes :: "u32 \<Rightarrow> bytes" where
  "to_be_bytes n = map (\<lambda>i. of_nat (unat n div 256 ^ i)) [3, 2, 1, 0]"

definition from_be_bytes :: "bytes \<Rightarrow> u32" where
  "from_be_bytes bs = of_nat (foldl (\<lambda>a b. a * 256 + unat b) 0 bs)"

definition MAX_FRAME :: nat where "MAX_FRAME = 16 * 1024 * 1024"

text \<open>What the writer task puts on the stream for one frame; \<open>as u32\<close> truncates.\<close>

definition wt_frame :: "bytes \<Rightarrow> bytes" where
  "wt_frame bs = to_be_bytes (of_nat (length bs)) @ bs"

text \<open>
  One round of the reader: the length, then that many bytes. A read that finds the stream ended
  (\<open>Incomplete\<close>) or a length above the limit leaves the loop.
\<close>

datatype wt_read = Frame bytes bytes | TooLong | Incomplete

definition wt_next :: "bytes \<Rightarrow> wt_read" where
  "wt_next inp =
     (if length inp < 4 then Incomplete
      else let len = unat (from_be_bytes (take 4 inp));
               rest = drop 4 inp
           in if len > MAX_FRAME then TooLong
              else if length rest < len then Incomplete
              else Frame (take len rest) (drop len rest))"

section \<open>Requests\<close>

definition wt_deliver ::
    "('k, 'b, 't) hub \<Rightarrow> u64 \<Rightarrow> server_frame \<Rightarrow> ('k, 'b, 't) world \<Rightarrow> ('k, 'b, 't) world" where
  "wt_deliver H sid frame w =
     (case reg_get (w_registry w) sid of
        None \<Rightarrow> w
      | Some ref \<Rightarrow> snd (send_frame H (s_outbox (w_store w ref)) frame w))"

definition wt_deliver_error ::
    "('k, 'b, 't) hub \<Rightarrow> u64 \<Rightarrow> u64 \<Rightarrow> hub_error \<Rightarrow> ('k, 'b, 't) world \<Rightarrow> ('k, 'b, 't) world" where
  "wt_deliver_error H sid rid e w =
     (let code = (case e of
                    SchemaErr _ \<Rightarrow> ValidationFailed
                  | AuthErr _ \<Rightarrow> InvalidTokenCode
                  | AclErr _ \<Rightarrow> AclDeniedCode
                  | NotConnected _ \<Rightarrow> NotConnectedCode
                  | _ \<Rightarrow> Internal)
      in wt_deliver H sid (ErrorFrame \<lparr>err_request_id = rid, err_code = error_code_u32 code,
                             err_message = hub_error_msg e\<rparr>) w)"

fun wt_dispatch ::
    "('k, 'b, 't) hub \<Rightarrow> instant \<Rightarrow> u64 \<Rightarrow> client_frame \<Rightarrow> ('k, 'b, 't) world \<Rightarrow> ('k, 'b, 't) world" where
  "wt_dispatch H now sid (Connect c) w =
     (case handle_connect H now sid (conn_request_id c) (conn_token c) w of
        (Inr ack, w') \<Rightarrow> wt_deliver H sid (ConnectOk ack) w'
      | (Inl e, w') \<Rightarrow> wt_deliver_error H sid (conn_request_id c) e w')"
| "wt_dispatch H now sid (Subscribe s) w =
     (case handle_subscribe H now sid (sub_request_id s) (sub_channel s) (sub_since_offset s) w of
        (Inr ack, w') \<Rightarrow> wt_deliver H sid (SubscribeOk ack) w'
      | (Inl e, w') \<Rightarrow> wt_deliver_error H sid (sub_request_id s) e w')"
| "wt_dispatch H now sid (Unsubscribe u) w =
     (case handle_unsubscribe H sid (unsub_request_id u) (unsub_channel u) w of
        (Inr ack, w') \<Rightarrow> wt_deliver H sid (UnsubscribeOk ack) w'
      | (Inl e, w') \<Rightarrow> wt_deliver_error H sid (unsub_request_id u) e w')"
| "wt_dispatch H now sid (Publish p) w =
     (case handle_publish H now sid (publish_channel p) (publish_data p) w of
        (Inr _, w') \<Rightarrow> w'
      | (Inl e, w') \<Rightarrow> wt_deliver_error H sid (publish_request_id p) e w')"

section \<open>A connection\<close>

text \<open>
  The state of a connection with the bytes that have arrived and are not read yet. The reader gives
  up when the stream ends in the middle of a frame, so \<open>Incomplete\<close> either waits for more bytes or
  leaves.
\<close>

type_synonym ('k, 'b, 't) wt_state = "phase \<times> bytes \<times> nat set \<times> ('k, 'b, 't) world"

inductive wt_step ::
    "'pe codec \<Rightarrow> ('k, 'b, 't) hub \<Rightarrow> u64 \<Rightarrow> nat \<Rightarrow> ('k, 'b, 't) wt_state \<Rightarrow> ('k, 'b, 't) wt_state \<Rightarrow> bool"
  for C :: "'pe codec" and H :: "('k, 'b, 't) hub" and sid :: u64 and ref :: nat where
  WtElsewhere: "hub_step H (held, w) (held', w') \<Longrightarrow> ref \<in> held \<longleftrightarrow> ref \<in> held' \<Longrightarrow>
    wt_step C H sid ref (ph, inp, held, w) (ph, inp, held', w')"
| WtArrive: "wt_step C H sid ref (ph, inp, held, w) (ph, inp @ bs, held, w)"
| WtRead: "wt_next inp = Frame body rest \<Longrightarrow> decode_client (cd_prost C) body = Inr frame \<Longrightarrow>
    wt_step C H sid ref (Reading, inp, held, w) (Reading, rest, held, wt_dispatch H now sid frame w)"
| WtBad: "wt_next inp = Frame body rest \<Longrightarrow> decode_client (cd_prost C) body = Inl e \<Longrightarrow>
    wt_step C H sid ref (Reading, inp, held, w) (Leaving, rest, held, wt_deliver H sid (invalid_frame C e) w)"
| WtTooLong: "wt_next inp = TooLong \<Longrightarrow>
    wt_step C H sid ref (Reading, inp, held, w) (Leaving, inp, held, w)"
| WtEnded: "wt_next inp = Incomplete \<Longrightarrow>
    wt_step C H sid ref (Reading, inp, held, w) (Leaving, inp, held, w)"
| WtKicked: "wt_step C H sid ref (Reading, inp, held, w) (Leaving, inp, held, w)"
| WtFinish: "ref \<in> held \<Longrightarrow> wt_step C H sid ref (Leaving, inp, held, w)
    (Done, inp, held - {ref}, teardown H sid ref w)"

section \<open>The framing can be read back\<close>

text \<open>Every frame that can be read from a byte string.\<close>

function (sequential) wt_frames :: "bytes \<Rightarrow> bytes list" where
  "wt_frames inp = (case wt_next inp of Frame body rest \<Rightarrow> body # wt_frames rest | _ \<Rightarrow> [])"
  by pat_completeness auto

lemma wt_next_shorter: "wt_next inp = Frame body rest \<Longrightarrow> length inp = 4 + length body + length rest"
  by (auto simp: wt_next_def Let_def split: if_splits)

termination wt_frames
  by (relation "measure length") (auto dest: wt_next_shorter)

declare wt_frames.simps [simp del]

lemma length_to_be_bytes [simp]: "length (to_be_bytes n) = 4"
  by (simp add: to_be_bytes_def)

lemma digit_256: "x div 256 ^ Suc n * 256 + x div 256 ^ n mod 256 = x div 256 ^ n" for x :: nat
proof -
  have "x div 256 ^ Suc n = x div 256 ^ n div 256"
    by (simp only: power_Suc mult.commute [of 256] div_mult2_eq)
  then show ?thesis by simp
qed

lemma from_to_be_bytes [simp]: "from_be_bytes (to_be_bytes n) = n"
proof -
  have "unat n < 256 ^ 4" using unsigned_less [of n] by simp
  then have top: "unat n div 256 ^ 3 mod 256 = unat n div 256 ^ 3" by simp
  have "foldl (\<lambda>a b. a * 256 + unat b) 0 (to_be_bytes n) =
      ((unat n div 256 ^ 3 mod 256 * 256 + unat n div 256 ^ 2 mod 256) * 256 + unat n div 256 ^ 1 mod 256) * 256
        + unat n div 256 ^ 0 mod 256"
    by (simp only: to_be_bytes_def list.map foldl.simps unat_of_nat) simp
  also have "\<dots> = unat n"
    unfolding top using digit_256 [of "unat n" 2] digit_256 [of "unat n" 1] digit_256 [of "unat n" 0]
    by (simp only: numeral_3_eq_3 numeral_2_eq_2 One_nat_def) simp
  finally show ?thesis by (simp add: from_be_bytes_def)
qed

lemma wt_next_frame:
  assumes "length body \<le> MAX_FRAME"
  shows "wt_next (wt_frame body @ rest) = Frame body rest"
proof -
  have "unat (of_nat (length body) :: u32) = length body"
    using assms by (simp add: MAX_FRAME_def unat_of_nat)
  then show ?thesis using assms by (simp add: wt_next_def wt_frame_def)
qed

lemma wt_next_too_long:
  assumes "MAX_FRAME < length body" and "length body < 2 ^ 32"
  shows "wt_next (wt_frame body @ rest) = TooLong"
proof -
  have "unat (of_nat (length body) :: u32) = length body"
    using assms(2) by (simp add: unat_of_nat)
  then show ?thesis using assms by (simp add: wt_next_def wt_frame_def)
qed

lemma wt_frames_concat:
  "list_all (\<lambda>b. length b \<le> MAX_FRAME) bodies \<Longrightarrow>
   wt_frames (concat (map wt_frame bodies) @ rest) = bodies @ wt_frames rest"
  by (induction bodies) (simp_all add: wt_frames.simps [of "wt_frame _ @ _"] wt_next_frame)

lemma wt_frames_Nil [simp]: "wt_frames [] = []"
  by (simp add: wt_frames.simps wt_next_def)

lemma wt_next_bounded: "wt_next inp = Frame body rest \<Longrightarrow> length body \<le> MAX_FRAME"
  by (auto simp: wt_next_def Let_def split: if_splits)

lemma wt_frames_bounded: "body \<in> set (wt_frames inp) \<Longrightarrow> length body \<le> MAX_FRAME"
proof (induction inp rule: wt_frames.induct)
  case (1 inp)
  then show ?case
    by (cases "wt_next inp") (auto simp: wt_frames.simps [of inp] dest: wt_next_bounded)
qed

section \<open>Both transports answer alike\<close>

lemma wt_deliver_eq: "wt_deliver = deliver"
  by (intro ext) (simp add: wt_deliver_def deliver_def)

lemma wt_deliver_error_eq: "wt_deliver_error H sid rid e w = deliver H sid (error_frame rid e) w"
  by (cases e) (simp_all add: wt_deliver_error_def wt_deliver_eq error_frame_def)

lemma wt_dispatch_eq: "wt_dispatch H now sid frame w = handle_frame H now sid frame w"
  by (cases frame) (auto simp: wt_deliver_eq wt_deliver_error_eq split: prod.splits sum.splits)

lemma wt_step_hub: "wt_step C H sid ref s s' \<Longrightarrow> (hub_step H)\<^sup>*\<^sup>* (snd (snd s)) (snd (snd s'))"
  by (induction rule: wt_step.induct)
    (auto simp: wt_dispatch_eq wt_deliver_eq intro: handle_frame_steps deliver_steps finish_steps)

lemma wt_steps_hub: "(wt_step C H sid ref)\<^sup>*\<^sup>* s s' \<Longrightarrow> (hub_step H)\<^sup>*\<^sup>* (snd (snd s)) (snd (snd s'))"
  by (induction rule: rtranclp_induct) (auto dest: wt_step_hub)

end
