(* ===== verification/Connection.thy ===== *)
theory Connection
  imports Wt
begin

text \<open>
  What the connections of the WebSocket and the WebTransport have in common: between their own steps
  the rest of the server takes any steps of the hub, and when their loop is over they release what
  they hold. A session that has left the registry does not come back, so a finished connection leaves
  nothing behind. The locale \<open>connection\<close> states the contract; both transports satisfy it.
\<close>

section \<open>A session stays where it is in the registry\<close>

text \<open>\<open>only I ref w\<close>: the session is registered under the ids of \<open>I\<close> only.\<close>

definition only :: "u64 set \<Rightarrow> nat \<Rightarrow> ('k, 'b, 't) world \<Rightarrow> bool" where
  "only I ref w \<longleftrightarrow> ref < w_next_ref w \<and> (\<forall>i. reg_get (w_registry w) i = Some ref \<longrightarrow> i \<in> I)"

text \<open>What the handlers leave alone: the registry's table and the supply of references.\<close>

definition reg_view :: "('k, 'b, 't) world \<Rightarrow> (u64 \<Rightarrow> nat option) \<times> nat" where
  "reg_view w = (reg_get (w_registry w), w_next_ref w)"

definition at_reg :: "(u64 \<Rightarrow> nat option) \<times> nat \<Rightarrow> ('k, 'b, 't) world \<Rightarrow> bool" where
  "at_reg v w \<longleftrightarrow> reg_view w = v"

lemma at_reg_same: "(\<And>w. reg_view (snd (m w)) = reg_view w) \<Longrightarrow> pres (at_reg v) m"
  by (simp add: pres_def at_reg_def)

lemma only_view: "reg_view w' = reg_view w \<Longrightarrow> only I ref w \<Longrightarrow> only I ref w'"
  by (simp add: only_def reg_view_def)

lemma at_reg_frame:
  "at_reg v (unwind H k c w) \<longleftrightarrow> at_reg v w" "at_reg v (drop_stream H s w) \<longleftrightarrow> at_reg v w"
  "at_reg v (abort_task H h w) \<longleftrightarrow> at_reg v w"
  by (simp_all add: at_reg_def reg_view_def hub_simps)

lemma at_reg_require_claims: "pres (at_reg v) (require_claims H ref)"
  by (rule at_reg_same) (simp add: require_claims_def reg_view_def hub_simps split: option.splits)

lemma at_reg_on_kind: "pres (at_reg v) (on_kind n m)"
  by (rule at_reg_same) (simp add: reg_view_def hub_simps)

lemma at_reg_on_broker: "pres (at_reg v) (on_broker m)"
  by (rule at_reg_same) (simp add: reg_view_def hub_simps)

lemma send_replay_view: "reg_view (snd (send_replay H sid ob ps w)) = reg_view w"
proof (induction ps arbitrary: w)
  case (Cons p ps)
  have "reg_view (snd (send_frame H ob (PublicationFrame p) w)) = reg_view w"
    by (simp add: reg_view_def hub_simps)
  then show ?case
    using Cons.IH by (cases "send_frame H ob (PublicationFrame p) w") (simp split: bool.splits)
qed simp

lemma at_reg_replay: "pres (at_reg v) (replay H now sid ob c since k s)"
  unfolding replay_def
  by (intro pres_if pres_or_cleanup pres_try_bind at_reg_on_kind at_reg_same send_replay_view pres_ok)
     (simp add: at_reg_frame)

lemma at_reg_attach: "pres (at_reg v) (attach H sid ref c k s)"
  by (rule at_reg_same)
     (auto simp: attach_def insert_subscription_def reg_view_def hub_simps reg_simps Let_def
       split: option.splits prod.splits)

lemma at_reg_detach: "pres (at_reg v) (detach H sid ref c)"
  by (rule at_reg_same)
     (auto simp: detach_def session_remove_subscription_def reg_view_def hub_simps reg_simps
       split: option.splits)

lemma at_reg_subscribe: "pres (at_reg v) (handle_subscribe H now sid rid c since)"
proof -
  have brk: "pres (at_reg v) (or_cleanup (unwind H k c) (on_broker (br_subscribe (hub_broker H) c)))" for k
    by (rule pres_or_cleanup [OF at_reg_on_broker]) (simp add: at_reg_frame)
  have tail: "pres (at_reg v) (try_bind (replay H now sid ob c since k s)
      (\<lambda>_. try_bind (attach H sid r c k s) (\<lambda>_. ok x)))" for r s ob k and x :: subscribe_ok
    by (intro pres_try_bind at_reg_replay at_reg_attach pres_ok)
  show ?thesis
    unfolding handle_subscribe_def Let_def
    by (rule pres_try_bind [OF pres_get_session], rule pres_try_bind [OF at_reg_require_claims],
        rule pres_try_bind [OF pres_enforce_acl], rule pres_try_bind [OF pres_check_not_subscribed],
        rule pres_try_bind [OF at_reg_on_kind], rule pres_try_bind [OF brk], rule pres_state, rule tail)
qed

lemma at_reg_unsubscribe: "pres (at_reg v) (handle_unsubscribe H sid rid c)"
  unfolding handle_unsubscribe_def
  by (intro pres_try_bind pres_get_session at_reg_detach at_reg_on_kind pres_ok)

lemma at_reg_publish: "pres (at_reg v) (handle_publish H now sid c d)"
proof -
  have "pres (at_reg v) count_publication"
    by (rule at_reg_same) (simp add: count_publication_def reg_view_def)
  then show ?thesis
    unfolding handle_publish_def
    by (intro pres_try_bind pres_get_session at_reg_require_claims pres_enforce_acl pres_check_schema
        at_reg_on_kind at_reg_on_broker pres_ok)
qed

lemma at_reg_connect: "pres (at_reg v) (handle_connect H now sid rid token)"
  by (rule at_reg_same)
     (auto simp: handle_connect_def try_bind_def get_session_def reg_view_def hub_simps
       split: option.splits sum.splits)

lemmas handler_views = at_reg_connect at_reg_subscribe at_reg_unsubscribe at_reg_publish

lemma only_of_pres: "(\<And>v. pres (at_reg v) m) \<Longrightarrow> only I ref w \<Longrightarrow> only I ref (snd (m w))"
  by (rule only_view) (auto simp: pres_def at_reg_def)

lemma close_view:
  "reg_get (w_registry (close_session H sid w)) = (reg_get (w_registry w))(sid := None)"
  "w_next_ref (close_session H sid w) = w_next_ref w"
proof -
  have "reg_get (snd (deregister sid (w_registry w))) = (reg_get (w_registry w))(sid := None)"
    and "fst (deregister sid (w_registry w)) = reg_get (w_registry w) sid"
    by (simp_all add: reg_simps)
  then show "reg_get (w_registry (close_session H sid w)) = (reg_get (w_registry w))(sid := None)"
    "w_next_ref (close_session H sid w) = w_next_ref w"
    by (auto simp: close_session_def hub_simps Let_def split: prod.splits option.splits)
qed

lemma kick_view:
  "reg_get (w_registry (snd (kick_session H sid w))) = (reg_get (w_registry w))(sid := None)"
  "w_next_ref (snd (kick_session H sid w)) = w_next_ref w"
proof -
  have "reg_get (snd (deregister sid (w_registry w))) = (reg_get (w_registry w))(sid := None)"
    and "fst (deregister sid (w_registry w)) = reg_get (w_registry w) sid"
    by (simp_all add: reg_simps)
  then show "reg_get (w_registry (snd (kick_session H sid w))) = (reg_get (w_registry w))(sid := None)"
    "w_next_ref (snd (kick_session H sid w)) = w_next_ref w"
    by (auto simp: kick_session_def arc_clone_def hub_simps Let_def split: prod.splits option.splits)
qed

lemma only_smaller:
  "only I ref w \<Longrightarrow> only I ref (close_session H sid w)"
  "only I ref w \<Longrightarrow> only I ref (snd (kick_session H sid w))"
  "only I ref w \<Longrightarrow> only I ref (arc_drop H r w)"
  "only I ref w \<Longrightarrow> only I ref (snd (send_frame H ob f w))"
  "only I ref w \<Longrightarrow> only I ref (hang_up H ob w)"
  by (auto simp: only_def close_view kick_view hub_simps)

lemma step_only: "hub_step H s s' \<Longrightarrow> only I ref (snd s) \<Longrightarrow> only I ref (snd s')"
proof (induction rule: hub_step.induct)
  case (Open w outbox r w' held)
  obtain i reg where ni: "next_id (w_registry w) = (i, reg)" by (cases "next_id (w_registry w)")
  then have "reg_get reg = reg_get (w_registry w)" using reg_get_next_id [of "w_registry w"] by simp
  then have "reg_get (w_registry w') = (reg_get (w_registry w))(i \<mapsto> w_next_ref w)"
    "w_next_ref w' = Suc (w_next_ref w)"
    using Open(2)
    by (auto simp: open_session_def ni hub_simps reg_simps Let_def split: prod.splits option.splits)
  with Open show ?case by (auto simp: only_def)
next
  case (Forward held w h)
  have "reg_view (forward H h w) = reg_view w"
    by (auto simp: forward_def send_frame_def reg_view_def hub_simps split: prod.splits option.splits
        stream_poll.splits bool.splits)
  with Forward show ?case using only_view by auto
qed (simp_all add: only_of_pres [OF handler_views(1)] only_of_pres [OF handler_views(2)]
      only_of_pres [OF handler_views(3)] only_of_pres [OF handler_views(4)] only_smaller)

lemma steps_only: "(hub_step H)\<^sup>*\<^sup>* s s' \<Longrightarrow> only I ref (snd s) \<Longrightarrow> only I ref (snd s')"
  by (induction rule: rtranclp_induct) (auto dest: step_only)

lemma teardown_only: "only {sid} ref w \<Longrightarrow> only {} ref (teardown H sid ref w)"
  by (auto simp: only_def teardown_def hub_simps close_view)

section \<open>The contract of a connection\<close>

text \<open>
  \<open>ph\<close> and \<open>conf\<close> read the phase and the hub's part of a connection's state. Every step but the
  last takes steps of the hub and keeps the connection's own handle; the last one is the teardown.
\<close>

locale connection =
  fixes H :: "('k, 'b, 't) hub" and sid :: u64 and ref :: nat
    and step :: "'s \<Rightarrow> 's \<Rightarrow> bool"
    and ph :: "'s \<Rightarrow> phase" and conf :: "'s \<Rightarrow> nat set \<times> ('k, 'b, 't) world"
  assumes step_law: "step s s' \<Longrightarrow>
      (hub_step H)\<^sup>*\<^sup>* (conf s) (conf s') \<and>
      ((ph s = Done \<longleftrightarrow> ph s' = Done) \<and> (ref \<in> fst (conf s) \<longleftrightarrow> ref \<in> fst (conf s')) \<or>
       ph s = Leaving \<and> ph s' = Done \<and>
         conf s' = (fst (conf s) - {ref}, teardown H sid ref (snd (conf s))))"
begin

definition conn_inv :: "'s \<Rightarrow> bool" where
  "conn_inv s \<longleftrightarrow> only (if ph s = Done then {} else {sid}) ref (snd (conf s)) \<and>
     (ref \<in> fst (conf s) \<longleftrightarrow> ph s \<noteq> Done)"

lemma step_conn_inv:
  assumes "step s s'" and "conn_inv s"
  shows "conn_inv s'"
proof -
  note law = step_law [OF assms(1)]
  have "only (if ph s = Done then {} else {sid}) ref (snd (conf s'))"
    using steps_only [OF conjunct1 [OF law]] assms(2) by (simp add: conn_inv_def)
  then show ?thesis
    using law assms(2) teardown_only [of sid ref "snd (conf s)" H] by (auto simp: conn_inv_def)
qed

lemma steps_conn:
  assumes "step\<^sup>*\<^sup>* s s'"
  shows "(hub_step H)\<^sup>*\<^sup>* (conf s) (conf s')" and "conn_inv s \<Longrightarrow> conn_inv s'"
  using assms by (induction rule: rtranclp_induct) (use step_law step_conn_inv in \<open>auto intro: rtranclp_trans\<close>)

text \<open>A finished connection's session is not registered, not held and owns no forwarder.\<close>

lemma finished:
  assumes "step\<^sup>*\<^sup>* s s'" and "conn_inv s" and "ph s' = Done" and "core_inv H (fst (conf s')) (snd (conf s'))"
  shows "ref \<notin> fst (conf s')" and "reg_get (w_registry (snd (conf s'))) i \<noteq> Some ref"
    and "w_strong (snd (conf s')) ref = 0" and "s_subscriptions (w_store (snd (conf s')) ref) = []"
proof -
  have inv: "conn_inv s'" by (rule steps_conn(2) [OF assms(1,2)])
  then show "ref \<notin> fst (conf s')" and "reg_get (w_registry (snd (conf s'))) i \<noteq> Some ref"
    using assms(3) by (auto simp: conn_inv_def only_def)
  then have "\<not> registered (snd (conf s')) ref" "ref \<notin> fst (conf s')"
    using inv assms(3) by (auto simp: conn_inv_def only_def registered_def)
  then show "w_strong (snd (conf s')) ref = 0" and "s_subscriptions (w_store (snd (conf s')) ref) = []"
    using assms(4) by (auto simp: core_inv_def counts_ok_def)
qed

end

section \<open>Both transports keep it\<close>

lemma ws_step_law:
  "ws_step C H sid ref s s' \<Longrightarrow>
     (fst s = Done \<longleftrightarrow> fst s' = Done) \<and> (ref \<in> fst (snd s) \<longleftrightarrow> ref \<in> fst (snd s')) \<or>
     fst s = Leaving \<and> fst s' = Done \<and> snd s' = (fst (snd s) - {ref}, teardown H sid ref (snd (snd s)))"
  by (induction rule: ws_step.induct) auto

interpretation ws: connection H sid ref "ws_step C H sid ref" fst snd
  for C :: "'pe codec" and H :: "('k, 'b, 't) hub" and sid ref
  by unfold_locales (use ws_step_hub ws_step_law in blast)

lemma wt_step_law:
  "wt_step C H sid ref s s' \<Longrightarrow>
     (fst s = Done \<longleftrightarrow> fst s' = Done) \<and>
       (ref \<in> fst (snd (snd s)) \<longleftrightarrow> ref \<in> fst (snd (snd s'))) \<or>
     fst s = Leaving \<and> fst s' = Done \<and>
       snd (snd s') = (fst (snd (snd s)) - {ref}, teardown H sid ref (snd (snd (snd s))))"
  by (induction rule: wt_step.induct) auto

interpretation wt: connection H sid ref "wt_step C H sid ref" fst "\<lambda>s. snd (snd s)"
  for C :: "'pe codec" and H :: "('k, 'b, 't) hub" and sid ref
  by unfold_locales (use wt_step_hub wt_step_law in blast)

text \<open>Accepting a connection is a step of the hub; the session is then registered under one id.\<close>

lemma accept_step:
  "ws_accept H outbox w = (sid, ref, w') \<Longrightarrow> m_opened (w_metrics w) + 1 < 2 ^ 64 \<Longrightarrow>
     hub_step H (held, w) (insert ref held, w')"
  by (auto simp: ws_accept_def split: prod.splits intro: hub_step.Open)

lemma accept_only:
  assumes "ws_accept H outbox w = (sid, ref, w')" and "core_inv H (insert ref held) w'"
  shows "only {sid} ref w'"
  using assms core_invD(2) [OF assms(2)] by (auto simp: only_def ws_accept_def core_defs split: prod.splits)

end
