(* ===== verification/Sse.thy ===== *)
theory Sse
  imports Connection
begin

text \<open>
  \<open>cherenkov-transport-sse/src/lib.rs\<close>: the HTTP transport. A subscriber's request becomes a
  stream of events, a publisher's request one publish. What comes from the web framework is a
  parameter: the header's value as text, the request body, JSON quoting and base64. A handler's calls
  on the hub run one after the other; the state it leaves is the one after its local variables are
  dropped.
\<close>

section \<open>Building the transport\<close>

definition SSE_DEFAULT_PATH :: string where "SSE_DEFAULT_PATH = ''/sse/v1''"

record ('k, 'b, 't) sse_transport =
  st_hub :: "('k, 'b, 't) hub"
  st_listen :: socket_addr
  st_path_prefix :: string

record sse_builder =
  sb_listen :: socket_addr
  sb_path_prefix :: string

datatype sse_error = BadQuery string

fun sse_error_msg :: "sse_error \<Rightarrow> string" where
  "sse_error_msg (BadQuery m) = ''malformed query: '' @ m"

definition sse_builder_new :: "socket_addr \<Rightarrow> sse_builder" where
  "sse_builder_new listen = \<lparr>sb_listen = listen, sb_path_prefix = SSE_DEFAULT_PATH\<rparr>"

definition sse_with_path_prefix :: "string \<Rightarrow> sse_builder \<Rightarrow> sse_builder" where
  "sse_with_path_prefix prefix b = b\<lparr>sb_path_prefix := prefix\<rparr>"

definition sse_build :: "('k, 'b, 't) hub \<Rightarrow> sse_builder \<Rightarrow> ('k, 'b, 't) sse_transport" where
  "sse_build hub b =
     \<lparr>st_hub = hub, st_listen = sb_listen b, st_path_prefix = sb_path_prefix b\<rparr>"

section \<open>Query strings\<close>

definition hex_digit :: "char \<Rightarrow> nat option" where
  "hex_digit c =
     (let n = of_char c :: nat
      in if 48 \<le> n \<and> n \<le> 57 then Some (n - 48)
         else if 65 \<le> n \<and> n \<le> 70 then Some (n - 55)
         else if 97 \<le> n \<and> n \<le> 102 then Some (n - 87)
         else None)"

fun hex_digits :: "nat \<Rightarrow> string \<Rightarrow> nat option" where
  "hex_digits acc [] = Some acc"
| "hex_digits acc (c # cs) =
     (case hex_digit c of
        None \<Rightarrow> None
      | Some d \<Rightarrow> if acc * 16 + d < 256 then hex_digits (acc * 16 + d) cs else None)"

text \<open>\<open>u8::from_str_radix(s, 16)\<close>, which takes a leading plus sign.\<close>

definition from_str_radix_16 :: "string \<Rightarrow> nat option" where
  "from_str_radix_16 s =
     (case s of
        [] \<Rightarrow> None
      | [c] \<Rightarrow> if c = CHR ''+'' \<or> c = CHR ''-'' then None else hex_digits 0 s
      | c # cs \<Rightarrow> if c = CHR ''+'' then hex_digits 0 cs else hex_digits 0 s)"

text \<open>The loop; it gives up when the two bytes after a percent sign are not UTF-8.\<close>

function (sequential) url_bytes :: "string \<Rightarrow> string option" where
  "url_bytes [] = Some []"
| "url_bytes (c # cs) =
     (if c = CHR ''+'' then map_option ((#) (CHR '' '')) (url_bytes cs)
      else if c = CHR ''%'' \<and> 2 \<le> length cs then
        if \<not> utf8 (take 2 cs) then None
        else (case from_str_radix_16 (take 2 cs) of
                Some b \<Rightarrow> map_option ((#) (char_of b)) (url_bytes (drop 2 cs))
              | None \<Rightarrow> map_option ((#) c) (url_bytes cs))
      else map_option ((#) c) (url_bytes cs))"
  by pat_completeness auto

termination url_bytes
  by (relation "measure length") auto

definition urlencoding_decode :: "string \<Rightarrow> string option" where
  "urlencoding_decode s =
     (case url_bytes s of
        None \<Rightarrow> None
      | Some out \<Rightarrow> if utf8 out then Some out else None)"

definition channel_of_pair :: "string \<Rightarrow> string option" where
  "channel_of_pair pair =
     (case split_once (CHR ''='') pair of
        None \<Rightarrow> None
      | Some (k, v) \<Rightarrow>
          if k \<noteq> ''channel'' then None
          else (case urlencoding_decode v of
                  None \<Rightarrow> None
                | Some decoded \<Rightarrow> if decoded = [] then None else Some decoded))"

definition channels_from_raw_query :: "string option \<Rightarrow> string list" where
  "channels_from_raw_query query =
     (case query of
        None \<Rightarrow> []
      | Some q \<Rightarrow> List.map_filter channel_of_pair (split_on (CHR ''&'') q))"

record publish_query =
  pq_channel :: string
  pq_request_id :: u64

section \<open>Requests and responses\<close>

text \<open>
  \<open>http\<close> is what is used of the web libraries: a header value as a string if it is one, the request
  body up to a limit, a string as a JSON value, base64.
\<close>

record ('v, 'body) http =
  to_str :: "'v \<Rightarrow> string option"
  to_bytes :: "'body \<Rightarrow> nat \<Rightarrow> (string, bytes) result"
  json_string :: "string \<Rightarrow> string"
  base64 :: "bytes \<Rightarrow> string"

record response =
  rs_status :: nat
  rs_body :: string

record event =
  ev_event :: string
  ev_data :: string

text \<open>The value of the \<open>Authorization\<close> header, if there is one.\<close>

definition token_from_headers :: "('v, 'body) http \<Rightarrow> 'v option \<Rightarrow> string option" where
  "token_from_headers W authorization =
     Option.bind (Option.bind authorization (to_str W)) (strip_prefix ''Bearer '')"

fun status_for :: "hub_error \<Rightarrow> nat" where
  "status_for (AuthErr _) = 401"
| "status_for (AclErr _) = 403"
| "status_for (NotConnected _) = 403"
| "status_for (SchemaErr _) = 422"
| "status_for _ = 500"

definition into_response :: "hub_error \<Rightarrow> response" where
  "into_response e = \<lparr>rs_status = status_for e, rs_body = hub_error_msg e\<rparr>"

text \<open>The part the two handlers share: connect with the token, or insist on one.\<close>

definition sse_connect ::
    "('v, 'body) http \<Rightarrow> ('k, 'b, 't) hub \<Rightarrow> instant \<Rightarrow> 'v option \<Rightarrow> u64 \<Rightarrow> ('k, 'b, 't) world \<Rightarrow>
     response option \<times> ('k, 'b, 't) world" where
  "sse_connect W H now authorization sid w =
     (case token_from_headers W authorization of
        Some token \<Rightarrow>
          (case handle_connect H now sid 0 token w of
             (Inl e, w') \<Rightarrow> (Some (into_response e), w')
           | (Inr _, w') \<Rightarrow> (None, w'))
      | None \<Rightarrow>
          if requires_connect H
          then (Some \<lparr>rs_status = 401, rs_body = ''Authorization header required''\<rparr>, w)
          else (None, w))"

text \<open>A handler that is over: the session closed, its handle and the outbox's receiver dropped.\<close>

definition sse_over :: "('k, 'b, 't) hub \<Rightarrow> u64 \<Rightarrow> nat \<Rightarrow> nat \<Rightarrow> ('k, 'b, 't) world \<Rightarrow> ('k, 'b, 't) world" where
  "sse_over H sid ref outbox w = hang_up H outbox (arc_drop H ref (close_session H sid w))"

text \<open>\<open>clock i\<close> is the time of the handler's \<open>i\<close>-th call on the hub.\<close>

fun sse_subscribe_all ::
    "('k, 'b, 't) hub \<Rightarrow> (nat \<Rightarrow> instant) \<Rightarrow> u64 \<Rightarrow> nat \<Rightarrow> string list \<Rightarrow> ('k, 'b, 't) world \<Rightarrow>
     hub_error option \<times> ('k, 'b, 't) world" where
  "sse_subscribe_all H clock sid i [] w = (None, w)"
| "sse_subscribe_all H clock sid i (channel # channels) w =
     (case handle_subscribe H (clock (Suc i)) sid (of_nat i) channel 0 w of
        (Inl e, w') \<Rightarrow> (Some e, w')
      | (Inr _, w') \<Rightarrow> sse_subscribe_all H clock sid (Suc i) channels w')"

text \<open>
  \<open>Inr sid\<close> is a response whose body streams the events of the session; the stream owns the outbox's
  receiver but no handle on the session.
\<close>

definition subscribe_handler ::
    "('v, 'body) http \<Rightarrow> ('k, 'b, 't) hub \<Rightarrow> (nat \<Rightarrow> instant) \<Rightarrow> string option \<Rightarrow> 'v option \<Rightarrow> nat \<Rightarrow>
     ('k, 'b, 't) world \<Rightarrow> (response + u64) \<times> ('k, 'b, 't) world" where
  "subscribe_handler W H clock query authorization outbox w =
     (let channels = channels_from_raw_query query
      in if channels = [] then
           (Inl \<lparr>rs_status = 400, rs_body = ''missing `channel` query parameter''\<rparr>, w)
         else
           (let (ref, w) = open_session H outbox w; sid = s_id (w_store w ref)
            in (case sse_connect W H (clock 0) authorization sid w of
                  (Some r, w) \<Rightarrow> (Inl r, sse_over H sid ref outbox w)
                | (None, w) \<Rightarrow>
                    (case sse_subscribe_all H clock sid 0 channels w of
                       (Some e, w) \<Rightarrow> (Inl (into_response e), sse_over H sid ref outbox w)
                     | (None, w) \<Rightarrow> (Inr sid, arc_drop H ref w)))))"

text \<open>The event the stream emits for each frame of the outbox.\<close>

fun frame_to_event :: "('v, 'body) http \<Rightarrow> server_frame \<Rightarrow> event" where
  "frame_to_event W (PublicationFrame p) =
     \<lparr>ev_event = ''publication'', ev_data = ''{\"channel\":'' @ json_string W (pub_channel p) @
        '',\"offset\":'' @ show_u64 (pub_offset p) @
        '',\"data\":'' @ json_string W (base64 W (pub_data p)) @ ''}''\<rparr>"
| "frame_to_event W (ErrorFrame e) =
     \<lparr>ev_event = ''error'', ev_data = ''{\"request_id\":'' @ show_u64 (err_request_id e) @
        '',\"code\":'' @ show_nat (unat (err_code e)) @
        '',\"message\":'' @ json_string W (err_message e) @ ''}''\<rparr>"
| "frame_to_event W (SubscribeOk a) =
     \<lparr>ev_event = ''subscribe-ok'', ev_data = ''{\"request_id\":'' @ show_u64 (subok_request_id a) @
        '',\"channel\":'' @ json_string W (subok_channel a) @ ''}''\<rparr>"
| "frame_to_event W (UnsubscribeOk a) =
     \<lparr>ev_event = ''unsubscribe-ok'', ev_data = ''{\"request_id\":'' @ show_u64 (unsubok_request_id a) @
        '',\"channel\":'' @ json_string W (unsubok_channel a) @ ''}''\<rparr>"
| "frame_to_event W (ConnectOk a) =
     \<lparr>ev_event = ''connect-ok'', ev_data = ''{\"request_id\":'' @ show_u64 (connok_request_id a) @
        '',\"subject\":'' @ json_string W (connok_subject a) @ ''}''\<rparr>"

text \<open>
  How the stream ends. A kick or the last sender's drop completes it: the session is closed and one
  more event sent. A client that goes away drops it half way, and with it the outbox's receiver.
\<close>

definition stream_completed :: "('k, 'b, 't) hub \<Rightarrow> u64 \<Rightarrow> nat \<Rightarrow> ('k, 'b, 't) world \<Rightarrow> event \<times> ('k, 'b, 't) world" where
  "stream_completed H sid outbox w =
     (\<lparr>ev_event = ''close'', ev_data = []\<rparr>, close_session H sid (hang_up H outbox w))"

definition stream_dropped :: "('k, 'b, 't) hub \<Rightarrow> nat \<Rightarrow> ('k, 'b, 't) world \<Rightarrow> ('k, 'b, 't) world" where
  "stream_dropped H outbox w = hang_up H outbox w"

definition publish_handler ::
    "('v, 'body) http \<Rightarrow> ('k, 'b, 't) hub \<Rightarrow> (nat \<Rightarrow> instant) \<Rightarrow> publish_query \<Rightarrow> 'v option \<Rightarrow> 'body \<Rightarrow>
     nat \<Rightarrow> ('k, 'b, 't) world \<Rightarrow> response \<times> ('k, 'b, 't) world" where
  "publish_handler W H clock q authorization body outbox w =
     (case to_bytes W body (16 * 1024 * 1024) of
        Inl e \<Rightarrow> (\<lparr>rs_status = 400, rs_body = ''body: '' @ e\<rparr>, w)
      | Inr data \<Rightarrow>
          (let (ref, w) = open_session H outbox w; sid = s_id (w_store w ref)
           in (case sse_connect W H (clock 0) authorization sid w of
                 (Some r, w) \<Rightarrow> (r, sse_over H sid ref outbox w)
               | (None, w) \<Rightarrow>
                   (case handle_publish H (clock 1) sid (pq_channel q) data w of
                      (Inr p, w) \<Rightarrow>
                        (\<lparr>rs_status = 200, rs_body = ''{\"channel\":'' @ json_string W (pub_channel p) @
                            '',\"offset\":'' @ show_u64 (pub_offset p) @ ''}'' @ [CHR 0x0A]\<rparr>,
                         sse_over H sid ref outbox w)
                    | (Inl e, w) \<Rightarrow> (into_response e, sse_over H sid ref outbox w)))))"

section \<open>What a request does to the registry\<close>

lemma view_of_pres: "(\<And>v. pres (at_reg v) m) \<Longrightarrow> reg_view (snd (m w)) = reg_view w"
  by (auto simp: pres_def at_reg_def)

lemma open_view:
  assumes "open_session H outbox w = (ref, w')" and "core_inv H held w"
  shows "reg_get (w_registry w') = (reg_get (w_registry w))(s_id (w_store w' ref) \<mapsto> ref)"
    and "reg_get (w_registry w) (s_id (w_store w' ref)) = None"
    and "w_metrics w' = (w_metrics w)\<lparr>m_opened := m_opened (w_metrics w) + 1,
           m_active := reg_len (w_registry w')\<rparr>"
    and "s_subscriptions (w_store w' ref) = []"
proof -
  obtain i reg where ni: "next_id (w_registry w) = (i, reg)" by (cases "next_id (w_registry w)")
  then have reg: "reg_get reg = reg_get (w_registry w)" and i: "i = r_next_id (w_registry w)"
    using reg_get_next_id [of "w_registry w"] fst_next_id [of "w_registry w"] by simp_all
  have none: "reg_get (w_registry w) i = None"
  proof (cases "reg_get (w_registry w) i")
    case (Some r)
    then show ?thesis using assms(2) by (auto simp: core_inv_def metrics_ok_def Let_def i)
  qed
  have id: "s_id (w_store w' ref) = i"
    using assms(1) none
    by (auto simp: open_session_def ni reg hub_simps session_new_def set_claims_def Let_def
        split: prod.splits)
  show "reg_get (w_registry w') = (reg_get (w_registry w))(s_id (w_store w' ref) \<mapsto> ref)"
    and "w_metrics w' = (w_metrics w)\<lparr>m_opened := m_opened (w_metrics w) + 1,
           m_active := reg_len (w_registry w')\<rparr>"
    and "s_subscriptions (w_store w' ref) = []"
    using assms(1) none
    by (auto simp: open_session_def ni id reg hub_simps reg_simps session_new_def set_claims_def Let_def
        split: prod.splits)
  show "reg_get (w_registry w) (s_id (w_store w' ref)) = None" using none id by simp
qed

lemma sse_connect_view:
  "reg_view (snd (sse_connect W H now a sid w)) = reg_view w"
  using view_of_pres [OF at_reg_connect, of H now sid 0 _ w]
  by (auto simp: sse_connect_def split: option.splits prod.splits sum.splits) (metis snd_conv)+

lemma over_view: "reg_get (w_registry (sse_over H sid ref ob w)) = (reg_get (w_registry w))(sid := None)"
  by (simp add: sse_over_def hub_simps close_view)

text \<open>Opening, any calls that leave the registry alone, and the end of the handler cancel out.\<close>

lemma over_restores:
  assumes "open_session H outbox w = (ref, w1)" and "core_inv H held w" and "reg_view w2 = reg_view w1"
  shows "reg_get (w_registry (sse_over H (s_id (w_store w1 ref)) ref ob w2)) = reg_get (w_registry w)"
  using open_view(1,2) [OF assms(1,2)] assms(3) by (auto simp: over_view reg_view_def)

section \<open>Publishing over HTTP\<close>

definition at_count :: "nat \<Rightarrow> ('k, 'b, 't) world \<Rightarrow> bool" where
  "at_count n w \<longleftrightarrow> m_published (w_metrics w) = n"

lemma at_count_same:
  "(\<And>w. w_metrics (snd (m w)) = w_metrics w) \<Longrightarrow> valid (at_count n) m (\<lambda>_. at_count n) (at_count n)"
  by (rule valid_of_inv) (simp add: at_count_def)

lemma publish_counts:
  "valid (at_count n) (handle_publish H now sid c d) (\<lambda>_. at_count (n + 1)) (at_count n)"
proof -
  have "valid (at_count n) count_publication (\<lambda>_. at_count (n + 1)) (at_count n)"
    by (simp add: valid_def at_count_def count_publication_def)
  then have tail: "valid (at_count n) (try_bind count_publication (\<lambda>_. ok p)) (\<lambda>_. at_count (n + 1)) (at_count n)"
    for p :: publication
    by (rule valid_try_bind) (rule valid_ok)
  show ?thesis
    unfolding handle_publish_def
    by (rule valid_try_bind [OF at_count_same], simp add: get_session_def split: option.splits,
        rule valid_try_bind [OF at_count_same], simp add: require_claims_def hub_simps split: option.splits,
        rule valid_try_bind [OF at_count_same], simp add: enforce_acl_def split: sum.splits acl_decision.splits,
        rule valid_try_bind [OF at_count_same], simp add: check_schema_def,
        rule valid_try_bind [OF at_count_same], simp add: hub_simps,
        rule valid_try_bind [OF at_count_same], simp add: hub_simps, rule tail)
qed

lemma sse_connect_metrics: "w_metrics (snd (sse_connect W H now a sid w)) = w_metrics w"
  by (auto simp: sse_connect_def handle_connect_def try_bind_def get_session_def hub_simps
      split: option.splits sum.splits)

lemma over_count [simp]: "at_count n (sse_over H sid ref ob w) \<longleftrightarrow> at_count n w"
  by (auto simp: sse_over_def at_count_def close_session_def hub_simps Let_def split: prod.splits option.splits)

lemma status_for_error: "status_for e \<noteq> 200"
  by (cases e) simp_all

text \<open>Whatever happens, the registry is as before, and 200 is the answer exactly to what was counted.\<close>

lemma publish_handler_effect:
  assumes "core_inv H held w" and "publish_handler W H clock q a body outbox w = (r, w')"
  shows "reg_get (w_registry w') = reg_get (w_registry w)"
    and "m_published (w_metrics w') = m_published (w_metrics w) + of_bool (rs_status r = 200)"
proof -
  obtain ref w1 where op: "open_session H outbox w = (ref, w1)" by (cases "open_session H outbox w")
  let ?sid = "s_id (w_store w1 ref)"
  obtain x w2 where cn: "sse_connect W H (clock 0) a ?sid w1 = (x, w2)"
    by (cases "sse_connect W H (clock 0) a ?sid w1")
  have v2: "reg_view w2 = reg_view w1" using sse_connect_view [of W H "clock 0" a ?sid w1] by (simp add: cn)
  have c2: "at_count (m_published (w_metrics w)) w2"
    using sse_connect_metrics [of W H "clock 0" a ?sid w1] open_view(3) [OF op assms(1)]
    by (simp add: cn at_count_def)
  have st: "x = Some y \<Longrightarrow> rs_status y \<noteq> 200" for y
    using cn by (auto simp: sse_connect_def into_response_def status_for_error
        split: option.splits prod.splits sum.splits if_splits)
  have "reg_get (w_registry w') = reg_get (w_registry w) \<and>
      at_count (m_published (w_metrics w) + of_bool (rs_status r = 200)) w'"
  proof (cases "to_bytes W body (16 * 1024 * 1024)")
    case (Inl e)
    then show ?thesis using assms(2) by (auto simp: publish_handler_def at_count_def)
  next
    case (Inr data)
    let ?p = "handle_publish H (clock 1) ?sid (pq_channel q) data w2"
    obtain y w3 where p: "?p = (y, w3)" by (cases ?p)
    have v3: "reg_view w3 = reg_view w1"
      using view_of_pres [OF at_reg_publish, of H "clock 1" ?sid "pq_channel q" data w2] unfolding p v2 by simp
    note n = validD [OF publish_counts c2, of H "clock 1" ?sid "pq_channel q" data]
    show ?thesis
      using assms(2) Inr op cn p c2 st n over_restores [OF op assms(1) v2] over_restores [OF op assms(1) v3]
      by (cases x; cases y)
         (auto simp: publish_handler_def into_response_def status_for_error)
  qed
  then show "reg_get (w_registry w') = reg_get (w_registry w)"
    and "m_published (w_metrics w') = m_published (w_metrics w) + of_bool (rs_status r = 200)"
    by (simp_all add: at_count_def)
qed

section \<open>Subscribing over HTTP\<close>

lemma send_replay_store: "w_store (snd (send_replay H sid ob ps w)) = w_store w"
proof (induction ps arbitrary: w)
  case (Cons p ps)
  have "w_store (snd (send_frame H ob (PublicationFrame p) w)) = w_store w" by (simp add: hub_simps)
  then show ?case
    using Cons.IH by (cases "send_frame H ob (PublicationFrame p) w") (simp split: bool.splits)
qed simp

lemma replay_store:
  assumes "replay H now sid ob c since k s w = (Inr u, w')"
  shows "w_store w' = w_store w"
proof (cases "since > 0")
  case True
  with assms obtain ps t where "on_kind k (k_replay_since (hub_kops H) now c since) w = (Inr ps, t)"
    and "send_replay H sid ob ps t = (Inr u, w')"
    by (auto simp: replay_def or_cleanup_eq_Inr try_bind_eq_Inr)
  then show ?thesis using send_replay_store [of H sid ob ps t] by (auto simp: on_kind_eq_Inr)
qed (use assms in \<open>simp add: replay_def ok_def\<close>)

text \<open>An accepted subscribe adds the subscription and removes none.\<close>

lemma attach_adds:
  assumes "attach H sid ref c k s w = (Inr (), w')"
  shows "has_subscription (w_store w' ref) c"
    and "has_subscription (w_store w r) c' \<Longrightarrow> has_subscription (w_store w' r) c'"
  using assms
  by (auto simp: attach_def insert_subscription_def hub_simps has_subscription_def update_conv' Let_def
      split: prod.splits option.splits)

lemma subscribe_adds:
  assumes "handle_subscribe H now sid rid c since w = (Inr ack, w')"
    and "reg_get (w_registry w) sid = Some ref"
  shows "has_subscription (w_store w' ref) c"
    and "has_subscription (w_store w r) c' \<Longrightarrow> has_subscription (w_store w' r) c'"
proof -
  obtain k s ks b w2 where
    rp: "replay H now sid (s_outbox (w_store w ref)) c since k s
      ((with_acting H ref w)\<lparr>w_kinds := ks, w_broker := b\<rparr>) = (Inr (), w2)"
    and att: "attach H sid ref c k s w2 = (Inr (), w')"
    using subscribe_run [OF assms(1)] assms(2) by auto
  have w2: "s_subscriptions (w_store w2 r) = s_subscriptions (w_store w r)" for r
    using replay_store [OF rp] by simp
  show "has_subscription (w_store w' ref) c" by (rule attach_adds(1) [OF att])
  show "has_subscription (w_store w r) c' \<Longrightarrow> has_subscription (w_store w' r) c'"
    using attach_adds(2) [OF att, of r c'] w2 [of r] by (simp add: has_subscription_def)
qed

lemma subscribe_view: "handle_subscribe H now sid rid c since w = (r, w') \<Longrightarrow> reg_view w' = reg_view w"
  using view_of_pres [OF at_reg_subscribe, of H now sid rid c since w] by simp

lemma sse_subscribe_all_view:
  "reg_view (snd (sse_subscribe_all H clock sid i cs w)) = reg_view w"
proof (induction cs arbitrary: i w)
  case (Cons c cs)
  obtain r w' where "handle_subscribe H (clock (Suc i)) sid (of_nat i) c 0 w = (r, w')"
    by (cases "handle_subscribe H (clock (Suc i)) sid (of_nat i) c 0 w")
  then show ?case using Cons.IH subscribe_view by (cases r) auto
qed simp

lemma sse_subscribe_all_steps:
  "(hub_step H)\<^sup>*\<^sup>* (held, w) (held, snd (sse_subscribe_all H clock sid i cs w))"
proof (induction cs arbitrary: i w)
  case (Cons c cs)
  let ?r = "handle_subscribe H (clock (Suc i)) sid (of_nat i) c 0 w"
  have "hub_step H (held, w) (held, snd ?r)" by (rule hub_step.SubscribeStep)
  then show ?case
    using Cons.IH by (cases ?r; cases "fst ?r") (auto intro: converse_rtranclp_into_rtranclp)
qed simp

lemma sse_subscribe_all_adds:
  assumes "sse_subscribe_all H clock sid i cs w = (None, w')" and "reg_get (w_registry w) sid = Some ref"
  shows "\<forall>c. c \<in> set cs \<or> has_subscription (w_store w ref) c \<longrightarrow> has_subscription (w_store w' ref) c"
  using assms
proof (induction cs arbitrary: i w)
  case (Cons c cs)
  let ?h = "handle_subscribe H (clock (Suc i)) sid (of_nat i) c 0 w"
  from Cons.prems(1) obtain ack w1 where h: "?h = (Inr ack, w1)"
    and rest: "sse_subscribe_all H clock sid (Suc i) cs w1 = (None, w')"
    by (cases ?h; cases "fst ?h") auto
  have "reg_get (w_registry w1) sid = Some ref"
    using subscribe_view [OF h] Cons.prems(2) by (simp add: reg_view_def)
  from Cons.IH [OF rest this] subscribe_adds [OF h Cons.prems(2)] show ?case by auto
qed simp

lemma sse_connect_steps: "(hub_step H)\<^sup>*\<^sup>* (held, w) (held, snd (sse_connect W H now a sid w))"
proof (cases "token_from_headers W a")
  case None
  then show ?thesis by (simp add: sse_connect_def)
next
  case (Some token)
  have "hub_step H (held, w) (held, snd (handle_connect H now sid 0 token w))" by (rule hub_step.ConnectStep)
  with Some show ?thesis by (auto simp: sse_connect_def split: prod.splits sum.splits)
qed

text \<open>
  A refused request leaves the registry as it was. An accepted one leaves a session registered that is
  subscribed to every requested channel, reached by steps of the hub.
\<close>

lemma subscribe_handler_refused:
  assumes "core_inv H held w" and "subscribe_handler W H clock query a outbox w = (Inl r, w')"
  shows "reg_get (w_registry w') = reg_get (w_registry w)"
proof -
  obtain ref w1 where op: "open_session H outbox w = (ref, w1)" by (cases "open_session H outbox w")
  let ?sid = "s_id (w_store w1 ref)" and ?cs = "channels_from_raw_query query"
  obtain x w2 where cn: "sse_connect W H (clock 0) a ?sid w1 = (x, w2)"
    by (cases "sse_connect W H (clock 0) a ?sid w1")
  obtain y w3 where su: "sse_subscribe_all H clock ?sid 0 ?cs w2 = (y, w3)"
    by (cases "sse_subscribe_all H clock ?sid 0 ?cs w2")
  have v2: "reg_view w2 = reg_view w1" using sse_connect_view [of W H "clock 0" a ?sid w1] by (simp add: cn)
  have v3: "reg_view w3 = reg_view w1"
    using sse_subscribe_all_view [of H clock ?sid 0 ?cs w2] v2 by (simp add: su)
  show ?thesis
    using assms(2) op cn su over_restores [OF op assms(1) v2] over_restores [OF op assms(1) v3]
    by (cases x; cases y) (auto simp: subscribe_handler_def Let_def split: if_splits)
qed

lemma subscribe_handler_accepted:
  assumes "core_inv H held w" and "subscribe_handler W H clock query a outbox w = (Inr sid, w')"
  obtains ref w1 w3 where "open_session H outbox w = (ref, w1)"
    and "(hub_step H)\<^sup>*\<^sup>* (insert ref held, w1) (insert ref held, w3)" and "w' = arc_drop H ref w3"
    and "reg_get (w_registry w3) sid = Some ref"
    and "\<forall>c \<in> set (channels_from_raw_query query). has_subscription (w_store w3 ref) c"
proof -
  obtain ref w1 where op: "open_session H outbox w = (ref, w1)" by (cases "open_session H outbox w")
  let ?sid = "s_id (w_store w1 ref)" and ?cs = "channels_from_raw_query query"
  obtain x w2 where cn: "sse_connect W H (clock 0) a ?sid w1 = (x, w2)"
    by (cases "sse_connect W H (clock 0) a ?sid w1")
  obtain y w3 where su: "sse_subscribe_all H clock ?sid 0 ?cs w2 = (y, w3)"
    by (cases "sse_subscribe_all H clock ?sid 0 ?cs w2")
  have r: "y = None" "sid = ?sid" "w' = arc_drop H ref w3"
    using assms(2) op cn su
    by (cases x; cases y; auto simp: subscribe_handler_def Let_def split: if_splits)+
  have reg: "reg_get (w_registry w2) sid = Some ref"
    using sse_connect_view [of W H "clock 0" a ?sid w1] open_view(1) [OF op assms(1)] r(2)
    by (simp add: cn reg_view_def)
  have "reg_get (w_registry w3) sid = Some ref"
    using sse_subscribe_all_view [of H clock ?sid 0 ?cs w2] reg by (simp add: su reg_view_def)
  moreover have "\<forall>c \<in> set ?cs. has_subscription (w_store w3 ref) c"
    using sse_subscribe_all_adds [of H clock sid 0 ?cs w2 w3] su r reg by simp
  moreover have "(hub_step H)\<^sup>*\<^sup>* (insert ref held, w1) (insert ref held, w3)"
    using sse_connect_steps [of H "insert ref held" w1 W "clock 0" a ?sid]
      sse_subscribe_all_steps [of H "insert ref held" w2 clock ?sid 0 ?cs] by (simp add: cn su)
  ultimately show thesis using that [OF op _ r(3)] by blast
qed

section \<open>Query strings can be read back\<close>

text \<open>A client's encoder: percent signs for all but the unreserved characters, one pair per channel.\<close>

definition hex_char :: "nat \<Rightarrow> char" where
  "hex_char d = char_of (if d < 10 then 48 + d else 55 + d)"

definition unreserved :: "char \<Rightarrow> bool" where
  "unreserved c \<longleftrightarrow> c \<noteq> CHR ''%'' \<and> c \<noteq> CHR ''+'' \<and> c \<noteq> CHR ''&'' \<and> of_char c < (128 :: nat)"

definition percent_encode :: "string \<Rightarrow> string" where
  "percent_encode s = concat (map (\<lambda>c. if unreserved c then [c]
     else [CHR ''%'', hex_char (of_char c div 16), hex_char (of_char c mod 16)]) s)"

fun channel_query :: "string list \<Rightarrow> string" where
  "channel_query [] = []"
| "channel_query [c] = ''channel='' @ percent_encode c"
| "channel_query (c # cs) = ''channel='' @ percent_encode c @ CHR ''&'' # channel_query cs"

lemma of_hex_char: "d < 16 \<Longrightarrow> of_char (hex_char d) = (if d < 10 then 48 + d else 55 + d :: nat)"
  by (simp add: hex_char_def)

lemma hex_char_neq:
  assumes "d < 16"
  shows "hex_char d \<noteq> CHR ''+''" "hex_char d \<noteq> CHR ''&''" "of_char (hex_char d) < (128 :: nat)"
proof -
  have "48 \<le> (of_char (hex_char d) :: nat)" using assms by (simp add: of_hex_char)
  then show "hex_char d \<noteq> CHR ''+''" "hex_char d \<noteq> CHR ''&''" by auto
  show "of_char (hex_char d) < (128 :: nat)" using assms by (simp add: of_hex_char)
qed

lemma nibbles: "of_char c div 16 < (16 :: nat)" "of_char c mod 16 < (16 :: nat)" for c :: char
  by (simp_all add: less_mult_imp_div_less)

lemma hex_digit_char: "d < 16 \<Longrightarrow> hex_digit (hex_char d) = Some d"
  by (auto simp: hex_digit_def Let_def of_hex_char)

lemma from_hex_pair: "n < 256 \<Longrightarrow> from_str_radix_16 [hex_char (n div 16), hex_char (n mod 16)] = Some n"
  using hex_char_neq [of "n div 16"] by (simp add: from_str_radix_16_def hex_digit_char less_mult_imp_div_less)

lemma url_bytes_encode: "url_bytes (percent_encode s) = Some s"
proof (induction s)
  case (Cons c s)
  let ?n = "of_char c :: nat"
  show ?case
  proof (cases "unreserved c")
    case True
    then have "percent_encode (c # s) = c # percent_encode s" by (simp add: percent_encode_def)
    with Cons True show ?thesis by (simp add: unreserved_def)
  next
    case False
    have n: "?n < 256" by simp
    have "utf8 [hex_char (?n div 16), hex_char (?n mod 16)]"
      by (rule utf8_ascii) (auto simp: hex_char_neq(3) [OF nibbles(1)] hex_char_neq(3) [OF nibbles(2)])
    moreover have "percent_encode (c # s) =
        CHR ''%'' # hex_char (?n div 16) # hex_char (?n mod 16) # percent_encode s"
      using False by (simp add: percent_encode_def)
    ultimately show ?thesis using Cons from_hex_pair [OF n] by (simp add: numeral_2_eq_2)
  qed
qed (simp add: percent_encode_def)

lemma percent_encode_amp: "CHR ''&'' \<notin> set (percent_encode s)"
  by (auto simp: percent_encode_def unreserved_def hex_char_neq(2) [OF nibbles(1), symmetric]
      hex_char_neq(2) [OF nibbles(2), symmetric])

lemma channel_of_encoded:
  "utf8 c \<Longrightarrow> c \<noteq> [] \<Longrightarrow> channel_of_pair (''channel='' @ percent_encode c) = Some c"
  using split_once_append [of "CHR ''=''" "''channel''" "percent_encode c"]
  by (simp add: channel_of_pair_def urlencoding_decode_def url_bytes_encode)

lemma channels_from_encoded:
  "list_all (\<lambda>c. utf8 c \<and> c \<noteq> []) cs \<Longrightarrow> cs \<noteq> [] \<Longrightarrow>
   List.map_filter channel_of_pair (split_on (CHR ''&'') (channel_query cs)) = cs"
proof (induction cs rule: channel_query.induct)
  case (2 c)
  have "split_on (CHR ''&'') (''channel='' @ percent_encode c) = [''channel='' @ percent_encode c]"
    by (rule split_on_whole) (simp add: percent_encode_amp)
  with 2 channel_of_encoded [of c] show ?case by (simp add: map_filter_simps)
next
  case (3 c d cs)
  have "split_on (CHR ''&'') ((''channel='' @ percent_encode c) @ CHR ''&'' # channel_query (d # cs)) =
      (''channel='' @ percent_encode c) # split_on (CHR ''&'') (channel_query (d # cs))"
    by (rule split_on_append) (simp add: percent_encode_amp)
  with 3 channel_of_encoded [of c] show ?case by (simp add: map_filter_simps)
qed simp

end
