(* ===== verification/Admin.thy ===== *)
theory Admin
  imports Sse
begin

text \<open>
  \<open>cherenkov-admin/src/lib.rs\<close>: the admin API. The router is the dispatch on a request's route,
  with the parameters the web framework has parsed from the path; a response carries its status and
  the value that is serialised. The recorder's text is a parameter, the console page a constant file.
\<close>

section \<open>Resources\<close>

definition DEFAULT_API_PREFIX :: string where "DEFAULT_API_PREFIX = ''/admin/v1''"

text \<open>
  A registry is shared by reference: it is the hub's, or a fresh one that nobody registers in. The
  last type variable is the recorder's handle.
\<close>

datatype registry_handle = HubRegistry | FreshRegistry

record ('k, 'b, 't, 'p) admin_resources =
  ar_sessions :: "registry_handle option"
  ar_hub :: "('k, 'b, 't) hub option"
  ar_metrics :: "'p option"
  ar_auth_token :: "string option"

definition admin_new :: "registry_handle \<Rightarrow> ('k, 'b, 't, 'p) admin_resources" where
  "admin_new sessions = \<lparr>ar_sessions = Some sessions, ar_hub = None, ar_metrics = None, ar_auth_token = None\<rparr>"

definition with_hub ::
    "('k, 'b, 't) hub \<Rightarrow> ('k, 'b, 't, 'p) admin_resources \<Rightarrow> ('k, 'b, 't, 'p) admin_resources" where
  "with_hub hub r = r\<lparr>ar_hub := Some hub\<rparr>"

definition with_metrics :: "'p \<Rightarrow> ('k, 'b, 't, 'p) admin_resources \<Rightarrow> ('k, 'b, 't, 'p) admin_resources" where
  "with_metrics m r = r\<lparr>ar_metrics := Some m\<rparr>"

definition with_auth_token :: "string \<Rightarrow> ('k, 'b, 't, 'p) admin_resources \<Rightarrow> ('k, 'b, 't, 'p) admin_resources" where
  "with_auth_token token r = r\<lparr>ar_auth_token := Some token\<rparr>"

record ('k, 'b, 't, 'p) admin_state =
  as_sessions :: registry_handle
  as_hub :: "('k, 'b, 't) hub option"
  as_metrics :: "'p option"
  as_auth_token :: "string option"

definition app_state :: "('k, 'b, 't, 'p) admin_resources \<Rightarrow> ('k, 'b, 't, 'p) admin_state" where
  "app_state r = \<lparr>as_sessions = unwrap_or (ar_sessions r) FreshRegistry, as_hub = ar_hub r,
     as_metrics = ar_metrics r, as_auth_token = ar_auth_token r\<rparr>"

definition the_registry :: "('k, 'b, 't, 'p) admin_state \<Rightarrow> ('k, 'b, 't) world \<Rightarrow> registry" where
  "the_registry s w = (case as_sessions s of HubRegistry \<Rightarrow> w_registry w | FreshRegistry \<Rightarrow> registry_new)"

section \<open>Responses\<close>

record health_response =
  hr_status :: string
  hr_sessions :: nat

record session_summary =
  ss_id :: u64
  ss_subject :: "string option"
  ss_channels :: nat

record session_detail =
  sd_id :: u64
  sd_subject :: "string option"
  sd_channels :: "string list"

record subscribers_response =
  sr_channel :: string
  sr_subscribers :: "u64 list"

record disconnect_response =
  dr_id :: u64
  dr_removed :: bool

datatype admin_body =
    Plain string
  | Health health_response
  | Sessions "session_summary list"
  | Detail session_detail
  | Subscribers subscribers_response
  | Disconnected disconnect_response
  | Console

type_synonym admin_response = "nat \<times> admin_body"

section \<open>Handlers\<close>

definition health :: "('k, 'b, 't, 'p) admin_state \<Rightarrow> ('k, 'b, 't) world \<Rightarrow> admin_response" where
  "health s w = (200, Health \<lparr>hr_status = ''ok'', hr_sessions = reg_len (the_registry s w)\<rparr>)"

definition session_subject :: "session \<Rightarrow> string option" where
  "session_subject session = map_option cl_subject (s_claims session)"

definition list_sessions :: "('k, 'b, 't, 'p) admin_state \<Rightarrow> ('k, 'b, 't) world \<Rightarrow> admin_response" where
  "list_sessions s w =
     (200, Sessions (sort_key ss_id
        (map (\<lambda>ref. \<lparr>ss_id = s_id (w_store w ref), ss_subject = session_subject (w_store w ref),
                       ss_channels = length (session_channels (w_store w ref))\<rparr>)
             (reg_snapshot (the_registry s w)))))"

definition admin_get_session :: "('k, 'b, 't, 'p) admin_state \<Rightarrow> u64 \<Rightarrow> ('k, 'b, 't) world \<Rightarrow> admin_response" where
  "admin_get_session s i w =
     (case reg_get (the_registry s w) i of
        None \<Rightarrow> (404, Plain ''session not found'')
      | Some ref \<Rightarrow>
          (200, Detail \<lparr>sd_id = i, sd_subject = session_subject (w_store w ref),
                        sd_channels = session_channels (w_store w ref)\<rparr>))"

definition channel_subscribers :: "('k, 'b, 't, 'p) admin_state \<Rightarrow> string \<Rightarrow> ('k, 'b, 't) world \<Rightarrow> admin_response" where
  "channel_subscribers s channel w =
     (200, Subscribers \<lparr>sr_channel = channel, sr_subscribers = subscribers_of (the_registry s w) channel\<rparr>)"

definition disconnect_session ::
    "('k, 'b, 't, 'p) admin_state \<Rightarrow> u64 \<Rightarrow> ('k, 'b, 't) world \<Rightarrow> admin_response \<times> ('k, 'b, 't) world" where
  "disconnect_session s i w =
     (case as_hub s of
        None \<Rightarrow> ((404, Plain ''disconnect endpoint not enabled (admin built without hub handle)''), w)
      | Some hub \<Rightarrow>
          (case kick_session hub i w of
             (removed, w') \<Rightarrow> ((200, Disconnected \<lparr>dr_id = i, dr_removed = removed\<rparr>), w')))"

text \<open>\<open>render\<close> is \<open>PrometheusHandle::render\<close>.\<close>

definition metrics_endpoint :: "('p \<Rightarrow> string) \<Rightarrow> ('k, 'b, 't, 'p) admin_state \<Rightarrow> admin_response" where
  "metrics_endpoint render s =
     (case as_metrics s of
        Some handle \<Rightarrow> (200, Plain (render handle))
      | None \<Rightarrow> (503, Plain ''metrics recorder not installed''))"

definition console :: admin_response where "console = (200, Console)"

section \<open>The router\<close>

datatype admin_request =
    GetHealth
  | GetSessions
  | GetSession u64
  | PostDisconnect u64
  | GetSubscribers string
  | GetMetrics
  | GetConsole

definition require_token ::
    "('v, 'body) http \<Rightarrow> ('k, 'b, 't, 'p) admin_state \<Rightarrow> 'v option \<Rightarrow>
     (('k, 'b, 't) world \<Rightarrow> admin_response \<times> ('k, 'b, 't) world) \<Rightarrow>
     ('k, 'b, 't) world \<Rightarrow> admin_response \<times> ('k, 'b, 't) world" where
  "require_token W s authorization next w =
     (case as_auth_token s of
        None \<Rightarrow> next w
      | Some expected \<Rightarrow>
          (case Option.bind (Option.bind authorization (to_str W)) (strip_prefix ''Bearer '') of
             Some t \<Rightarrow>
               if t = expected then next w
               else ((401, Plain ''missing or invalid Authorization: Bearer <token>''), w)
           | None \<Rightarrow> ((401, Plain ''missing or invalid Authorization: Bearer <token>''), w)))"

fun admin_api ::
    "('p \<Rightarrow> string) \<Rightarrow> ('k, 'b, 't, 'p) admin_state \<Rightarrow> admin_request \<Rightarrow> ('k, 'b, 't) world \<Rightarrow>
     admin_response \<times> ('k, 'b, 't) world" where
  "admin_api render s GetHealth w = (health s w, w)"
| "admin_api render s GetSessions w = (list_sessions s w, w)"
| "admin_api render s (GetSession i) w = (admin_get_session s i w, w)"
| "admin_api render s (PostDisconnect i) w = disconnect_session s i w"
| "admin_api render s (GetSubscribers channel) w = (channel_subscribers s channel w, w)"
| "admin_api render s GetMetrics w = (metrics_endpoint render s, w)"
| "admin_api render s GetConsole w = (console, w)"

text \<open>The console is added after the layer that asks for the token, and so is public.\<close>

definition router ::
    "('v, 'body) http \<Rightarrow> ('p \<Rightarrow> string) \<Rightarrow> ('k, 'b, 't, 'p) admin_resources \<Rightarrow> 'v option \<Rightarrow> admin_request \<Rightarrow>
     ('k, 'b, 't) world \<Rightarrow> admin_response \<times> ('k, 'b, 't) world" where
  "router W render resources authorization request w =
     (let s = app_state resources
      in if request = GetConsole then (console, w)
         else require_token W s authorization (admin_api render s request) w)"

section \<open>Access\<close>

definition presents :: "('v, 'body) http \<Rightarrow> 'v option \<Rightarrow> string \<Rightarrow> bool" where
  "presents W authorization token \<longleftrightarrow>
     (\<exists>v. authorization = Some v \<and> to_str W v = Some (''Bearer '' @ token))"

lemma bearer_iff:
  "Option.bind (Option.bind a (to_str W)) (strip_prefix ''Bearer '') = Some t \<longleftrightarrow> presents W a t"
proof (cases "Option.bind a (to_str W)")
  case None
  then show ?thesis by (cases a) (simp_all add: presents_def)
next
  case (Some h)
  then have "presents W a t \<longleftrightarrow> h = ''Bearer '' @ t" by (cases a) (simp_all add: presents_def)
  with Some show ?thesis by (simp only: bind.simps strip_prefix_Some)
qed

lemma router_guard:
  assumes "ar_auth_token resources = Some token" and "request \<noteq> GetConsole"
  shows "router W render resources a request w =
    (if presents W a token then admin_api render (app_state resources) request w
     else ((401, Plain ''missing or invalid Authorization: Bearer <token>''), w))"
proof -
  let ?b = "Option.bind (Option.bind a (to_str W)) (strip_prefix ''Bearer '')"
  have "presents W a token \<longleftrightarrow> ?b = Some token" by (simp only: bearer_iff)
  then show ?thesis
    using assms by (cases ?b) (simp_all add: router_def require_token_def app_state_def)
qed

text \<open>Only a disconnect changes anything, and it is a step of the hub.\<close>

lemma admin_step:
  assumes "ar_hub resources = Some H \<or> ar_hub resources = None"
    and "router W render resources a request w = (r, w')"
  shows "(hub_step H)\<^sup>*\<^sup>* (held, w) (held, w')"
proof -
  have kick: "kick_session H i w = (x, v) \<Longrightarrow> (hub_step H)\<^sup>*\<^sup>* (held, w) (held, v)" for i x v
    using hub_step.Kick [of H held w i] by auto
  show ?thesis
    using assms kick
    by (cases request)
       (auto simp: router_def require_token_def disconnect_session_def app_state_def Let_def
         split: option.splits if_splits prod.splits)
qed

section \<open>The listing\<close>

lemma snapshot_set:
  "registry_wf r \<Longrightarrow> ref \<in> set (reg_snapshot r) \<longleftrightarrow> (\<exists>i. reg_get r i = Some ref)"
  by (force simp: reg_snapshot_def reg_get_def registry_wf_def)

lemma listing_ids:
  assumes "core_inv H held w"
  shows "distinct (map (\<lambda>ref. s_id (w_store w ref)) (reg_snapshot (w_registry w)))"
proof -
  have wf: "registry_wf (w_registry w)" by (rule core_invD(1) [OF assms])
  have "map (\<lambda>ref. s_id (w_store w ref)) (reg_snapshot (w_registry w)) = map fst (r_sessions (w_registry w))"
    unfolding reg_snapshot_def map_map
  proof (rule map_cong [OF refl])
    fix x assume "x \<in> set (r_sessions (w_registry w))"
    then have "reg_get (w_registry w) (fst x) = Some (snd x)"
      using wf by (simp add: reg_get_def registry_wf_def)
    then show "((\<lambda>ref. s_id (w_store w ref)) \<circ> snd) x = fst x"
      using core_invD(2) [OF assms] by simp
  qed
  with wf show ?thesis by (simp add: registry_wf_def)
qed

lemma listing:
  assumes "core_inv H held w" and "as_sessions s = HubRegistry" and "list_sessions s w = (code, Sessions xs)"
  shows "sorted (map ss_id xs)" and "distinct (map ss_id xs)"
    and "x \<in> set xs \<longleftrightarrow> (\<exists>ref. reg_get (w_registry w) (ss_id x) = Some ref \<and>
           ss_subject x = session_subject (w_store w ref) \<and>
           ss_channels x = length (session_channels (w_store w ref)))"
proof -
  let ?f = "\<lambda>ref. \<lparr>ss_id = s_id (w_store w ref), ss_subject = session_subject (w_store w ref),
                    ss_channels = length (session_channels (w_store w ref))\<rparr>"
  let ?ys = "map ?f (reg_snapshot (w_registry w))"
  have xs: "xs = sort_key ss_id ?ys"
    using assms(2,3) by (simp add: list_sessions_def the_registry_def)
  show "sorted (map ss_id xs)" by (simp add: xs)
  have "distinct (map ss_id ?ys)" using listing_ids [OF assms(1)] by (simp add: comp_def)
  then have "distinct ?ys" "inj_on ss_id (set ?ys)" unfolding distinct_map [of ss_id] by blast+
  then show "distinct (map ss_id xs)" unfolding distinct_map [of ss_id] by (simp add: xs)
  have "x \<in> set xs \<longleftrightarrow> (\<exists>ref i. reg_get (w_registry w) i = Some ref \<and> x = ?f ref)"
    using snapshot_set [OF core_invD(1) [OF assms(1)]] by (auto simp: xs)
  then show "x \<in> set xs \<longleftrightarrow> (\<exists>ref. reg_get (w_registry w) (ss_id x) = Some ref \<and>
           ss_subject x = session_subject (w_store w ref) \<and>
           ss_channels x = length (session_channels (w_store w ref)))"
    using core_invD(2) [OF assms(1)] by (cases x) auto
qed

end
