(* ===== verification/Run.thy ===== *)
theory Run
  imports App Admin
begin

text \<open>
  The rest of \<open>cherenkov-server/src/app.rs\<close>: starting the listeners the configuration asks for,
  shutting them down, and waiting for one of them to stop. The operating system (binding a socket) and
  the metrics recorder are parameters; a spawned accept loop is an entry in the process's table of
  tasks, which an abort removes and the drop of its join handle does not.
\<close>

section \<open>The process\<close>

record ('l, 'n, 'p) os =
  tcp_bind :: "socket_addr \<Rightarrow> 'n \<Rightarrow> (string, 'l) result \<times> 'n"
  tcp_local_addr :: "'l \<Rightarrow> (string, socket_addr) result"
  build_recorder :: "'n \<Rightarrow> 'p \<times> 'n"
  set_global_recorder :: "'p \<Rightarrow> 'n \<Rightarrow> bool \<times> 'n"

datatype ('k, 'b, 't, 'l, 'p) service =
    ServeWs 'l string "('k, 'b, 't) hub" nat
  | ServeSse 'l string "('k, 'b, 't) hub"
  | ServeAdmin 'l "('k, 'b, 't, 'p) admin_resources"

record ('k, 'b, 't, 'l, 'n, 'p) process =
  pr_os :: 'n
  pr_tasks :: "nat \<Rightarrow> ('k, 'b, 't, 'l, 'p) service option"
  pr_next :: nat

record run_handle =
  rh_ws_addr :: socket_addr
  rh_sse_addr :: "socket_addr option"
  rh_admin_addr :: "socket_addr option"
  rh_joins :: "nat list"

record server_handle =
  sh_local_addr :: socket_addr
  sh_join :: nat

definition on_os :: "('n \<Rightarrow> 'a \<times> 'n) \<Rightarrow> ('k, 'b, 't, 'l, 'n, 'p) process \<Rightarrow> 'a \<times> ('k, 'b, 't, 'l, 'n, 'p) process" where
  "on_os f pr = (case f (pr_os pr) of (x, n) \<Rightarrow> (x, pr\<lparr>pr_os := n\<rparr>))"

definition spawn ::
    "('k, 'b, 't, 'l, 'p) service \<Rightarrow> (('k, 'b, 't, 'l, 'n, 'p) process, server_error, nat) comp" where
  "spawn s pr = (Inr (pr_next pr),
     pr\<lparr>pr_tasks := (pr_tasks pr)(pr_next pr \<mapsto> s), pr_next := Suc (pr_next pr)\<rparr>)"

definition abort_join :: "nat \<Rightarrow> ('k, 'b, 't, 'l, 'n, 'p) process \<Rightarrow> ('k, 'b, 't, 'l, 'n, 'p) process" where
  "abort_join j pr = pr\<lparr>pr_tasks := (pr_tasks pr)(j := None)\<rparr>"

section \<open>Starting\<close>

text \<open>Bind a listener and read the address it got; \<open>what\<close> names it in the error.\<close>

definition bind_listener ::
    "('l, 'n, 'p) os \<Rightarrow> string \<Rightarrow> socket_addr \<Rightarrow>
     (('k, 'b, 't, 'l, 'n, 'p) process, server_error, 'l \<times> socket_addr) comp" where
  "bind_listener OS what addr pr =
     (case on_os (tcp_bind OS addr) pr of
        (Inl e, pr') \<Rightarrow> (Inl (STransport (what @ '' bind: '' @ e)), pr')
      | (Inr l, pr') \<Rightarrow>
          (case tcp_local_addr OS l of
             Inl e \<Rightarrow> (Inl (STransport e), pr')
           | Inr a \<Rightarrow> (Inr (l, a), pr')))"

text \<open>A second recorder is not installed globally, but its handle is used all the same.\<close>

definition install_prometheus_recorder ::
    "('l, 'n, 'p) os \<Rightarrow> ('k, 'b, 't, 'l, 'n, 'p) process \<Rightarrow> 'p option \<times> ('k, 'b, 't, 'l, 'n, 'p) process" where
  "install_prometheus_recorder OS pr =
     (case on_os (build_recorder OS) pr of
        (handle, pr) \<Rightarrow>
          (case on_os (set_global_recorder OS handle) pr of
             (True, pr) \<Rightarrow> (Some handle, pr)
           | (False, pr) \<Rightarrow> (case on_os (build_recorder OS) pr of (h, pr) \<Rightarrow> (Some h, pr))))"

definition start_ws ::
    "('l, 'n, 'p) os \<Rightarrow> ('k, 'b, 't) hub \<Rightarrow> ws_config \<Rightarrow>
     (('k, 'b, 't, 'l, 'n, 'p) process, server_error, socket_addr \<times> nat) comp" where
  "start_ws OS hub c =
     try_bind (bind_listener OS ''ws'' (ws_listen c)) (\<lambda>(l, a).
     try_bind (spawn (ServeWs l (ws_path c) hub (ws_outbox_capacity c))) (\<lambda>j. ok (a, j)))"

definition start_sse ::
    "('l, 'n, 'p) os \<Rightarrow> ('k, 'b, 't) hub \<Rightarrow> sse_config option \<Rightarrow>
     (('k, 'b, 't, 'l, 'n, 'p) process, server_error, (socket_addr \<times> nat) option) comp" where
  "start_sse OS hub cfg =
     (case cfg of
        None \<Rightarrow> ok None
      | Some c \<Rightarrow>
          try_bind (bind_listener OS ''sse'' (sse_listen c)) (\<lambda>(l, a).
          try_bind (spawn (ServeSse l (sse_path_prefix c) hub)) (\<lambda>j. ok (Some (a, j)))))"

definition build_resources ::
    "('k, 'b, 't) hub \<Rightarrow> 'p option \<Rightarrow> string option \<Rightarrow> ('k, 'b, 't, 'p) admin_resources" where
  "build_resources hub metrics_handle auth_token =
     (let r = with_hub hub (admin_new HubRegistry);
          r = (case metrics_handle of Some h \<Rightarrow> with_metrics h r | None \<Rightarrow> r)
      in (case auth_token of Some t \<Rightarrow> with_auth_token t r | None \<Rightarrow> r))"

definition start_admin ::
    "('l, 'n, 'p) os \<Rightarrow> ('k, 'b, 't) hub \<Rightarrow> admin_config \<Rightarrow>
     (('k, 'b, 't, 'l, 'n, 'p) process, server_error, (socket_addr \<times> nat) option) comp" where
  "start_admin OS hub c =
     (if ac_enabled c then
        try_bind (bind_listener OS ''admin'' (ac_listen c)) (\<lambda>(l, a) pr.
          (case install_prometheus_recorder OS pr of
             (m, pr) \<Rightarrow>
               try_bind (spawn (ServeAdmin l (build_resources hub m (ac_auth_token c)))) (\<lambda>j. ok (Some (a, j))) pr))
      else ok None)"

definition start_all ::
    "('l, 'n, 'p) os \<Rightarrow> ('k, 'b, 't) hub \<Rightarrow> 'j server_config \<Rightarrow>
     (('k, 'b, 't, 'l, 'n, 'p) process, server_error, run_handle) comp" where
  "start_all OS hub config =
     try_bind (start_ws OS hub (tc_ws (sc_transport config))) (\<lambda>(ws, j).
     try_bind (start_sse OS hub (tc_sse (sc_transport config))) (\<lambda>sse.
     try_bind (start_admin OS hub (sc_admin config)) (\<lambda>admin.
     ok \<lparr>rh_ws_addr = ws, rh_sse_addr = map_option fst sse, rh_admin_addr = map_option fst admin,
         rh_joins = j # map snd (List.map_filter id [sse, admin])\<rparr>)))"

text \<open>None is a panic, as in \<open>build_hub\<close>.\<close>

definition run ::
    "('y, 'u, 'm, 'g, 'j, 'v, 'jv, 'jk, 'c, 'pe, 'fg, 'r, 'nt, 't) env \<Rightarrow> ('l, 'n, 'p) os \<Rightarrow>
     'j server_config \<Rightarrow> (('y, 'm) node_kind, ('c, 'r, 'nt) node_broker, 't, 'l, 'n, 'p) process \<Rightarrow>
     (run_handle built \<times> (('y, 'm) node_kind, ('c, 'r, 'nt) node_broker, 't, 'l, 'n, 'p) process)" where
  "run E OS config pr =
     (case build_hub E config of
        None \<Rightarrow> (None, pr)
      | Some (Inl e) \<Rightarrow> (Some (Inl e), pr)
      | Some (Inr (hub, _)) \<Rightarrow> (case start_all OS hub config pr of (r, pr') \<Rightarrow> (Some r, pr')))"

definition run_with_listener ::
    "('y, 'u, 'm, 'g, 'j, 'v, 'jv, 'jk, 'c, 'pe, 'fg, 'r, 'nt, 't) env \<Rightarrow> ('l, 'n, 'p) os \<Rightarrow>
     'j server_config \<Rightarrow> 'l \<Rightarrow> (('y, 'm) node_kind, ('c, 'r, 'nt) node_broker, 't, 'l, 'n, 'p) process \<Rightarrow>
     (server_handle built \<times> (('y, 'm) node_kind, ('c, 'r, 'nt) node_broker, 't, 'l, 'n, 'p) process)" where
  "run_with_listener E OS config listener pr =
     (case tcp_local_addr OS listener of
        Inl e \<Rightarrow> (Some (Inl (STransport e)), pr)
      | Inr a \<Rightarrow>
          (case build_hub E config of
             None \<Rightarrow> (None, pr)
           | Some (Inl e) \<Rightarrow> (Some (Inl e), pr)
           | Some (Inr (hub, _)) \<Rightarrow>
               (let c = tc_ws (sc_transport config)
                in (case spawn (ServeWs listener (ws_path c) hub (ws_outbox_capacity c)) pr of
                      (Inl e, pr') \<Rightarrow> (Some (Inl e), pr')
                    | (Inr j, pr') \<Rightarrow> (Some (Inr \<lparr>sh_local_addr = a, sh_join = j\<rparr>), pr')))))"

section \<open>Stopping\<close>

definition run_shutdown :: "run_handle \<Rightarrow> ('k, 'b, 't, 'l, 'n, 'p) process \<Rightarrow> ('k, 'b, 't, 'l, 'n, 'p) process" where
  "run_shutdown h pr = fold abort_join (rh_joins h) pr"

definition server_shutdown :: "server_handle \<Rightarrow> ('k, 'b, 't, 'l, 'n, 'p) process \<Rightarrow> ('k, 'b, 't, 'l, 'n, 'p) process" where
  "server_shutdown h pr = abort_join (sh_join h) pr"

text \<open>
  \<open>select_all\<close> yields the index of the task that stopped first, with its result or the message of its
  panic; that task has left the table. The others are aborted.
\<close>

definition wait_all ::
    "run_handle \<Rightarrow> nat \<times> (string, (server_error, unit) result) result \<Rightarrow>
     (('k, 'b, 't, 'l, 'n, 'p) process, server_error, unit) comp" where
  "wait_all h first pr =
     (if rh_joins h = [] then (Inr (), pr)
      else case first of
        (idx, result) \<Rightarrow>
          ((case result of Inr inner \<Rightarrow> inner | Inl e \<Rightarrow> Inl (STask e)),
           fold abort_join (take idx (rh_joins h) @ drop (Suc idx) (rh_joins h))
             (abort_join (rh_joins h ! idx) pr)))"

section \<open>What runs\<close>

lemma on_os_tasks [simp]: "pr_tasks (snd (on_os f pr)) = pr_tasks pr" "pr_next (snd (on_os f pr)) = pr_next pr"
  by (simp_all add: on_os_def split: prod.splits)

lemma bind_listener_tasks:
  assumes "bind_listener OS what a pr = (r, pr')"
  shows "pr_tasks pr' = pr_tasks pr" and "pr_next pr' = pr_next pr"
proof -
  have "pr_tasks (snd (bind_listener OS what a pr)) = pr_tasks pr \<and> pr_next (snd (bind_listener OS what a pr)) = pr_next pr"
    using on_os_tasks [of "tcp_bind OS a" pr]
    by (cases "on_os (tcp_bind OS a) pr") (simp add: bind_listener_def split: sum.splits)
  with assms show "pr_tasks pr' = pr_tasks pr" and "pr_next pr' = pr_next pr" by simp_all
qed

text \<open>\<open>l\<close> is the listener the system gave for \<open>addr\<close>, and \<open>a\<close> its local address.\<close>

definition bound :: "('l, 'n, 'p) os \<Rightarrow> socket_addr \<Rightarrow> 'n \<Rightarrow> 'l \<Rightarrow> socket_addr \<Rightarrow> 'n \<Rightarrow> bool" where
  "bound OS addr n l a n' \<longleftrightarrow> tcp_bind OS addr n = (Inr l, n') \<and> tcp_local_addr OS l = Inr a"

lemma bind_listener_bound:
  "bind_listener OS what addr pr = (Inr (l, a), pr') \<Longrightarrow> bound OS addr (pr_os pr) l a (pr_os pr')"
  by (auto simp: bind_listener_def on_os_def bound_def split: prod.splits sum.splits)

lemma recorder_tasks:
  assumes "install_prometheus_recorder OS pr = (m, pr')"
  shows "pr_tasks pr' = pr_tasks pr" and "pr_next pr' = pr_next pr" and "m \<noteq> None"
  using assms
  by (auto simp: install_prometheus_recorder_def on_os_def split: prod.splits bool.splits)

lemma start_ws_Inr:
  assumes "start_ws OS hub c pr = (Inr (a, j), pr')"
  shows "j = pr_next pr \<and> pr_next pr' = Suc j \<and>
    (\<exists>l. bound OS (ws_listen c) (pr_os pr) l a (pr_os pr') \<and>
       pr_tasks pr' = (pr_tasks pr)(j \<mapsto> ServeWs l (ws_path c) hub (ws_outbox_capacity c)))"
proof -
  from assms obtain l pr1 where b: "bind_listener OS ''ws'' (ws_listen c) pr = (Inr (l, a), pr1)"
    and s: "spawn (ServeWs l (ws_path c) hub (ws_outbox_capacity c)) pr1 = (Inr j, pr')"
    by (auto simp: start_ws_def try_bind_eq_Inr ok_def)
  from s bind_listener_bound [OF b] bind_listener_tasks [OF b] show ?thesis by (auto simp: spawn_def)
qed

lemma start_sse_Inr:
  assumes "start_sse OS hub cfg pr = (Inr sse, pr')"
  shows "case cfg of
      None \<Rightarrow> sse = None \<and> pr' = pr
    | Some c \<Rightarrow> \<exists>a l. sse = Some (a, pr_next pr) \<and> bound OS (sse_listen c) (pr_os pr) l a (pr_os pr') \<and>
        pr_next pr' = Suc (pr_next pr) \<and>
        pr_tasks pr' = (pr_tasks pr)(pr_next pr \<mapsto> ServeSse l (sse_path_prefix c) hub)"
proof (cases cfg)
  case None
  with assms show ?thesis by (simp add: start_sse_def ok_def)
next
  case (Some c)
  with assms obtain l a j pr1 where b: "bind_listener OS ''sse'' (sse_listen c) pr = (Inr (l, a), pr1)"
    and s: "spawn (ServeSse l (sse_path_prefix c) hub) pr1 = (Inr j, pr')" and "sse = Some (a, j)"
    by (auto simp: start_sse_def try_bind_eq_Inr ok_def)
  then show ?thesis using Some s bind_listener_bound [OF b] bind_listener_tasks [OF b] by (auto simp: spawn_def)
qed

lemma build_resources_fields [simp]:
  "ar_sessions (build_resources hub m t) = Some HubRegistry" "ar_hub (build_resources hub m t) = Some hub"
  "ar_metrics (build_resources hub m t) = m" "ar_auth_token (build_resources hub m t) = t"
  by (simp_all add: build_resources_def with_hub_def with_metrics_def with_auth_token_def admin_new_def
      Let_def split: option.splits)

lemma start_admin_Inr:
  assumes "start_admin OS hub c pr = (Inr admin, pr')"
  shows "if ac_enabled c
    then \<exists>a l m n. admin = Some (a, pr_next pr) \<and> bound OS (ac_listen c) (pr_os pr) l a n \<and> m \<noteq> None \<and>
        pr_next pr' = Suc (pr_next pr) \<and>
        pr_tasks pr' = (pr_tasks pr)(pr_next pr \<mapsto> ServeAdmin l (build_resources hub m (ac_auth_token c)))
    else admin = None \<and> pr' = pr"
proof (cases "ac_enabled c")
  case False
  with assms show ?thesis by (simp add: start_admin_def ok_def)
next
  case True
  with assms obtain l a pr1 where b: "bind_listener OS ''admin'' (ac_listen c) pr = (Inr (l, a), pr1)"
    and rest: "(case install_prometheus_recorder OS pr1 of (m, pr) \<Rightarrow>
      try_bind (spawn (ServeAdmin l (build_resources hub m (ac_auth_token c)))) (\<lambda>j. ok (Some (a, j))) pr) =
      (Inr admin, pr')"
    by (auto simp: start_admin_def try_bind_eq_Inr)
  obtain m pr2 where r: "install_prometheus_recorder OS pr1 = (m, pr2)" by (cases "install_prometheus_recorder OS pr1")
  have "bound OS (ac_listen c) (pr_os pr) l a (pr_os pr1)" by (rule bind_listener_bound [OF b])
  moreover have "admin = Some (a, pr_next pr) \<and> m \<noteq> None \<and> pr_next pr' = Suc (pr_next pr) \<and>
      pr_tasks pr' = (pr_tasks pr)(pr_next pr \<mapsto> ServeAdmin l (build_resources hub m (ac_auth_token c)))"
    using rest bind_listener_tasks [OF b] recorder_tasks [OF r]
    by (auto simp: r try_bind_eq_Inr spawn_def ok_def)
  ultimately show ?thesis using True by auto
qed

lemma abort_tasks: "pr_tasks (fold abort_join js pr) = (\<lambda>j. if j \<in> set js then None else pr_tasks pr j)"
  by (induction js arbitrary: pr) (auto simp: abort_join_def fun_eq_iff)

text \<open>The services a configuration asks for, on the listeners that were bound.\<close>

definition services ::
    "('k, 'b, 't) hub \<Rightarrow> 'j server_config \<Rightarrow> 'l \<Rightarrow> 'l \<Rightarrow> 'l \<Rightarrow> 'p option \<Rightarrow> ('k, 'b, 't, 'l, 'p) service list" where
  "services hub config lw ls la m =
     (let ws = tc_ws (sc_transport config)
      in ServeWs lw (ws_path ws) hub (ws_outbox_capacity ws) #
         (case tc_sse (sc_transport config) of None \<Rightarrow> [] | Some c \<Rightarrow> [ServeSse ls (sse_path_prefix c) hub]) @
         (if ac_enabled (sc_admin config)
          then [ServeAdmin la (build_resources hub m (ac_auth_token (sc_admin config)))] else []))"

text \<open>
  The listeners were bound one after the other, each on its configured address, and the handle reports
  the addresses they got.
\<close>

definition listening ::
    "('l, 'n, 'p) os \<Rightarrow> 'j server_config \<Rightarrow> 'n \<Rightarrow> 'l \<Rightarrow> 'l \<Rightarrow> 'l \<Rightarrow> 'p option \<Rightarrow> run_handle \<Rightarrow> bool" where
  "listening OS config n lw ls la m h \<longleftrightarrow>
     (\<exists>n1 n2 n3. bound OS (ws_listen (tc_ws (sc_transport config))) n lw (rh_ws_addr h) n1 \<and>
        (case tc_sse (sc_transport config) of
           None \<Rightarrow> rh_sse_addr h = None \<and> n2 = n1
         | Some c \<Rightarrow> \<exists>a. rh_sse_addr h = Some a \<and> bound OS (sse_listen c) n1 ls a n2) \<and>
        (if ac_enabled (sc_admin config)
         then m \<noteq> None \<and> (\<exists>a. rh_admin_addr h = Some a \<and> bound OS (ac_listen (sc_admin config)) n2 la a n3)
         else rh_admin_addr h = None))"

lemma start_all_Inr:
  assumes "start_all OS hub config pr = (Inr h, pr')" and "\<And>j. pr_next pr \<le> j \<Longrightarrow> pr_tasks pr j = None"
  shows "\<exists>lw ls la m. map (pr_tasks pr') (rh_joins h) = map Some (services hub config lw ls la m) \<and>
      listening OS config (pr_os pr) lw ls la m h"
    and "pr_tasks (run_shutdown h pr') = pr_tasks pr"
    and "j \<notin> set (rh_joins h) \<Longrightarrow> pr_tasks pr' j = pr_tasks pr j"
proof -
  let ?ws = "tc_ws (sc_transport config)" and ?sse = "tc_sse (sc_transport config)" and ?ad = "sc_admin config"
  from assms(1) obtain ws j sse admin p1 p2 where
    st: "start_ws OS hub ?ws pr = (Inr (ws, j), p1)" "start_sse OS hub ?sse p1 = (Inr sse, p2)"
      "start_admin OS hub ?ad p2 = (Inr admin, pr')"
    and h: "h = \<lparr>rh_ws_addr = ws, rh_sse_addr = map_option fst sse, rh_admin_addr = map_option fst admin,
      rh_joins = j # map snd (List.map_filter id [sse, admin])\<rparr>"
    by (auto simp: start_all_def try_bind_eq_Inr ok_def)
  note s1 = start_ws_Inr [OF st(1)] and s2 = start_sse_Inr [OF st(2)] and s3 = start_admin_Inr [OF st(3)]
  have free: "pr_tasks pr (pr_next pr) = None" "pr_tasks pr (Suc (pr_next pr)) = None"
    "pr_tasks pr (Suc (Suc (pr_next pr))) = None" using assms(2) by simp_all
  with s1 s2 s3 show "pr_tasks (run_shutdown h pr') = pr_tasks pr"
    and "j \<notin> set (rh_joins h) \<Longrightarrow> pr_tasks pr' j = pr_tasks pr j" for j
    by (auto simp: h run_shutdown_def abort_tasks abort_join_def map_filter_simps fun_eq_iff
        split: option.splits if_splits)
  from s1 obtain lw where w: "bound OS (ws_listen ?ws) (pr_os pr) lw ws (pr_os p1)"
    "j = pr_next pr" "pr_next p1 = Suc j"
    "pr_tasks p1 = (pr_tasks pr)(j \<mapsto> ServeWs lw (ws_path ?ws) hub (ws_outbox_capacity ?ws))" by auto
  obtain ls where e: "case ?sse of None \<Rightarrow> sse = None \<and> p2 = p1
    | Some c \<Rightarrow> \<exists>a. sse = Some (a, pr_next p1) \<and> bound OS (sse_listen c) (pr_os p1) ls a (pr_os p2) \<and>
        pr_next p2 = Suc (pr_next p1) \<and>
        pr_tasks p2 = (pr_tasks p1)(pr_next p1 \<mapsto> ServeSse ls (sse_path_prefix c) hub)"
    using s2 by (cases ?sse) auto
  obtain la m n where d: "if ac_enabled ?ad
    then \<exists>a. admin = Some (a, pr_next p2) \<and> bound OS (ac_listen ?ad) (pr_os p2) la a n \<and> m \<noteq> None \<and>
        pr_tasks pr' = (pr_tasks p2)(pr_next p2 \<mapsto> ServeAdmin la (build_resources hub m (ac_auth_token ?ad)))
    else admin = None \<and> pr' = p2"
    using s3 by (cases "ac_enabled ?ad") (simp_all only: if_True if_False, blast+)
  have "map (pr_tasks pr') (rh_joins h) = map Some (services hub config lw ls la m)"
    using w e d
    by (auto simp: h services_def map_filter_simps Let_def split: option.splits if_splits)
  moreover have "listening OS config (pr_os pr) lw ls la m h"
    unfolding listening_def using w e d
    by (intro exI [of _ "pr_os p1"] exI [of _ "pr_os p2"] exI [of _ n])
       (auto simp: h split: option.splits if_splits)
  ultimately show "\<exists>lw ls la m. map (pr_tasks pr') (rh_joins h) = map Some (services hub config lw ls la m) \<and>
      listening OS config (pr_os pr) lw ls la m h" by blast
qed

text \<open>A start that fails has still started what came before the failure.\<close>

lemma start_all_sse_fails:
  assumes "start_ws OS hub (tc_ws (sc_transport config)) pr = (Inr (a, j), p1)"
    and "start_sse OS hub (tc_sse (sc_transport config)) p1 = (Inl e, p2)"
  shows "start_all OS hub config pr = (Inl e, p2)" and "pr_tasks p2 = pr_tasks p1"
proof -
  show "start_all OS hub config pr = (Inl e, p2)"
    using assms by (simp add: start_all_def try_bind_def)
  show "pr_tasks p2 = pr_tasks p1"
    using assms(2) bind_listener_tasks
    by (auto simp: start_sse_def try_bind_eq_Inl ok_def spawn_def split: option.splits)
qed

end
