(* ===== verification/Serve.thy ===== *)
theory Serve
  imports Run
begin

text \<open>
  The \<open>serve\<close> functions of the transports and of the admin API, and what the tasks that \<open>run\<close>
  spawns end with. Accepting connections and routing requests is the web framework's: \<open>axum\<close> is
  whether a path can be a route (\<open>Router::route\<close> panics otherwise, with the message
  \<open>ax_panic\<close>), and what serving a table of routes ends with.
\<close>

section \<open>Routes\<close>

datatype http_method = Get | Post

text \<open>What a WebSocket connection starts from, whatever capacity was configured.\<close>

record ('k, 'b, 't) ws_state =
  wss_hub :: "('k, 'b, 't) hub"
  wss_outbox_capacity :: nat

datatype admin_endpoint =
    HealthEndpoint
  | SessionsEndpoint
  | SessionEndpoint
  | DisconnectEndpoint
  | SubscribersEndpoint
  | MetricsEndpoint
  | ConsoleEndpoint

datatype ('k, 'b, 't, 'p) handler =
    WsHandler "('k, 'b, 't) ws_state"
  | SubscribeHandler "('k, 'b, 't) hub"
  | PublishHandler "('k, 'b, 't) hub"
  | AdminHandler admin_endpoint "('k, 'b, 't, 'p) admin_resources"

type_synonym ('k, 'b, 't, 'p) route = "http_method \<times> string \<times> ('k, 'b, 't, 'p) handler"

record ('k, 'b, 't, 'l, 'p) axum =
  ax_route :: "string \<Rightarrow> bool"
  ax_panic :: string
  ax_serve :: "'l \<Rightarrow> ('k, 'b, 't, 'p) route list \<Rightarrow> (string, unit) result"

definition ws_routes :: "string \<Rightarrow> ('k, 'b, 't) hub \<Rightarrow> nat \<Rightarrow> ('k, 'b, 't, 'p) route list" where
  "ws_routes path hub outbox_capacity =
     [(Get, path, WsHandler \<lparr>wss_hub = hub, wss_outbox_capacity = max outbox_capacity 1\<rparr>)]"

definition sse_routes :: "string \<Rightarrow> ('k, 'b, 't) hub \<Rightarrow> ('k, 'b, 't, 'p) route list" where
  "sse_routes path_prefix hub =
     [(Get, path_prefix @ ''/subscribe'', SubscribeHandler hub),
      (Post, path_prefix @ ''/publish'', PublishHandler hub)]"

definition admin_routes :: "('k, 'b, 't, 'p) admin_resources \<Rightarrow> ('k, 'b, 't, 'p) route list" where
  "admin_routes r =
     [(Get, DEFAULT_API_PREFIX @ ''/health'', AdminHandler HealthEndpoint r),
      (Get, DEFAULT_API_PREFIX @ ''/sessions'', AdminHandler SessionsEndpoint r),
      (Get, DEFAULT_API_PREFIX @ ''/sessions/{id}'', AdminHandler SessionEndpoint r),
      (Post, DEFAULT_API_PREFIX @ ''/sessions/{id}/disconnect'', AdminHandler DisconnectEndpoint r),
      (Get, DEFAULT_API_PREFIX @ ''/channels/{channel}/subscribers'', AdminHandler SubscribersEndpoint r),
      (Get, DEFAULT_API_PREFIX @ ''/metrics'', AdminHandler MetricsEndpoint r),
      (Get, ''/admin'', AdminHandler ConsoleEndpoint r)]"

section \<open>Serving\<close>

text \<open>None is a panic while the table of routes is built.\<close>

definition axum_serve ::
    "('k, 'b, 't, 'l, 'p) axum \<Rightarrow> 'l \<Rightarrow> ('k, 'b, 't, 'p) route list \<Rightarrow> (string, unit) result option" where
  "axum_serve AX listener routes =
     (if list_all (\<lambda>(_, path, _). ax_route AX path) routes then Some (ax_serve AX listener routes) else None)"

definition ws_serve_on_listener ::
    "('k, 'b, 't, 'l, 'p) axum \<Rightarrow> 'l \<Rightarrow> string \<Rightarrow> ('k, 'b, 't) hub \<Rightarrow> nat \<Rightarrow>
     (transport_error, unit) result option" where
  "ws_serve_on_listener AX listener path hub outbox_capacity =
     map_option (map_sum TransportOther id) (axum_serve AX listener (ws_routes path hub outbox_capacity))"

definition sse_serve_on_listener ::
    "('k, 'b, 't, 'l, 'p) axum \<Rightarrow> 'l \<Rightarrow> string \<Rightarrow> ('k, 'b, 't) hub \<Rightarrow> (transport_error, unit) result option" where
  "sse_serve_on_listener AX listener path_prefix hub =
     map_option (map_sum TransportOther id) (axum_serve AX listener (sse_routes path_prefix hub))"

definition admin_serve_on_listener ::
    "('k, 'b, 't, 'l, 'p) axum \<Rightarrow> 'l \<Rightarrow> ('k, 'b, 't, 'p) admin_resources \<Rightarrow> (string, unit) result option" where
  "admin_serve_on_listener AX listener resources = axum_serve AX listener (admin_routes resources)"

definition ws_serve ::
    "('l, 'n, 'p) os \<Rightarrow> ('k, 'b, 't, 'l, 'p) axum \<Rightarrow> ('k, 'b, 't) ws_transport \<Rightarrow> 'n \<Rightarrow>
     (transport_error, unit) result option \<times> 'n" where
  "ws_serve OS AX t n =
     (case tcp_bind OS (wt_listen t) n of
        (Inl e, n') \<Rightarrow> (Some (Inl (Bind e)), n')
      | (Inr listener, n') \<Rightarrow>
          (case tcp_local_addr OS listener of
             Inl e \<Rightarrow> (Some (Inl (Bind e)), n')
           | Inr _ \<Rightarrow> (ws_serve_on_listener AX listener (wt_path t) (wt_hub t) (wt_outbox_capacity t), n')))"

definition sse_serve ::
    "('l, 'n, 'p) os \<Rightarrow> ('k, 'b, 't, 'l, 'p) axum \<Rightarrow> ('k, 'b, 't) sse_transport \<Rightarrow> 'n \<Rightarrow>
     (transport_error, unit) result option \<times> 'n" where
  "sse_serve OS AX t n =
     (case tcp_bind OS (st_listen t) n of
        (Inl e, n') \<Rightarrow> (Some (Inl (Bind e)), n')
      | (Inr listener, n') \<Rightarrow> (sse_serve_on_listener AX listener (st_path_prefix t) (st_hub t), n'))"

definition admin_serve ::
    "('l, 'n, 'p) os \<Rightarrow> ('k, 'b, 't, 'l, 'p) axum \<Rightarrow> socket_addr \<Rightarrow> ('k, 'b, 't, 'p) admin_resources \<Rightarrow> 'n \<Rightarrow>
     (string, unit) result option \<times> 'n" where
  "admin_serve OS AX listen resources n =
     (case tcp_bind OS listen n of
        (Inl e, n') \<Rightarrow> (Some (Inl e), n')
      | (Inr listener, n') \<Rightarrow> (admin_serve_on_listener AX listener resources, n'))"

text \<open>
  What the task of a service ends with, as its join handle reports it: the message of a panic, or the
  closure's result.
\<close>

definition joined :: "string \<Rightarrow> ('e \<Rightarrow> string) \<Rightarrow> string \<Rightarrow> ('e, unit) result option \<Rightarrow>
    (string, (server_error, unit) result) result" where
  "joined panic show what r =
     (case r of None \<Rightarrow> Inl panic | Some r \<Rightarrow> Inr (map_sum (\<lambda>e. STransport (what @ '': '' @ show e)) id r))"

fun service_outcome ::
    "('k, 'b, 't, 'l, 'p) axum \<Rightarrow> ('k, 'b, 't, 'l, 'p) service \<Rightarrow>
     (string, (server_error, unit) result) result" where
  "service_outcome AX (ServeWs l path hub cap) =
     joined (ax_panic AX) transport_error_msg ''ws'' (ws_serve_on_listener AX l path hub cap)"
| "service_outcome AX (ServeSse l prefix hub) =
     joined (ax_panic AX) transport_error_msg ''sse'' (sse_serve_on_listener AX l prefix hub)"
| "service_outcome AX (ServeAdmin l resources) =
     joined (ax_panic AX) id ''admin'' (admin_serve_on_listener AX l resources)"

section \<open>What serving promises\<close>

text \<open>A channel of capacity zero cannot be made; every outbox has room for a frame.\<close>

lemma ws_capacity_positive:
  "(m, p, WsHandler s) \<in> set (ws_routes path hub cap) \<Longrightarrow> 0 < wss_outbox_capacity s"
  by (simp add: ws_routes_def)

lemma builder_capacity_positive:
  "0 < wt_outbox_capacity (ws_build hub (ws_with_outbox_capacity cap b))"
  "0 < wt_outbox_capacity (ws_build hub (ws_builder_new a))"
  "wt_build ep hub (wt_with_outbox_capacity cap wb) = Inr t \<Longrightarrow> 0 < wtt_outbox_capacity t"
  "wt_build ep hub (wt_builder_new a i) = Inr t' \<Longrightarrow> 0 < wtt_outbox_capacity t'"
  by (auto simp: ws_build_def ws_with_outbox_capacity_def ws_builder_new_def WS_DEFAULT_OUTBOX_CAPACITY_def
      wt_build_def wt_with_outbox_capacity_def wt_builder_new_def WT_DEFAULT_OUTBOX_CAPACITY_def
      split: sum.splits)

text \<open>
  A route must begin with a slash. The admin API's always do; the path of the WebSocket section is
  not checked before the task has been started, which then panics.
\<close>

lemma admin_routes_slash: "(m, p, h) \<in> set (admin_routes r) \<Longrightarrow> \<exists>q. p = CHR ''/'' # q"
  by (auto simp: admin_routes_def DEFAULT_API_PREFIX_def)

lemma ws_bad_path_panics:
  assumes "\<And>p. ax_route AX p \<Longrightarrow> \<exists>q. p = CHR ''/'' # q" and "\<nexists>q. path = CHR ''/'' # q"
  shows "service_outcome AX (ServeWs l path hub cap) = Inl (ax_panic AX)"
  using assms by (auto simp: ws_serve_on_listener_def axum_serve_def ws_routes_def joined_def)

end
