(* ===== verification/Example.thy ===== *)
theory Example
  imports App
begin

text \<open>
  A small concrete server for the examples: every library parameter is instantiated by an executable
  function, and the configuration has authentication, an access control list, a schema and a CRDT
  namespace. Its states are computed by the model.
\<close>

section \<open>Libraries\<close>

text \<open>A token is \<open>secret:subject\<close>; it decodes under its own secret.\<close>

definition demo_jwt :: "(unit, bytes) jsonwebtoken" where
  "demo_jwt = \<lparr>validation_new = (\<lambda>_. ()), set_audience = (\<lambda>_ v. v), validate_aud = (\<lambda>_ v. v),
     set_issuer = (\<lambda>_ v. v), from_secret = (\<lambda>s. s),
     jwt_decode = (\<lambda>_ token key _. case split_once (CHR '':'') token of
        None \<Rightarrow> Inl ''InvalidToken''
      | Some (secret, sub) \<Rightarrow>
          if as_bytes secret = key then Inr \<lparr>jc_sub = sub, jc_permissions = [], jc_exp = 0\<rparr>
          else Inl ''InvalidSignature'')\<rparr>"

definition demo_libs where
  "demo_libs = \<lparr>lib_broadcast = bcast_ops, lib_prost = wire, lib_fred = queue_fred, lib_nats = sim_nats\<rparr>"

definition demo_env where
  "demo_env = \<lparr>env_yrs = max_doc, env_automerge = max_am, env_glob = star_glob, env_json = len_lib,
     env_read = (\<lambda>_. Inl ''no such file''), env_jwt = demo_jwt, env_brokers = demo_libs,
     env_chans = bcast_init, env_redis = [],
     env_nats = \<lparr>ns_next = 0, ns_subject = (\<lambda>_. []), ns_queue = (\<lambda>_. [])\<rparr>, env_rt = rt_ops\<rparr>"

definition demo_cfg :: "bytes server_config" where
  "demo_cfg = server_config_default
     \<lparr>sc_auth := Some \<lparr>au_hmac_secret = ''k'', au_audiences = [], au_issuer = None\<rparr>,
      sc_acl := Some \<lparr>al_rules =
        [\<lparr>rc_effect = EffDeny, rc_channel = ''rooms.admin'', rc_subject = None, rc_action = ActionAny\<rparr>,
         \<lparr>rc_effect = EffAllow, rc_channel = ''rooms.*'', rc_subject = None, rc_action = ActionAny\<rparr>],
        al_default_allow = False\<rparr>,
      sc_namespaces := [(''rooms'', \<lparr>nc_kind = JsonSchema, nc_schema = Some [1, 2], nc_schema_path = None\<rparr>)],
      sc_channel_kinds := [(''doc'', CrdtYjs)]\<rparr>"

definition demo_acl :: "string namespace_acl" where
  "demo_acl = \<lparr>acl_rules =
     [\<lparr>rule_effect = EDeny, rule_channel = ''rooms.admin'', rule_subject = None, rule_action = MatchAny\<rparr>,
      \<lparr>rule_effect = EAllow, rule_channel = ''rooms.*'', rule_subject = None, rule_action = MatchAny\<rparr>],
     acl_default_allow = False\<rparr>"

definition demo_hub where
  "demo_hub = \<lparr>hub_kind = 0, hub_namespace_kinds = [''doc'' \<mapsto> 1], hub_kops = dyn_ops max_doc max_am,
     hub_broker = node_br_ops demo_libs Memory,
     hub_validator = schema_registry_validator len_lib \<lparr>sr_schemas = [(''rooms'', 2)]\<rparr>,
     hub_authenticator = jwt_authenticator demo_jwt \<lparr>ja_key = [107], ja_validation = ()\<rparr>,
     hub_acl = namespace_acl_checker star_glob demo_acl, hub_rt = rt_ops\<rparr>"

definition demo_broker :: "(bcast, fred_message list, nats_sim) node_broker" where
  "demo_broker = BMem (mem_with_capacity 1024 bcast_init)"

definition demo_start where "demo_start = world_new (node_kinds demo_cfg) demo_broker rt_init"

lemma demo_build: "build_hub demo_env demo_cfg = Some (Inr (demo_hub, node_kinds demo_cfg, demo_broker))"
proof -
  note [simp] = demo_env_def demo_cfg_def demo_libs_def server_config_default_def
  have br: "build_broker (env_brokers demo_env) (env_chans demo_env) (env_redis demo_env)
      (env_nats demo_env) (sc_broker demo_cfg) = Inr demo_broker"
    by (simp add: build_broker_def broker_config_default_def demo_broker_def)
  have sc: "build_schema_registry (env_json demo_env) (env_read demo_env) (sc_namespaces demo_cfg) =
      Some (Inr \<lparr>sr_schemas = [(''rooms'', 2)]\<rparr>)"
    by (simp add: build_schema_registry_def validate_schema_source_def schema_value_def
        with_namespace_def len_lib_def schema_build_def schema_builder_new_def)
  have au: "build_authenticator (env_jwt demo_env) (sc_auth demo_cfg) =
      Some (Inr (jwt_authenticator demo_jwt \<lparr>ja_key = [107], ja_validation = ()\<rparr>))"
    by (simp add: build_authenticator_def jwt_build_def jwt_builder_defs demo_jwt_def as_bytes_def)
  have ac: "build_acl (env_glob demo_env) (sc_acl demo_cfg) =
      Inr (namespace_acl_checker star_glob demo_acl)"
    by (simp add: build_acl_def compile_rule_def try_allow_def try_deny_def rule_new_def star_glob_def
        with_rule_def default_allow_def acl_builder_def acl_build_def demo_acl_def)
  show ?thesis
    unfolding build_hub_def br sc au ac
    by (simp add: Let_def with_channel_kind_def with_broker_def with_schema_validator_def
        with_authenticator_def with_acl_checker_def route_namespaces_def with_channel_kind_for_def
        builder_new_def build_def unwrap_or_def demo_hub_def broker_config_default_def)
qed

section \<open>A run\<close>

lemma demo_sel [simp]:
  "hub_kops demo_hub = dyn_ops max_doc max_am" "hub_broker demo_hub = node_br_ops demo_libs Memory"
  "hub_rt demo_hub = rt_ops" "hub_acl demo_hub = namespace_acl_checker star_glob demo_acl"
  "hub_authenticator demo_hub = jwt_authenticator demo_jwt \<lparr>ja_key = [107], ja_validation = ()\<rparr>"
  "hub_validator demo_hub = schema_registry_validator len_lib \<lparr>sr_schemas = [(''rooms'', 2)]\<rparr>"
  "hub_kind demo_hub = 0" "hub_namespace_kinds demo_hub = [''doc'' \<mapsto> 1]"
  by (simp_all add: demo_hub_def)

definition alice :: session_claims where
  "alice = \<lparr>cl_subject = ''alice'', cl_permissions = [], cl_expires_at = 0\<rparr>"

definition demo_open where
  "demo_open = snd (open_session demo_hub 7 demo_start)"

definition demo_connected where
  "demo_connected = snd (handle_connect demo_hub 0 0 1 ''k:alice'' demo_open)"

definition demo_subscribed where
  "demo_subscribed = snd (handle_subscribe demo_hub 0 0 2 ''rooms.a'' 0 demo_connected)"

lemma demo_open_eq:
  "demo_open = demo_start\<lparr>w_registry := \<lparr>r_next_id = 1, r_sessions = [(0, 0)], r_channels = []\<rparr>,
     w_store := (\<lambda>_. session_new 0 0 0)(0 := session_new 0 7 0), w_strong := (\<lambda>_. 0)(0 := 2),
     w_next_ref := 1, w_rt := rt_init\<lparr>rt_notifiers := 1\<rparr>,
     w_metrics := \<lparr>m_opened = 1, m_closed = 0, m_kicked = 0, m_published = 0, m_active = 1\<rparr>\<rparr>"
  by (simp add: demo_open_def open_session_def demo_start_def world_new_def registry_new_def next_id_def
      rt_ops_def rt_init_def reg_get_def register_def set_active_def reg_len_def)

lemma demo_connect:
  "handle_connect demo_hub 0 0 rid ''k:alice'' demo_open =
     (Inr \<lparr>connok_request_id = rid, connok_subject = ''alice'', connok_expires_at = 0\<rparr>, demo_connected)"
  by (simp add: demo_connected_def demo_open_eq handle_connect_def try_bind_def get_session_def reg_get_def
      session_new_def jwt_authenticate_def demo_jwt_def as_bytes_def)

lemma demo_connected_eq:
  "demo_connected = demo_open\<lparr>w_store := (\<lambda>_. session_new 0 0 0)
     (0 := (session_new 0 7 0)\<lparr>s_claims := Some alice\<rparr>)\<rparr>"
  by (simp add: demo_connected_def demo_open_eq handle_connect_def try_bind_def get_session_def reg_get_def
      session_new_def jwt_authenticate_def demo_jwt_def as_bytes_def upd_session_def set_claims_def alice_def)

text \<open>The evaluation rules of the checks a request passes.\<close>

lemma demo_acl_rooms:
  "acl_check (namespace_acl_checker star_glob demo_acl) cl act ''rooms.a'' = Inr Allow"
  by (simp add: namespace_acl_checker_def namespace_check_def demo_acl_def rule_matches_def star_glob_def)

lemma demo_kind [simp]: "kind_for demo_hub ''rooms.a'' = 0"
  by (simp add: kind_for_def namespace_of_def unwrap_or_def)

lemma demo_kinds_0: "node_kinds demo_cfg 0 = KPubSub (with_bounds 256 (300 * 1000000000))"
  by (simp add: node_kinds_def demo_cfg_def server_config_default_def channel_pubsub_config_default_def
      history_ttl_def)

definition demo_broker_1 :: "(bcast, fred_message list, nats_sim) node_broker" where
  "demo_broker_1 = BMem \<lparr>mb_topics = [(''rooms.a'', 0)], mb_capacity = 1024,
     mb_chans = bcast_init\<lparr>bs_next_tx := 1, bs_next_rx := 1, bs_cap := (\<lambda>_. 0)(0 := 1024),
       bs_rx := (\<lambda>_. None)(0 \<mapsto> 0)\<rparr>, mb_labels = [0 \<mapsto> ''rooms.a''], mb_dropped = (\<lambda>_. 0)\<rparr>"

lemma demo_br_subscribe:
  "br_subscribe (node_br_ops demo_libs Memory) ''rooms.a'' demo_broker = (Inr 0, demo_broker_1)"
  by (simp add: node_br_ops_def demo_broker_def demo_broker_1_def demo_libs_def mem_ops_def
      mem_subscribe_def sender_for_def mem_with_capacity_def bcast_ops_def bcast_init_def bcast_rx_def
      fun_eq_iff)

definition demo_task :: forwarder where
  "demo_task = \<lparr>fw_channel = ''rooms.a'', fw_stream = 0, fw_outbox = 7\<rparr>"

lemma demo_subscribe:
  "handle_subscribe demo_hub 0 0 rid ''rooms.a'' 0 demo_connected =
     (Inr \<lparr>subok_request_id = rid, subok_channel = ''rooms.a'', subok_epoch = 1, subok_offset = 0\<rparr>,
      demo_connected
        \<lparr>w_registry := \<lparr>r_next_id = 1, r_sessions = [(0, 0)], r_channels = [(''rooms.a'', [0])]\<rparr>,
         w_store := (w_store demo_connected)(0 := (w_store demo_connected 0)
           \<lparr>s_subscriptions := [(''rooms.a'', 0)]\<rparr>),
         w_kinds := (w_kinds demo_connected)(0 := w_kinds demo_connected 0),
         w_broker := demo_broker_1,
         w_rt := rt_init\<lparr>rt_notifiers := 1, rt_running := [0 \<mapsto> demo_task], rt_next := 1\<rparr>\<rparr>)"
  by (simp add: handle_subscribe_def try_bind_def get_session_def demo_connected_eq demo_open_eq
      reg_get_def require_claims_def enforce_acl_def demo_acl_rooms ok_def check_not_subscribed_def
      has_subscription_def session_new_def on_kind_def demo_start_def world_new_def demo_kinds_0
      pubsub_ops_def pubsub_on_subscribe_def lift_comp_def or_cleanup_def on_broker_def
      demo_br_subscribe replay_def attach_def Let_def insert_subscription_def upd_registry_def
      upd_session_def add_subscription_def subscribers_of_def pubsub_cursor_def with_bounds_def
      rt_ops_def rt_init_def demo_task_def)

lemma demo_subscribed_eq:
  "demo_subscribed = \<lparr>w_registry = \<lparr>r_next_id = 1, r_sessions = [(0, 0)], r_channels = [(''rooms.a'', [0])]\<rparr>,
     w_store = (\<lambda>_. session_new 0 0 0)(0 := (session_new 0 7 0)
       \<lparr>s_claims := Some alice, s_subscriptions := [(''rooms.a'', 0)]\<rparr>),
     w_strong = (\<lambda>_. 0)(0 := 2), w_next_ref = 1, w_kinds = node_kinds demo_cfg, w_broker = demo_broker_1,
     w_rt = rt_init\<lparr>rt_notifiers := 1, rt_running := [0 \<mapsto> demo_task], rt_next := 1\<rparr>,
     w_metrics = \<lparr>m_opened = 1, m_closed = 0, m_kicked = 0, m_published = 0, m_active = 1\<rparr>\<rparr>"
  unfolding demo_subscribed_def demo_subscribe snd_conv
  by (simp add: demo_connected_eq demo_open_eq demo_start_def world_new_def session_new_def)

lemma demo_opened: "open_session demo_hub 7 demo_start = (0, demo_open)" "s_id (w_store demo_open 0) = 0"
  by (simp add: demo_open_def open_session_def demo_start_def world_new_def Let_def split: prod.splits)
     (simp add: demo_open_eq session_new_def)

lemma demo_few: "m_opened (w_metrics demo_start) + 1 < 2 ^ 64"
  by (simp add: demo_start_def world_new_def)

lemma demo_reachable: "reachable demo_hub demo_start ({0}, demo_subscribed)"
proof -
  have "hub_step demo_hub ({}, demo_start) (insert 0 {}, demo_open)"
    by (rule hub_step.Open [OF demo_few demo_opened(1)])
  moreover have "hub_step demo_hub ({0}, demo_open) ({0}, demo_connected)"
    unfolding demo_connected_def by (rule hub_step.ConnectStep)
  moreover have "hub_step demo_hub ({0}, demo_connected) ({0}, demo_subscribed)"
    unfolding demo_subscribed_def by (rule hub_step.SubscribeStep)
  ultimately show ?thesis
    by (blast intro: reachable.intros)
qed

definition demo_pub :: publication where
  "demo_pub = \<lparr>pub_channel = ''rooms.a'', pub_offset = 0, pub_data = [9, 9]\<rparr>"

definition demo_published where
  "demo_published = snd (handle_publish demo_hub 5 0 ''rooms.a'' [9, 9] demo_subscribed)"

lemma demo_schema:
  "validate (schema_registry_validator len_lib \<lparr>sr_schemas = [(''rooms'', 2)]\<rparr>) ''rooms.a'' d =
     (if d = [] then Inl (PayloadRejected ''rooms.a'' ''payload is not valid JSON: EOF'')
      else if length d \<le> 2 then Inr () else Inl (PayloadRejected ''rooms.a'' ''too long''))"
  by (simp add: schema_registry_validator_def schema_validate_def namespace_of_def len_lib_def)

text \<open>The broker keeps a receiver on the topic, so publishing on it always succeeds.\<close>

definition demo_serving :: "(bcast, fred_message list, nats_sim) node_broker \<Rightarrow> bool" where
  "demo_serving x = (case x of
     BMem b \<Rightarrow> map_of (mb_topics b) ''rooms.a'' = Some 0 \<and> bcast_rx (mb_chans b) 0 = Some 0
   | _ \<Rightarrow> False)"

lemma demo_serving_1: "demo_serving demo_broker_1"
  by (simp add: demo_serving_def demo_broker_1_def bcast_rx_def)

lemma demo_serving_publish:
  assumes "demo_serving x"
  shows "fst (br_publish (node_br_ops demo_libs Memory) ''rooms.a'' p x) = Inr ()"
    and "demo_serving (snd (br_publish (node_br_ops demo_libs Memory) ''rooms.a'' p x))"
proof -
  obtain b where x: "x = BMem b" and t: "map_of (mb_topics b) ''rooms.a'' = Some 0"
    and r: "bcast_rx (mb_chans b) 0 = Some 0"
    using assms by (auto simp: demo_serving_def split: node_broker.splits)
  have ex: "list_ex (\<lambda>r. bcast_rx (mb_chans b) r = Some 0) [0..<bs_next_rx (mb_chans b)]"
    using r bcast_rx_less [OF r] by (auto simp: list_ex_iff)
  have "mem_publish bcast_ops ''rooms.a'' p b =
      (Inr (), b\<lparr>mb_chans := snd (bc_send bcast_ops 0 p (mb_chans b))\<rparr>)"
    using ex by (simp add: mem_publish_def t bcast_ops_def)
  moreover have "bcast_rx (snd (bc_send bcast_ops 0 p c)) r' = bcast_rx c r'" for c r'
    by (simp add: bcast_ops_def bcast_rx_def split: option.splits)
  ultimately show "fst (br_publish (node_br_ops demo_libs Memory) ''rooms.a'' p x) = Inr ()"
    and "demo_serving (snd (br_publish (node_br_ops demo_libs Memory) ''rooms.a'' p x))"
    using t r by (simp_all add: x node_br_ops_def demo_libs_def mem_ops_def lift_comp_def demo_serving_def)
qed

lemma demo_publish:
  "handle_publish demo_hub 5 0 ''rooms.a'' [9, 9] demo_subscribed = (Inr demo_pub, demo_published)"
proof -
  obtain b where b: "br_publish (node_br_ops demo_libs Memory) ''rooms.a''
      \<lparr>pub_channel = ''rooms.a'', pub_offset = 0, pub_data = [9, 9]\<rparr> demo_broker_1 = (Inr (), b)"
    using demo_serving_publish(1) [OF demo_serving_1] by (metis prod.collapse)
  have "fst (handle_publish demo_hub 5 0 ''rooms.a'' [9, 9] demo_subscribed) = Inr demo_pub"
    by (simp add: handle_publish_def try_bind_Inr get_session_def demo_subscribed_eq reg_get_def
        require_claims_def session_new_def enforce_acl_def demo_acl_rooms ok_def check_schema_def
        demo_schema on_kind_def demo_kinds_0 lift_comp_def pubsub_ops_def pubsub_on_publish_def Let_def
        with_bounds_def evict_expired_def on_broker_def count_publication_def demo_pub_def b)
  then show ?thesis unfolding demo_published_def by (metis prod.collapse)
qed

lemma demo_published_state:
  "w_kinds demo_published 0 = KPubSub ((with_bounds 256 (300 * 1000000000))\<lparr>ps_state :=
     [''rooms.a'' \<mapsto> \<lparr>cs_next_offset = 1,
        cs_entries = [\<lparr>he_inserted_at = 5, he_offset = 0, he_data = [9, 9]\<rparr>]\<rparr>]\<rparr>)"
  "w_registry demo_published = w_registry demo_subscribed"
  "w_store demo_published 0 = w_store demo_subscribed 0"
  "demo_serving (w_broker demo_published)"
proof -
  obtain b where b: "br_publish (node_br_ops demo_libs Memory) ''rooms.a'' demo_pub demo_broker_1 = (Inr (), b)"
    and s: "demo_serving b"
    using demo_serving_publish [OF demo_serving_1, of demo_pub] by (metis prod.collapse)
  have eq: "demo_published = demo_subscribed\<lparr>w_kinds := (node_kinds demo_cfg)(0 := KPubSub
      ((with_bounds 256 (300 * 1000000000))\<lparr>ps_state := [''rooms.a'' \<mapsto> \<lparr>cs_next_offset = 1,
        cs_entries = [\<lparr>he_inserted_at = 5, he_offset = 0, he_data = [9, 9]\<rparr>]\<rparr>]\<rparr>)),
      w_broker := b, w_metrics := (w_metrics demo_subscribed)\<lparr>m_published := 1\<rparr>\<rparr>"
    unfolding demo_published_def
    by (simp add: handle_publish_def try_bind_def get_session_def demo_subscribed_eq reg_get_def
        require_claims_def session_new_def enforce_acl_def demo_acl_rooms ok_def check_schema_def
        demo_schema on_kind_def demo_kinds_0 lift_comp_def pubsub_ops_def pubsub_on_publish_def Let_def
        with_bounds_def evict_expired_def on_broker_def count_publication_def
        b [unfolded demo_pub_def] saturating_add_def)
  show "w_kinds demo_published 0 = KPubSub ((with_bounds 256 (300 * 1000000000))\<lparr>ps_state :=
     [''rooms.a'' \<mapsto> \<lparr>cs_next_offset = 1,
        cs_entries = [\<lparr>he_inserted_at = 5, he_offset = 0, he_data = [9, 9]\<rparr>]\<rparr>]\<rparr>)"
    "w_registry demo_published = w_registry demo_subscribed"
    "w_store demo_published 0 = w_store demo_subscribed 0"
    "demo_serving (w_broker demo_published)"
    unfolding eq using s by simp_all
qed

lemma demo_publish_again:
  "fst (handle_publish demo_hub 6 0 ''rooms.a'' [8] demo_published) =
     Inr \<lparr>pub_channel = ''rooms.a'', pub_offset = 1, pub_data = [8]\<rparr>"
proof -
  obtain b where b: "br_publish (node_br_ops demo_libs Memory) ''rooms.a''
      \<lparr>pub_channel = ''rooms.a'', pub_offset = 1, pub_data = [8]\<rparr> (w_broker demo_published) = (Inr (), b)"
    using demo_serving_publish(1) [OF demo_published_state(4)] by (metis prod.collapse)
  show ?thesis
    by (simp add: handle_publish_def try_bind_Inr get_session_def demo_published_state reg_get_def
        demo_subscribed_eq require_claims_def session_new_def enforce_acl_def demo_acl_rooms ok_def
        check_schema_def demo_schema on_kind_def lift_comp_def pubsub_ops_def pubsub_on_publish_def
        Let_def with_bounds_def evict_expired_def on_broker_def count_publication_def b)
qed

text \<open>
  A channel with a past: the connected session publishes on \<open>rooms.a\<close> before anybody listens.
\<close>

definition demo_history where
  "demo_history n s = demo_connected\<lparr>w_kinds := (node_kinds demo_cfg)(0 := KPubSub s),
     w_metrics := (w_metrics demo_connected)\<lparr>m_published := n\<rparr>\<rparr>"

lemma demo_history_start:
  "demo_connected = demo_history 0 (with_bounds 256 (300 * 1000000000))"
  by (simp add: demo_history_def demo_connected_eq demo_open_eq demo_start_def world_new_def fun_eq_iff
      demo_kinds_0)

lemma demo_history_publish:
  assumes "d \<noteq> []" and "length d \<le> 2"
  shows "snd (handle_publish demo_hub now 0 ''rooms.a'' d (demo_history n s)) =
     demo_history (n + 1) (snd (pubsub_on_publish now ''rooms.a'' d s))"
proof -
  have b: "br_publish (node_br_ops demo_libs Memory) ''rooms.a'' p demo_broker = (Inr (), demo_broker)" for p
    by (simp add: node_br_ops_def demo_libs_def mem_ops_def lift_comp_def demo_broker_def mem_publish_def
        mem_with_capacity_def)
  show ?thesis
    using assms
    by (simp add: handle_publish_def try_bind_def get_session_def demo_history_def demo_connected_eq
        demo_open_eq demo_start_def world_new_def reg_get_def require_claims_def session_new_def
        enforce_acl_def demo_acl_rooms ok_def check_schema_def demo_schema on_kind_def lift_comp_def
        pubsub_ops_def pubsub_on_publish_def Let_def on_broker_def count_publication_def b)
qed

definition demo_past :: pubsub where
  "demo_past = (with_bounds 256 (300 * 1000000000))\<lparr>ps_state := [''rooms.a'' \<mapsto>
     \<lparr>cs_next_offset = 4, cs_entries =
       [\<lparr>he_inserted_at = 1, he_offset = 0, he_data = [10]\<rparr>,
        \<lparr>he_inserted_at = 2, he_offset = 1, he_data = [11]\<rparr>,
        \<lparr>he_inserted_at = 3, he_offset = 2, he_data = [12]\<rparr>,
        \<lparr>he_inserted_at = 4, he_offset = 3, he_data = [13]\<rparr>]\<rparr>]\<rparr>"

lemma demo_past_eq:
  "demo_past = snd (pubsub_on_publish 4 ''rooms.a'' [13] (snd (pubsub_on_publish 3 ''rooms.a'' [12]
     (snd (pubsub_on_publish 2 ''rooms.a'' [11] (snd (pubsub_on_publish 1 ''rooms.a'' [10]
        (with_bounds 256 (300 * 1000000000)))))))))"
  by (simp add: demo_past_def pubsub_on_publish_def with_bounds_def evict_expired_def saturating_add_def
      Let_def del: trim_front_drop)

lemma demo_past_reachable: "reachable demo_hub demo_start ({0}, demo_history 4 demo_past)"
proof -
  have step: "reachable demo_hub demo_start ({0}, demo_history n s) \<Longrightarrow> d \<noteq> [] \<Longrightarrow> length d \<le> 2 \<Longrightarrow>
      reachable demo_hub demo_start ({0}, demo_history (n + 1) (snd (pubsub_on_publish now ''rooms.a'' d s)))"
    for n s d now
    using hub_step.PublishStep [of demo_hub "{0}" "demo_history n s" now 0 "''rooms.a''" d]
    by (auto simp: demo_history_publish intro: reachable.intros)
  have "hub_step demo_hub ({}, demo_start) (insert 0 {}, demo_open)"
    by (rule hub_step.Open [OF demo_few demo_opened(1)])
  moreover have "hub_step demo_hub ({0}, demo_open) ({0}, demo_connected)"
    unfolding demo_connected_def by (rule hub_step.ConnectStep)
  ultimately have "reachable demo_hub demo_start ({0}, demo_connected)" by (blast intro: reachable.intros)
  then have "reachable demo_hub demo_start ({0}, demo_history 0 (with_bounds 256 (300 * 1000000000)))"
    by (simp add: demo_history_start)
  note s1 = step [OF this, of "[10]" 1]
  note s2 = step [OF s1, of "[11]" 2]
  note s3 = step [OF s2, of "[12]" 3]
  have "0 + 1 + 1 + 1 + 1 = (4 :: nat)" by simp
  with step [OF s3, of "[13]" 4] show ?thesis by (simp add: demo_past_eq del: One_nat_def)
qed

lemma demo_resubscribe:
  "fst (handle_subscribe demo_hub 5 0 2 ''rooms.a'' 1 (demo_history 4 demo_past)) =
     Inr \<lparr>subok_request_id = 2, subok_channel = ''rooms.a'', subok_epoch = 1, subok_offset = 3\<rparr>"
  by (simp add: handle_subscribe_def try_bind_def get_session_def demo_history_def demo_connected_eq
      demo_open_eq reg_get_def require_claims_def enforce_acl_def demo_acl_rooms ok_def
      check_not_subscribed_def has_subscription_def session_new_def on_kind_def demo_start_def
      world_new_def pubsub_ops_def pubsub_on_subscribe_def lift_comp_def or_cleanup_def on_broker_def
      demo_br_subscribe replay_def attach_def Let_def insert_subscription_def pubsub_cursor_def
      cursor_locked_def demo_past_def pubsub_replay_since_def evict_expired_def with_bounds_def
      send_frame_def saturating_sub_def rt_ops_def rt_init_def)

end
