(* ===== verification/Server.thy ===== *)
theory Server
  imports HubFlow Example
begin

text \<open>
  The server as a whole: a hub built from a configuration with the in-process broker is an instance
  of the hub system, so its reachable states satisfy the invariant. The properties here span the
  configuration, the hub and the components behind it.
\<close>

section \<open>Built hubs are hub systems\<close>

text \<open>
  What is assumed of the runtime: tasks, mailboxes and broadcast channels behave as documented and
  none is in use when the server starts.
\<close>

definition runtime_ok where
  "runtime_ok E t0 used sent closed snds cap rx queue lag \<longleftrightarrow>
     tokio_rt (env_rt E) used sent closed \<and> (\<forall>h. rt_task (env_rt E) t0 h = None) \<and>
     tokio_broadcast (lib_broadcast (env_brokers E)) snds cap rx queue lag \<and>
     (\<forall>r. rx (env_chans E) r = None)"

lemma built_hub_system:
  assumes "build_hub E cfg = Some (Inr (H, ks, b))" and "tokio_rt (env_rt E) used sent closed"
    and "tokio_broadcast (lib_broadcast (env_brokers E)) snds cap rx queue lag"
  shows "hub_system H dyn_inv dyn_next (tokio_broadcast.node_binv snds cap rx)
     (tokio_broadcast.node_topic rx) (tokio_broadcast.node_pending queue) used sent closed"
proof -
  from assms(1) have H: "hub_kops H = dyn_ops (env_yrs E) (env_automerge E)"
    "hub_broker H = node_br_ops (env_brokers E) (bc_backend (sc_broker cfg))" "hub_rt H = env_rt E"
    by (auto elim: build_hub_InrE)
  show ?thesis
    unfolding hub_system_def H
    using dyn.channel_kind_axioms assms(2) tokio_broadcast.node_broker_law [OF assms(3) refl] by blast
qed

interpretation node: hub_system
  "H\<lparr>hub_kops := dyn_ops Y A, hub_broker := node_br_ops (L\<lparr>lib_broadcast := bcast_ops\<rparr>) backend,
     hub_rt := rt_ops\<rparr>"
  dyn_inv dyn_next bcast.node_binv bcast.node_topic bcast.node_pending
  "\<lambda>t. {h. h < rt_next t}" rt_frames "\<lambda>t ob. ob \<in> set (rt_closed t)"
  for H :: "(('y, 'm) node_kind, (bcast, 'r, 'n) node_broker, rt) hub" and Y :: "('y, 'u) yrs"
    and A :: "'m automerge" and L :: "(bcast, 'pe, 'g, 'r, 'n) broker_libs" and backend
  unfolding hub_system_def
  by (simp, intro conjI dyn.channel_kind_axioms rt.tokio_rt_axioms bcast.node_broker_law) simp

lemma node_kinds_inv: "dyn_inv (node_kinds cfg n)"
proof -
  have "dyn_inv (kind_named name)" for name
    by (cases name) (simp_all add: pubsub_new_def with_bounds_inv)
  then show ?thesis
    by (simp add: node_kinds_def build_namespace_kinds_def Let_def with_bounds_inv split: prod.splits)
       (auto simp: with_bounds_inv split: prod.splits)
qed

lemma built_reachable_inv:
  assumes "build_hub E cfg = Some (Inr (H, ks, b))" and "bc_backend (sc_broker cfg) = Memory"
    and "runtime_ok E t0 used sent closed snds cap rx queue lag"
    and "reachable H (world_new ks b t0) (held, w)"
  shows "hub_system.hub_inv H dyn_inv (tokio_broadcast.node_binv snds cap rx)
     (tokio_broadcast.node_topic rx) used held w"
proof -
  have env: "tokio_rt (env_rt E) used sent closed" "rt_task (env_rt E) t0 h = None"
    "tokio_broadcast (lib_broadcast (env_brokers E)) snds cap rx queue lag" "rx (env_chans E) r = None" for h r
    using assms(3) by (simp_all add: runtime_ok_def)
  have ks: "dyn_inv (ks n)" for n using assms(1) by (auto elim!: build_hub_InrE simp: node_kinds_inv)
  have rtH: "hub_rt H = env_rt E" using assms(1) by (auto elim: build_hub_InrE)
  have "b = BMem (mem_with_capacity (bc_capacity (sc_broker cfg)) (env_chans E))"
    using assms(1,2) by (auto elim!: build_hub_InrE simp: build_broker_def)
  then have "tokio_broadcast.node_binv snds cap rx b"
    using tokio_broadcast.mem_inv_init [OF env(3,4)] by (simp add: tokio_broadcast.node_binv.simps [OF env(3)])
  from hub_system.reachable_inv [OF built_hub_system [OF assms(1) env(1,3)] assms(4) ks this]
  show ?thesis by (simp add: rtH env(2))
qed

lemma built_system:
  assumes "build_hub E cfg = Some (Inr (H, ks, b))"
    and "runtime_ok E t0 used sent closed snds cap rx queue lag"
  shows "hub_system H dyn_inv dyn_next (tokio_broadcast.node_binv snds cap rx)
     (tokio_broadcast.node_topic rx) (tokio_broadcast.node_pending queue) used sent closed"
  using assms unfolding runtime_ok_def by (blast intro: built_hub_system)

lemma built_core:
  assumes "build_hub E cfg = Some (Inr (H, ks, b))" and "bc_backend (sc_broker cfg) = Memory"
    and "runtime_ok E t0 used sent closed snds cap rx queue lag"
    and "reachable H (world_new ks b t0) (held, w)"
  shows "core_inv H held w"
  by (rule hub_system.hub_invD(1) [OF built_system [OF assms(1,3)] built_reachable_inv [OF assms]])

lemma built_tasks:
  assumes "build_hub E cfg = Some (Inr (H, ks, b))" and "bc_backend (sc_broker cfg) = Memory"
    and "runtime_ok E t0 used sent closed snds cap rx queue lag"
    and "reachable H (world_new ks b t0) (held, w)"
  shows "hub_system.tasks_ok H dyn_inv (tokio_broadcast.node_binv snds cap rx)
     (tokio_broadcast.node_topic rx) used {} w"
  by (rule hub_system.hub_invD(2) [OF built_system [OF assms(1,3)] built_reachable_inv [OF assms]])

text \<open>The laws of the example's runtime.\<close>

lemma demo_runtime:
  "runtime_ok demo_env rt_init (\<lambda>t. {h. h < rt_next t}) rt_frames (\<lambda>t ob. ob \<in> set (rt_closed t))
     (\<lambda>c. {s. s < bs_next_tx c}) bs_cap bcast_rx bs_queue bs_lag"
  by (simp add: runtime_ok_def demo_env_def demo_libs_def rt.tokio_rt_axioms bcast.tokio_broadcast_axioms)
     (simp add: rt_ops_def rt_init_def bcast_rx_def bcast_init_def)

lemma demo_memory: "bc_backend (sc_broker demo_cfg) = Memory"
  by (simp add: demo_cfg_def server_config_default_def broker_config_default_def)

lemmas demo_run = demo_build demo_memory demo_runtime demo_reachable [unfolded demo_start_def]

lemma demo_start_reachable: "reachable demo_hub (world_new (node_kinds demo_cfg) demo_broker rt_init) ({}, demo_start)"
  unfolding demo_start_def by (rule reachable.Start)

lemmas demo_run_0 = demo_build demo_memory demo_runtime demo_start_reachable

section \<open>Invariants of a running server\<close>

text \<open>
  C1. In every state a server reaches, through any order of opening, connecting, subscribing,
  unsubscribing, publishing, closing, kicking and forwarding, the reverse index lists a session under
  a channel, once, exactly when that session is registered and subscribed to the channel.
\<close>

theorem reverse_index_matches_sessions:
  assumes "build_hub E cfg = Some (Inr (H, ks, b))" and "bc_backend (sc_broker cfg) = Memory"
    and "runtime_ok E t0 used sent closed snds cap rx queue lag"
    and "reachable H (world_new ks b t0) (held, w)"
  shows "distinct (subscribers_of (w_registry w) channel) \<and>
    (i \<in> set (subscribers_of (w_registry w) channel) \<longleftrightarrow>
      (\<exists>ref. reg_get (w_registry w) i = Some ref \<and> has_subscription (w_store w ref) channel))"
  using built_core [OF assms] by (simp add: core_inv_def registry_ok_def)

theorem reverse_index_matches_sessions_witness:
  "set (subscribers_of (w_registry demo_subscribed) ''rooms.a'') = {0} \<and>
   (\<exists>ref. reg_get (w_registry demo_subscribed) 0 = Some ref \<and>
          has_subscription (w_store demo_subscribed ref) ''rooms.a'')"
proof -
  have sub: "subscribers_of (w_registry demo_subscribed) ''rooms.a'' = [0]"
    by (simp add: demo_subscribed_eq subscribers_of_def)
  with reverse_index_matches_sessions [OF demo_run, of "''rooms.a''" 0] show ?thesis by simp
qed

text \<open>
  C2. On a server with an \<open>auth\<close> section nobody is subscribed without having authenticated: the
  claims of every subscribed session were decoded from a token under the configured secret, and the
  access control list allows them to subscribe to the channel.
\<close>

theorem subscriptions_are_authorised:
  assumes "build_hub E cfg = Some (Inr (H, ks, b))" and "bc_backend (sc_broker cfg) = Memory"
    and "runtime_ok E t0 used sent closed snds cap rx queue lag"
    and "reachable H (world_new ks b t0) (held, w)"
    and "sc_auth cfg = Some auth" and "has_subscription (w_store w ref) channel"
  shows "\<exists>cl now token v c. s_claims (w_store w ref) = Some cl \<and>
     jwt_decode (env_jwt E) now token
       (from_secret (env_jwt E) (as_bytes (au_hmac_secret auth))) v = Inr c \<and>
     cl_subject cl = jc_sub c \<and> acl_check (hub_acl H) cl ActSubscribe channel = Inr Allow"
proof -
  obtain j where auth: "hub_authenticator H = jwt_authenticator (env_jwt E) j"
    and key: "ja_key j = from_secret (env_jwt E) (as_bytes (au_hmac_secret auth))"
    using assms(1,5) by (auto elim!: build_hub_InrE dest!: build_authenticator_kind)
  have "auth_ok H w" using built_core [OF assms(1-4)] by (simp add: core_inv_def)
  then have "session_auth H (w_store w ref)" by (simp add: auth_ok_def requires_connect_def auth)
  then obtain cl now token where cl: "s_claims (w_store w ref) = Some cl"
    and acl: "acl_check (hub_acl H) cl ActSubscribe channel = Inr Allow"
    and tok: "jwt_authenticate (env_jwt E) now j token = Inr cl"
    using assms(6) unfolding session_auth_def auth jwt_authenticator_sel by metis
  from jwt_authenticate_InrD [OF tok] obtain c
    where "jwt_decode (env_jwt E) now token (ja_key j) (ja_validation j) = Inr c"
      and "cl_subject cl = jc_sub c" by auto
  with cl acl key show ?thesis by metis
qed

theorem subscriptions_are_authorised_witness:
  "\<exists>cl. s_claims (w_store demo_subscribed 0) = Some cl \<and> cl_subject cl = ''alice'' \<and>
        acl_check (hub_acl demo_hub) cl ActSubscribe ''rooms.a'' = Inr Allow"
proof -
  have auth: "sc_auth demo_cfg = Some \<lparr>au_hmac_secret = ''k'', au_audiences = [], au_issuer = None\<rparr>"
    by (simp add: demo_cfg_def)
  have "has_subscription (w_store demo_subscribed 0) ''rooms.a''"
    by (simp add: demo_subscribed_eq has_subscription_def)
  from subscriptions_are_authorised [OF demo_run auth this] show ?thesis
    by (auto simp: demo_subscribed_eq alice_def)
qed

text \<open>
  C6. No forwarder is orphaned: each running one is recorded under its channel by a session that is
  registered or still held by its transport, sends into that session's outbox, reads a broker stream
  of its own on the channel's topic, and no two share a stream.
\<close>

theorem forwarders_have_live_owners:
  assumes "build_hub E cfg = Some (Inr (H, ks, b))" and "bc_backend (sc_broker cfg) = Memory"
    and "runtime_ok E t0 used sent closed snds cap rx queue lag"
    and "reachable H (world_new ks b t0) (held, w)"
    and "rt_task (env_rt E) (w_rt w) h = Some f"
  shows "(\<exists>ref. (ref \<in> held \<or> (\<exists>i. reg_get (w_registry w) i = Some ref)) \<and>
            map_of (s_subscriptions (w_store w ref)) (fw_channel f) = Some h \<and>
            fw_outbox f = s_outbox (w_store w ref)) \<and>
         tokio_broadcast.node_topic rx (w_broker w) (fw_stream f) = Some (fw_channel f) \<and>
         (\<forall>h' f'. rt_task (env_rt E) (w_rt w) h' = Some f' \<and> fw_stream f' = fw_stream f \<longrightarrow> h' = h)"
proof -
  note sys = built_system [OF assms(1,3)]
  note tasks = hub_system.tasks_okD [OF sys built_tasks [OF assms(1-4)]]
  have rt: "hub_rt H = env_rt E" using assms(1) by (auto elim: build_hub_InrE)
  have core: "counts_ok held w" using built_core [OF assms(1-4)] by (simp add: core_inv_def)
  have "hub_system.owned w h f" using tasks(2) [of h f] assms(5) by (simp add: rt)
  then obtain ref where ref: "map_of (s_subscriptions (w_store w ref)) (fw_channel f) = Some h"
    "fw_outbox f = s_outbox (w_store w ref)" by (auto simp: hub_system.owned_def [OF sys])
  then have "w_strong w ref \<noteq> 0" using core by (auto simp: counts_ok_def)
  then have "ref \<in> held \<or> (\<exists>i. reg_get (w_registry w) i = Some ref)"
    using core by (auto simp: counts_ok_def registered_def of_bool_def split: if_splits)
  moreover have "tokio_broadcast.node_topic rx (w_broker w) (fw_stream f) = Some (fw_channel f)"
    using tasks(1) [of h f] assms(5) by (simp add: rt)
  moreover have "\<forall>h' f'. rt_task (env_rt E) (w_rt w) h' = Some f' \<and> fw_stream f' = fw_stream f \<longrightarrow> h' = h"
    using tasks(3) assms(5) unfolding rt by blast
  ultimately show ?thesis using ref by blast
qed

theorem forwarders_have_live_owners_witness:
  "\<exists>ref. map_of (s_subscriptions (w_store demo_subscribed ref)) ''rooms.a'' = Some 0 \<and>
         fw_outbox demo_task = s_outbox (w_store demo_subscribed ref)"
proof -
  have "rt_task (env_rt demo_env) (w_rt demo_subscribed) 0 = Some demo_task"
    by (simp add: demo_env_def demo_subscribed_eq rt_ops_def)
  from forwarders_have_live_owners [OF demo_run this] show ?thesis by (auto simp: demo_task_def)
qed

text \<open>
  C13. The books balance: the active gauge is the number of registered sessions, every session opened
  is active, closed or kicked, ids are below the number opened and so never reused, and a session's
  strong count is one for the registry plus one for its transport.
\<close>

theorem session_accounting:
  assumes "build_hub E cfg = Some (Inr (H, ks, b))" and "bc_backend (sc_broker cfg) = Memory"
    and "runtime_ok E t0 used sent closed snds cap rx queue lag"
    and "reachable H (world_new ks b t0) (held, w)"
  shows "m_active (w_metrics w) = reg_len (w_registry w) \<and>
     m_opened (w_metrics w) = m_active (w_metrics w) + m_closed (w_metrics w) + m_kicked (w_metrics w) \<and>
     (\<forall>i ref. reg_get (w_registry w) i = Some ref \<longrightarrow>
        unat i < m_opened (w_metrics w) \<and> s_id (w_store w ref) = i) \<and>
     unat (fst (next_id (w_registry w))) = m_opened (w_metrics w) \<and>
     w_strong w r = of_bool (\<exists>i. reg_get (w_registry w) i = Some r) + of_bool (r \<in> held)"
  using built_core [OF assms]
  by (auto simp: core_inv_def metrics_ok_def registry_ok_def counts_ok_def registered_def next_id_def Let_def)

theorem session_accounting_witness:
  "m_active (w_metrics demo_subscribed) = 1 \<and> w_strong demo_subscribed 0 = 2"
proof -
  have "w_strong demo_subscribed 0 =
      of_bool (\<exists>i. reg_get (w_registry demo_subscribed) i = Some 0) + of_bool (0 \<in> {0 :: nat})"
    using session_accounting [OF demo_run] by blast
  moreover have "\<exists>i. reg_get (w_registry demo_subscribed) i = Some 0"
    by (rule exI [of _ 0]) (simp add: demo_subscribed_eq reg_get_def)
  ultimately show ?thesis by (simp add: demo_subscribed_eq)
qed

section \<open>Delivery\<close>

text \<open>
  C3. End to end: when a session publishes on a channel and the hub accepts it, a subscriber whose
  forwarder was idle finds exactly that publication as the next frame of its outbox once its
  forwarder has run, with the publisher's bytes and the channel's next offset; no other outbox
  changes.
\<close>

theorem publication_reaches_subscriber:
  assumes "build_hub E cfg = Some (Inr (H, ks, b))" and "bc_backend (sc_broker cfg) = Memory"
    and "runtime_ok E t0 used sent closed snds cap rx queue lag"
    and "reachable H (world_new ks b t0) (held, w)"
    and "rt_task (env_rt E) (w_rt w) h = Some f" and "fw_channel f = channel"
    and "tokio_broadcast.node_pending queue (w_broker w) (fw_stream f) = []"
    and "\<not> closed (w_rt w) (fw_outbox f)"
    and "handle_publish H now sid channel data w = (Inr p, w')"
  shows "sent (w_rt (forward H h w')) =
      (sent (w_rt w))(fw_outbox f := sent (w_rt w) (fw_outbox f) @ [PublicationFrame p]) \<and>
    p = \<lparr>pub_channel = channel, pub_offset = dyn_next (w_kinds w (kind_for H channel)) channel,
         pub_data = data\<rparr>"
proof -
  note sys = built_system [OF assms(1,3)] and inv = built_reachable_inv [OF assms(1-4)]
  have "hub_rt H = env_rt E" using assms(1) by (auto elim: build_hub_InrE)
  with hub_system.publish_then_forward(1) [OF sys inv _ assms(6-9)] assms(5)
    hub_system.publish_offset [OF sys inv assms(9)]
  show ?thesis by (cases p) simp
qed

theorem publication_reaches_subscriber_witness:
  "rt_frames (w_rt (forward demo_hub 0 demo_published)) 7 = [PublicationFrame demo_pub]"
proof -
  have "rt_task (env_rt demo_env) (w_rt demo_subscribed) 0 = Some demo_task"
    by (simp add: demo_env_def demo_subscribed_eq rt_ops_def)
  moreover have "fw_channel demo_task = ''rooms.a''" by (simp add: demo_task_def)
  moreover have "bcast.node_pending (w_broker demo_subscribed) (fw_stream demo_task) = []"
    by (simp add: demo_subscribed_eq demo_broker_1_def bcast.mem_pending_def bcast_init_def)
  moreover have "\<not> fw_outbox demo_task \<in> set (rt_closed (w_rt demo_subscribed))"
    by (simp add: demo_subscribed_eq rt_init_def)
  ultimately show ?thesis
    using publication_reaches_subscriber [OF demo_run, where sid = 0 and now = 5 and data = "[9, 9]"
        and p = demo_pub and w' = demo_published and h = 0 and f = demo_task and channel = "''rooms.a''"]
      demo_publish
    by (simp add: demo_subscribed_eq demo_task_def rt_init_def)
qed

text \<open>
  A publish succeeds exactly when the session is registered, it acts with claims (its own, or the
  anonymous ones if the authenticator allows that), the access control list allows it, the validator
  accepts the payload, and the channel's kind and the broker accept it; then it is counted once.
\<close>

lemma publish_succeeds_iff:
  "handle_publish H now sid channel data w = (Inr p, w') \<longleftrightarrow>
     (\<exists>ref cl k b. reg_get (w_registry w) sid = Some ref \<and>
        acting_claims H w ref = Some cl \<and>
        acl_check (hub_acl H) cl ActPublish channel = Inr Allow \<and>
        validate (hub_validator H) channel data = Inr () \<and>
        k_on_publish (hub_kops H) now channel data (w_kinds w (kind_for H channel)) = (Inr p, k) \<and>
        br_publish (hub_broker H) channel p (w_broker w) = (Inr (), b) \<and>
        w' = (with_acting H ref w)
          \<lparr>w_kinds := (w_kinds w)(kind_for H channel := k), w_broker := b,
           w_metrics := (w_metrics w)\<lparr>m_published := m_published (w_metrics w) + 1\<rparr>\<rparr>)"
  by (rule handle_publish_eq_Inr)

text \<open>
  C17. A refused publish (unknown session, not connected, denied, rejected by the schema) reaches
  neither the channel kind nor the broker: nothing is retained, sent or counted, and no offset is
  used up.
\<close>

theorem refused_publish_has_no_effect:
  assumes "handle_publish H now sid channel data w = (Inl e, w')" and "refusal e"
  shows "w_kinds w' = w_kinds w \<and> w_broker w' = w_broker w \<and> w_rt w' = w_rt w \<and>
         w_registry w' = w_registry w \<and> w_metrics w' = w_metrics w"
  using handle_publish_refused [OF assms] by auto

theorem refused_publish_has_no_effect_witness:
  "fst (handle_publish demo_hub 5 0 ''rooms.a'' [1, 2, 3] demo_subscribed) =
     Inl (SchemaErr (PayloadRejected ''rooms.a'' ''too long'')) \<and>
   w_broker (snd (handle_publish demo_hub 5 0 ''rooms.a'' [1, 2, 3] demo_subscribed)) = demo_broker_1"
proof -
  let ?r = "handle_publish demo_hub 5 0 ''rooms.a'' [1, 2, 3] demo_subscribed"
  have fst: "fst ?r = Inl (SchemaErr (PayloadRejected ''rooms.a'' ''too long''))"
    by (simp add: handle_publish_def try_bind_def get_session_def demo_subscribed_eq reg_get_def
        require_claims_def session_new_def enforce_acl_def demo_acl_rooms ok_def check_schema_def
        demo_schema)
  then have "?r = (Inl (SchemaErr (PayloadRejected ''rooms.a'' ''too long'')), snd ?r)"
    by (rule pair_as)
  from refused_publish_has_no_effect [OF this] fst show ?thesis by (simp add: demo_subscribed_eq)
qed

text \<open>
  C7. A subscribe that fails, at whatever point, leaves nothing behind: no forwarder, no broker
  stream, no entry in the registry or in any session.
\<close>

theorem failed_subscribe_leaves_nothing:
  assumes "build_hub E cfg = Some (Inr (H, ks, b))" and "bc_backend (sc_broker cfg) = Memory"
    and "runtime_ok E t0 used sent closed snds cap rx queue lag"
    and "reachable H (world_new ks b t0) (held, w)"
    and "handle_subscribe H now sid rid channel since w = (Inl e, w')"
  shows "rt_task (env_rt E) (w_rt w') = rt_task (env_rt E) (w_rt w) \<and>
     tokio_broadcast.node_topic rx (w_broker w') = tokio_broadcast.node_topic rx (w_broker w) \<and>
     w_registry w' = w_registry w \<and>
     (\<forall>r. s_subscriptions (w_store w' r) = s_subscriptions (w_store w r))"
proof -
  note sys = built_system [OF assms(1,3)] and inv = built_reachable_inv [OF assms(1-4)]
  have "hub_rt H = env_rt E" using assms(1) by (auto elim: build_hub_InrE)
  with hub_system.subscribe_failure [OF sys inv assms(5)] show ?thesis by simp
qed

theorem failed_subscribe_leaves_nothing_witness:
  "fst (handle_subscribe demo_hub 0 0 3 ''rooms.a'' 0 demo_subscribed) = Inl (AlreadySubscribed 0 ''rooms.a'') \<and>
   w_registry (snd (handle_subscribe demo_hub 0 0 3 ''rooms.a'' 0 demo_subscribed)) =
     w_registry demo_subscribed"
proof -
  let ?r = "handle_subscribe demo_hub 0 0 3 ''rooms.a'' 0 demo_subscribed"
  have fst: "fst ?r = Inl (AlreadySubscribed 0 ''rooms.a'')"
    by (simp add: handle_subscribe_def try_bind_def get_session_def demo_subscribed_eq reg_get_def
        require_claims_def session_new_def enforce_acl_def demo_acl_rooms ok_def
        check_not_subscribed_def has_subscription_def)
  then have "?r = (Inl (AlreadySubscribed 0 ''rooms.a''), snd ?r)" by (rule pair_as)
  from failed_subscribe_leaves_nothing [OF demo_run this] fst show ?thesis by simp
qed

text \<open>
  C37. Recovery. A session that resubscribes to a pub/sub channel with the last offset it has seen
  finds in its outbox, ahead of anything live, exactly the retained publications after that offset
  that have not expired, in order and without a gap up to the channel's last one; no other outbox
  changes. The offset 0 asks for no replay. Entries evicted between the offset and the first retained
  one are skipped silently, where the doc of \<open>replay_since\<close> announces an empty replay.
\<close>

theorem resubscribe_replays_what_is_retained:
  assumes "build_hub E cfg = Some (Inr (H, ks, b))" and "bc_backend (sc_broker cfg) = Memory"
    and "runtime_ok E t0 used sent closed snds cap rx queue lag"
    and "reachable H (world_new ks b t0) (held, w)"
    and "handle_subscribe H now sid rid channel since w = (Inr ack, w')"
    and "w_kinds w (kind_for H channel) = KPubSub s" and "ps_state s channel = Some st"
    and "sorted (map he_inserted_at (cs_entries st))" and "cs_next_offset st \<noteq> - 1"
  shows "\<exists>ref ob es. reg_get (w_registry w) sid = Some ref \<and> ob = s_outbox (w_store w ref) \<and>
     es = (if since = 0 then [] else filter (\<lambda>e. since < he_offset e \<and>
             now - he_inserted_at e \<le> ps_history_ttl s) (cs_entries st)) \<and>
     sent (w_rt w') = (sent (w_rt w))(ob := sent (w_rt w) ob @ map (\<lambda>e. PublicationFrame
       \<lparr>pub_channel = channel, pub_offset = he_offset e, pub_data = he_data e\<rparr>) es) \<and>
     map (\<lambda>e. unat (he_offset e)) es =
       [unat (cs_next_offset st) - length es..<unat (cs_next_offset st)]"
proof -
  note sys = built_system [OF assms(1,3)] and inv = built_reachable_inv [OF assms(1-4)]
  have kops: "hub_kops H = dyn_ops (env_yrs E) (env_automerge E)"
    using assms(1) by (auto elim: build_hub_InrE)
  have "dyn_inv (w_kinds w (kind_for H channel))" by (rule hub_system.hub_invD(4) [OF sys inv])
  then have "pubsub_inv s" by (simp add: assms(6))
  from pubsub_retained_consecutive [OF this assms(7,9,8), of since now]
  have cons: "map (\<lambda>e. unat (he_offset e)) es =
      [unat (cs_next_offset st) - length es..<unat (cs_next_offset st)]"
    if "es = filter (\<lambda>e. since < he_offset e \<and> now - he_inserted_at e \<le> ps_history_ttl s) (cs_entries st)"
    for es using that by (simp add: consecutive_def)
  have "snd (k_on_subscribe (hub_kops H) channel (w_kinds w (kind_for H channel))) = KPubSub s"
    by (simp add: kops assms(6) pubsub_ops_def pubsub_on_subscribe_def)
  with hub_system.subscribe_sent [OF sys assms(5)] obtain ref ps
    where ref: "reg_get (w_registry w) sid = Some ref"
      and sent: "sent (w_rt w') = (sent (w_rt w))(s_outbox (w_store w ref) :=
        sent (w_rt w) (s_outbox (w_store w ref)) @ map PublicationFrame ps)"
      and ps: "if since = 0 then ps = []
        else fst (k_replay_since (hub_kops H) now channel since (KPubSub s)) = Inr ps" by metis
  from ps have "ps = map (\<lambda>e. \<lparr>pub_channel = channel, pub_offset = he_offset e, pub_data = he_data e\<rparr>)
      (if since = 0 then [] else filter (\<lambda>e. since < he_offset e \<and>
         now - he_inserted_at e \<le> ps_history_ttl s) (cs_entries st))"
    by (simp add: kops pubsub_ops_def lift_comp_def pubsub_replay_retained [OF assms(7,8)] split: if_splits)
  with ref sent cons show ?thesis by (auto simp: o_def)
qed

theorem resubscribe_replays_what_is_retained_witness:
  "rt_frames (w_rt (snd (handle_subscribe demo_hub 5 0 2 ''rooms.a'' 1 (demo_history 4 demo_past)))) 7 =
     [PublicationFrame \<lparr>pub_channel = ''rooms.a'', pub_offset = 2, pub_data = [12]\<rparr>,
      PublicationFrame \<lparr>pub_channel = ''rooms.a'', pub_offset = 3, pub_data = [13]\<rparr>]"
proof -
  have kind: "w_kinds (demo_history 4 demo_past) (kind_for demo_hub ''rooms.a'') = KPubSub demo_past"
    by (simp add: demo_history_def)
  have st: "ps_state demo_past ''rooms.a'' = Some (the (ps_state demo_past ''rooms.a''))"
    by (simp add: demo_past_def)
  show ?thesis
    using resubscribe_replays_what_is_retained [OF demo_build demo_memory demo_runtime
        demo_past_reachable [unfolded demo_start_def] pair_as [OF demo_resubscribe] kind st]
    by (auto simp: demo_past_def demo_history_def demo_connected_eq demo_open_eq reg_get_def
        session_new_def with_bounds_def rt_init_def)
qed

text \<open>
  C11. On one channel a later accepted publication always has a larger offset, whatever the hub does
  between the two, as long as the channel's 64-bit counter does not reach its last value.
\<close>

theorem offsets_grow_across_the_hub:
  assumes "build_hub E cfg = Some (Inr (H, ks, b))" and "bc_backend (sc_broker cfg) = Memory"
    and "runtime_ok E t0 used sent closed snds cap rx queue lag"
    and "reachable H (world_new ks b t0) (held, w)"
    and "handle_publish H now sid channel data w = (Inr p, w')" and "pub_offset p \<noteq> - 1"
    and "(\<lambda>s s'. hub_step H s s' \<and> dyn_next (w_kinds (snd s) (kind_for H channel)) channel \<noteq> - 1)\<^sup>*\<^sup>*
           (held, w') (held', w'')"
    and "handle_publish H now' sid' channel data' w'' = (Inr p', w3)"
  shows "pub_offset p < pub_offset p'"
  by (rule hub_system.offsets_increase [OF built_system [OF assms(1,3)] built_reachable_inv [OF assms(1-4)]
        assms(5-8)])

theorem offsets_grow_across_the_hub_witness:
  "pub_offset demo_pub < (1 :: u64)"
proof -
  have "handle_publish demo_hub 6 0 ''rooms.a'' [8] demo_published =
      (Inr \<lparr>pub_channel = ''rooms.a'', pub_offset = 1, pub_data = [8]\<rparr>,
       snd (handle_publish demo_hub 6 0 ''rooms.a'' [8] demo_published))"
    by (rule pair_as [OF demo_publish_again])
  from offsets_grow_across_the_hub [OF demo_run demo_publish _ rtranclp.rtrancl_refl this]
  show ?thesis by (simp add: demo_pub_def)
qed

section \<open>Sessions\<close>

text \<open>
  C14. A session's identity is fixed: on a hub that requires a connect, once a session has claims no
  step of the hub (a second connect included) replaces or removes them.
\<close>

theorem session_identity_is_fixed:
  assumes "requires_connect H" and "(hub_step H)\<^sup>*\<^sup>* (held, w) (held', w')"
    and "ref < w_next_ref w" and "s_claims (w_store w ref) = Some cl"
  shows "s_claims (w_store w' ref) = Some cl"
  using steps_claims [OF assms(2,1), of ref cl] assms(3,4) by (simp add: has_claims_def)

theorem session_identity_is_fixed_witness:
  "s_claims (w_store (snd (handle_connect demo_hub 0 0 4 ''k:mallory'' demo_subscribed)) 0) = Some alice"
proof -
  have "hub_step demo_hub ({0}, demo_subscribed)
      ({0}, snd (handle_connect demo_hub 0 0 4 ''k:mallory'' demo_subscribed))"
    by (rule hub_step.ConnectStep)
  then have "(hub_step demo_hub)\<^sup>*\<^sup>* ({0}, demo_subscribed)
      ({0}, snd (handle_connect demo_hub 0 0 4 ''k:mallory'' demo_subscribed))" by blast
  from session_identity_is_fixed [OF _ this, of 0 alice] show ?thesis
    by (simp add: requires_connect_def demo_subscribed_eq)
qed

text \<open>
  C18. An accepted unsubscribe ends the subscription everywhere: the session no longer has it, the
  reverse index no longer lists the session under the channel, and the forwarder that served it does
  not run any more.
\<close>

theorem unsubscribe_ends_delivery:
  assumes "build_hub E cfg = Some (Inr (H, ks, b))" and "bc_backend (sc_broker cfg) = Memory"
    and "runtime_ok E t0 used sent closed snds cap rx queue lag"
    and "reachable H (world_new ks b t0) (held, w)"
    and "handle_unsubscribe H sid rid channel w = (Inr ack, w')"
  shows "\<exists>ref h. reg_get (w_registry w) sid = Some ref \<and>
     map_of (s_subscriptions (w_store w ref)) channel = Some h \<and>
     \<not> has_subscription (w_store w' ref) channel \<and>
     sid \<notin> set (subscribers_of (w_registry w') channel) \<and>
     rt_task (env_rt E) (w_rt w') h = None"
proof -
  have rt: "hub_rt H = env_rt E" using assms(1) by (auto elim: build_hub_InrE)
  have law: "tokio_rt (env_rt E) used sent closed" using assms(3) unfolding runtime_ok_def by blast
  obtain ref w1 where ref: "reg_get (w_registry w) sid = Some ref"
    and d: "detach H sid ref channel w = (Inr (), w1)"
    and w': "w_store w' = w_store w1" "w_registry w' = w_registry w1" "w_rt w' = w_rt w1"
    using assms(5) by (auto simp: handle_unsubscribe_def run_eqs ok_def)
  then obtain h where h: "map_of (s_subscriptions (w_store w ref)) channel = Some h"
    and w1: "w1 = upd_registry (reg_remove_subscription sid channel) (abort_task H h (upd_session ref
      (\<lambda>_. (w_store w ref)\<lparr>s_subscriptions := AList.delete channel (s_subscriptions (w_store w ref))\<rparr>) w))"
    by (auto simp: detach_def session_remove_subscription_def split: option.splits)
  have "\<not> has_subscription (w_store w' ref) channel"
    by (simp add: w'(1) w1 hub_simps has_subscription_def delete_conv')
  moreover have "sid \<notin> set (subscribers_of (w_registry w') channel)"
    by (simp add: w'(2) w1 hub_simps reg_simps)
  moreover have "rt_task (env_rt E) (w_rt w') h = None"
    by (simp add: w'(3) w1 hub_simps abort_task_def rt drop_stream_def tokio_rt.stop_task [OF law]
        split: option.splits)
  ultimately show ?thesis using ref h by blast
qed

theorem unsubscribe_ends_delivery_witness:
  "fst (handle_unsubscribe demo_hub 0 9 ''rooms.a'' demo_subscribed) =
     Inr \<lparr>unsubok_request_id = 9, unsubok_channel = ''rooms.a''\<rparr> \<and>
   rt_task rt_ops (w_rt (snd (handle_unsubscribe demo_hub 0 9 ''rooms.a'' demo_subscribed))) 0 = None"
proof -
  let ?r = "handle_unsubscribe demo_hub 0 9 ''rooms.a'' demo_subscribed"
  have fst: "fst ?r = Inr \<lparr>unsubok_request_id = 9, unsubok_channel = ''rooms.a''\<rparr>"
    by (simp add: handle_unsubscribe_def try_bind_Inr get_session_def demo_subscribed_eq reg_get_def
        detach_def session_remove_subscription_def on_kind_def hub_simps demo_kinds_0 lift_comp_def
        pubsub_ops_def pubsub_on_unsubscribe_def ok_def)
  from unsubscribe_ends_delivery [OF demo_run pair_as [OF fst]]
  have "rt_task rt_ops (w_rt (snd ?r)) 0 = None"
    by (auto simp: demo_subscribed_eq reg_get_def demo_env_def)
  with fst show ?thesis by blast
qed

text \<open>
  C19. Kicking reports whether the session was registered; afterwards it is not, the reverse index does
  not mention it under any channel, and every other session and its subscriptions are untouched. It
  is counted as kicked exactly if it was registered.
\<close>

theorem kick_removes_exactly_the_session:
  assumes "registry_wf (w_registry w)"
  shows "fst (kick_session H sid w) = (reg_get (w_registry w) sid \<noteq> None) \<and>
     reg_get (w_registry (snd (kick_session H sid w))) = (reg_get (w_registry w))(sid := None) \<and>
     (reg_get (w_registry w) sid \<noteq> None \<longrightarrow>
        subscribers_of (w_registry (snd (kick_session H sid w))) channel =
          filter (\<lambda>i. i \<noteq> sid) (subscribers_of (w_registry w) channel)) \<and>
     m_kicked (w_metrics (snd (kick_session H sid w))) =
       m_kicked (w_metrics w) + of_bool (reg_get (w_registry w) sid \<noteq> None)"
proof (cases "reg_get (w_registry w) sid")
  case None
  then show ?thesis by (auto simp: kick_session_def)
next
  case (Some ref)
  then obtain reg where d: "deregister sid (w_registry w) = (Some ref, reg)"
    by (metis fst_deregister prod.collapse)
  have "reg = snd (deregister sid (w_registry w))" by (simp add: d)
  then have "reg_get reg = (reg_get (w_registry w))(sid := None)"
    "subscribers_of reg channel = filter (\<lambda>i. i \<noteq> sid) (subscribers_of (w_registry w) channel)"
    using assms Some by (simp_all add: reg_simps)
  then show ?thesis by (simp add: kick_session_def Some d hub_simps Let_def)
qed

theorem kick_removes_exactly_the_session_witness:
  "fst (kick_session demo_hub 0 demo_subscribed) \<and>
   reg_get (w_registry (snd (kick_session demo_hub 0 demo_subscribed))) 0 = None"
  using kick_removes_exactly_the_session [of demo_subscribed demo_hub 0]
  by (simp add: demo_subscribed_eq registry_wf_def reg_get_def)

section \<open>Configuration\<close>

text \<open>The table of kinds: the entries of the configuration in order, after the default kind.\<close>

lemma built_routes:
  assumes "build_hub E cfg = Some (Inr (H, ks, b))" and "distinct (map fst (sc_channel_kinds cfg))"
  shows "ks = node_kinds cfg"
    and "kind_for H c = (case hub_namespace_kinds H (namespace_of c) of Some k \<Rightarrow> k | None \<Rightarrow> 0)"
    and "hub_namespace_kinds H ns = Some k \<longleftrightarrow>
      (\<exists>i < length (sc_channel_kinds cfg). fst (sc_channel_kinds cfg ! i) = ns \<and> k = Suc i)"
proof -
  obtain reg auth acl where nk: "hub_namespace_kinds H =
      hb_namespace_kinds (route_namespaces (sc_channel_kinds cfg) (builder_of E cfg reg auth acl))"
    and "hub_kind H = 0" and "ks = node_kinds cfg"
    using assms(1) by (elim build_hub_InrE) simp
  then show "ks = node_kinds cfg"
    and "kind_for H c = (case hub_namespace_kinds H (namespace_of c) of Some k \<Rightarrow> k | None \<Rightarrow> 0)"
    by (simp_all add: kind_for_def unwrap_or_def)
  show "hub_namespace_kinds H ns = Some k \<longleftrightarrow>
      (\<exists>i < length (sc_channel_kinds cfg). fst (sc_channel_kinds cfg ! i) = ns \<and> k = Suc i)"
    using route_lookup [OF assms(2), of "builder_of E cfg reg auth acl" ns k] by (simp add: nk)
qed

lemma built_routes_config:
  assumes "build_hub E cfg = Some (Inr (H, ks, b))" and "distinct (map fst (sc_channel_kinds cfg))"
  shows "hub_namespace_kinds H ns = None \<longleftrightarrow> map_of (sc_channel_kinds cfg) ns = None"
    and "hub_namespace_kinds H ns = Some (Suc i) \<Longrightarrow>
      map_of (sc_channel_kinds cfg) ns = Some (snd (sc_channel_kinds cfg ! i))"
proof -
  note look = built_routes(3) [OF assms]
  have "hub_namespace_kinds H ns \<noteq> None \<longleftrightarrow>
      (\<exists>i < length (sc_channel_kinds cfg). fst (sc_channel_kinds cfg ! i) = ns)" using look by auto
  also have "\<dots> \<longleftrightarrow> ns \<in> fst ` set (sc_channel_kinds cfg)" by (force simp: in_set_conv_nth image_iff)
  finally show "hub_namespace_kinds H ns = None \<longleftrightarrow> map_of (sc_channel_kinds cfg) ns = None"
    by (auto simp: map_of_eq_None_iff)
  show "hub_namespace_kinds H ns = Some (Suc i) \<Longrightarrow>
      map_of (sc_channel_kinds cfg) ns = Some (snd (sc_channel_kinds cfg ! i))"
    using look [of ns "Suc i"] map_of_is_SomeI [OF assms(2), of ns "snd (sc_channel_kinds cfg ! i)"]
    by (metis Suc_inject nth_mem prod.collapse)
qed

text \<open>
  C29. Channels go to the kind their namespace is configured with, each configured namespace to an
  instance of its own; every other channel shares the default pub/sub kind, which alone gets the
  configured history bounds (a namespace configured as pub/sub gets the built-in defaults).
\<close>

theorem channels_are_routed_as_configured:
  assumes "build_hub E cfg = Some (Inr (H, ks, b))" and "distinct (map fst (sc_channel_kinds cfg))"
  shows "ks (kind_for H channel) =
      (case map_of (sc_channel_kinds cfg) (namespace_of channel) of
         Some Pubsub \<Rightarrow> KPubSub (with_bounds DEFAULT_HISTORY_SIZE DEFAULT_HISTORY_TTL)
       | Some CrdtYjs \<Rightarrow> KYjs yjs_new
       | Some CrdtAutomerge \<Rightarrow> KAutomerge automerge_new
       | None \<Rightarrow> KPubSub (with_bounds (cp_history_size (sc_channel_pubsub cfg))
                            (history_ttl (sc_channel_pubsub cfg)))) \<and>
    (kind_for H channel = kind_for H channel' \<longleftrightarrow>
       namespace_of channel = namespace_of channel' \<or>
       map_of (sc_channel_kinds cfg) (namespace_of channel) = None \<and>
       map_of (sc_channel_kinds cfg) (namespace_of channel') = None)"
proof (intro conjI)
  let ?cs = "sc_channel_kinds cfg"
  note routes = built_routes [OF assms] and config = built_routes_config [OF assms]
  show "ks (kind_for H channel) = (case map_of ?cs (namespace_of channel) of
       Some Pubsub \<Rightarrow> KPubSub (with_bounds DEFAULT_HISTORY_SIZE DEFAULT_HISTORY_TTL)
     | Some CrdtYjs \<Rightarrow> KYjs yjs_new | Some CrdtAutomerge \<Rightarrow> KAutomerge automerge_new
     | None \<Rightarrow> KPubSub (with_bounds (cp_history_size (sc_channel_pubsub cfg))
                          (history_ttl (sc_channel_pubsub cfg))))"
  proof (cases "hub_namespace_kinds H (namespace_of channel)")
    case None
    then show ?thesis
      using config(1) [of "namespace_of channel"] by (simp add: routes(1,2) node_kinds_def)
  next
    case (Some k)
    then obtain i where i: "i < length ?cs" "k = Suc i" using routes(3) by blast
    then have "ks (kind_for H channel) = kind_named (snd (?cs ! i))"
      using Some by (simp add: routes(1,2) node_kinds_def build_namespace_kinds_def split: prod.splits)
    then show ?thesis
      using config(2) [of "namespace_of channel" i] Some i
      by (cases "snd (?cs ! i)") (simp_all add: pubsub_new_def)
  qed
  have inj: "n = n'" if "hub_namespace_kinds H n = Some k" "hub_namespace_kinds H n' = Some k" for n n' k
    using that routes(3) [of n k] routes(3) [of n' k] by auto
  have pos: "0 < k" if "hub_namespace_kinds H n = Some k" for n k using that routes(3) [of n k] by auto
  show "kind_for H channel = kind_for H channel' \<longleftrightarrow>
     namespace_of channel = namespace_of channel' \<or>
     map_of ?cs (namespace_of channel) = None \<and> map_of ?cs (namespace_of channel') = None"
    by (cases "hub_namespace_kinds H (namespace_of channel)";
        cases "hub_namespace_kinds H (namespace_of channel')")
       (auto simp: routes(2) config(1) [symmetric] dest: inj pos)
qed

theorem channels_are_routed_as_configured_witness:
  "node_kinds demo_cfg (kind_for demo_hub ''doc.plan'') = (KYjs yjs_new :: (u8, u8) node_kind)"
proof -
  have "distinct (map fst (sc_channel_kinds demo_cfg))" by (simp add: demo_cfg_def)
  from channels_are_routed_as_configured [OF demo_build this, of "''doc.plan''"]
  show ?thesis by (simp add: demo_cfg_def namespace_of_def)
qed

end
