(* ===== verification/Service.thy ===== *)
theory Service
  imports Server Run
begin

text \<open>
  The server as its clients and operators see it: connections over the two socket transports,
  requests over HTTP, the admin API and the start of the process, each on a hub built from a
  configuration.
\<close>

section \<open>Requests over a socket\<close>



text \<open>
  C4. A connection leaves nothing behind: from the moment its session is opened, through any messages
  and any steps of the rest of the server in between, once a WebSocket or WebTransport connection is
  over its session is not registered under any id, its transport's handle is gone, nothing keeps it
  alive and it has no subscriptions; the state reached is one the invariants hold in.
\<close>

theorem finished_connection_leaves_nothing:
  assumes "build_hub E cfg = Some (Inr (H, ks, b))" and "bc_backend (sc_broker cfg) = Memory"
    and "runtime_ok E t0 used sent closed snds cap rx queue lag"
    and "reachable H (world_new ks b t0) (held, w)" and "m_opened (w_metrics w) + 1 < 2 ^ 64"
    and "ws_accept H outbox w = (sid, ref, w1)"
    and "(ws_step C H sid ref)\<^sup>*\<^sup>* (Reading, insert ref held, w1) (Done, held', w') \<or>
         (\<exists>rest. (wt_step C H sid ref)\<^sup>*\<^sup>* (Reading, [], insert ref held, w1) (Done, rest, held', w'))"
  shows "reachable H (world_new ks b t0) (held', w') \<and> ref \<notin> held' \<and>
    (\<forall>i. reg_get (w_registry w') i \<noteq> Some ref) \<and> w_strong w' ref = 0 \<and>
    s_subscriptions (w_store w' ref) = []"
proof -
  have r1: "reachable H (world_new ks b t0) (insert ref held, w1)"
    by (rule reachable.Step [OF assms(4) accept_step [OF assms(6,5)]])
  have only: "only {sid} ref w1" by (rule accept_only [OF assms(6) built_core [OF assms(1-3) r1]])
  have "(hub_step H)\<^sup>*\<^sup>* (insert ref held, w1) (held', w')"
    using assms(7) ws.steps_conn(1) [of C H sid ref] wt.steps_conn(1) [of C H sid ref] by fastforce
  then have r2: "reachable H (world_new ks b t0) (held', w')" using r1 by (rule reachable_steps)
  note core = built_core [OF assms(1-3) r2]
  have wsi: "ws.conn_inv sid ref (Reading, insert ref held, w1)"
    and wti: "wt.conn_inv sid ref (Reading, [], insert ref held, w1)"
    using only by (simp_all add: ws.conn_inv_def wt.conn_inv_def)
  from assms(7) show ?thesis
  proof
    assume "(ws_step C H sid ref)\<^sup>*\<^sup>* (Reading, insert ref held, w1) (Done, held', w')"
    from ws.finished [OF this wsi] core r2 show ?thesis by simp
  next
    assume "\<exists>rest. (wt_step C H sid ref)\<^sup>*\<^sup>* (Reading, [], insert ref held, w1) (Done, rest, held', w')"
    then obtain rest where
      "(wt_step C H sid ref)\<^sup>*\<^sup>* (Reading, [], insert ref held, w1) (Done, rest, held', w')" by blast
    from wt.finished [OF this wti] core r2 show ?thesis by simp
  qed
qed

theorem finished_connection_leaves_nothing_witness:
  "reg_get (w_registry (teardown demo_hub 0 0 demo_open)) 0 = None \<and>
   w_strong (teardown demo_hub 0 0 demo_open) 0 = 0"
proof -
  let ?C = "\<lparr>cd_prost = wire, cd_show = (\<lambda>_. [])\<rparr>"
  have acc: "ws_accept demo_hub 7 demo_start = (0, 0, demo_open)" by (simp add: ws_accept_def demo_opened)
  have "ws_step ?C demo_hub 0 0 (Reading, insert 0 {}, demo_open) (Leaving, insert 0 {}, demo_open)"
    by (rule ws_step.Leave)
  moreover have "ws_step ?C demo_hub 0 0 (Leaving, insert 0 {}, demo_open)
      (Done, insert 0 {} - {0}, teardown demo_hub 0 0 demo_open)"
    by (rule ws_step.Finish) simp
  ultimately have "(ws_step ?C demo_hub 0 0)\<^sup>*\<^sup>* (Reading, insert 0 {}, demo_open)
      (Done, insert 0 {} - {0}, teardown demo_hub 0 0 demo_open)" by simp
  then have fin: "(\<forall>i. reg_get (w_registry (teardown demo_hub 0 0 demo_open)) i \<noteq> Some 0) \<and>
      w_strong (teardown demo_hub 0 0 demo_open) 0 = 0"
    using finished_connection_leaves_nothing [OF demo_run_0 demo_few acc]
    by blast
  moreover have "reg_get (w_registry (teardown demo_hub 0 0 demo_open)) 0 = None"
    by (simp add: teardown_def hub_simps close_view)
  ultimately show ?thesis by blast
qed

text \<open>
  C21. WebTransport frames survive the byte stream: whatever the writer sends, split and delivered as
  one run of bytes, is read back as the same frames in the same order, before whatever follows; no
  frame longer than 16 MiB is ever handed on, and a longer one ends the connection.
\<close>

theorem wt_stream_roundtrip:
  assumes "list_all (\<lambda>body. length body \<le> MAX_FRAME) bodies"
  shows "wt_frames (concat (map wt_frame bodies) @ rest) = bodies @ wt_frames rest \<and>
    (\<forall>body \<in> set (wt_frames inp). length body \<le> MAX_FRAME) \<and>
    (MAX_FRAME < length big \<and> length big < 2 ^ 32 \<longrightarrow> wt_next (wt_frame big @ rest) = TooLong)"
  using wt_frames_concat [OF assms] wt_frames_bounded wt_next_too_long by blast

theorem wt_stream_roundtrip_witness:
  "wt_frames [0, 0, 0, 2, 8, 9, 0, 0, 0, 0] = [[8, 9], []]"
proof -
  have "list_all (\<lambda>body. length body \<le> MAX_FRAME) [[8, 9], []]" by (simp add: MAX_FRAME_def)
  from wt_stream_roundtrip [OF this, of "[]"]
  show ?thesis by (simp add: wt_frame_def to_be_bytes_def)
qed

text \<open>
  C12. A forwarder makes progress: as many rounds of its loop as its stream has pending publications
  deliver all of them to the outbox, in order, and leave the stream empty; no other outbox changes.
\<close>

theorem forwarder_drains_its_stream:
  assumes "build_hub E cfg = Some (Inr (H, ks, b))" and "bc_backend (sc_broker cfg) = Memory"
    and "runtime_ok E t0 used sent closed snds cap rx queue lag"
    and "reachable H (world_new ks b t0) (held, w)"
    and "rt_task (env_rt E) (w_rt w) h = Some f" and "\<not> closed (w_rt w) (fw_outbox f)"
    and "tokio_broadcast.node_pending queue (w_broker w) (fw_stream f) = ps"
  shows "sent (w_rt ((forward H h ^^ length ps) w)) =
      (sent (w_rt w))(fw_outbox f := sent (w_rt w) (fw_outbox f) @ map PublicationFrame ps) \<and>
    tokio_broadcast.node_pending queue (w_broker ((forward H h ^^ length ps) w)) (fw_stream f) = []"
proof -
  note sys = built_system [OF assms(1,3)] and inv = built_reachable_inv [OF assms(1-4)]
  have "rt_task (hub_rt H) (w_rt w) h = Some f" using assms(1,5) by (auto elim: build_hub_InrE)
  from hub_system.forward_drains [OF sys inv this assms(7,6)] show ?thesis by blast
qed

theorem forwarder_drains_its_stream_witness:
  "rt_frames (w_rt (forward demo_hub 0 demo_published)) 7 = [PublicationFrame demo_pub] \<and>
   bcast.node_pending (w_broker (forward demo_hub 0 demo_published)) 0 = []"
proof -
  have task: "rt_task rt_ops (w_rt demo_subscribed) 0 = Some demo_task"
    by (simp add: demo_subscribed_eq rt_ops_def)
  have idle: "bcast.node_pending (w_broker demo_subscribed) (fw_stream demo_task) = []"
    by (simp add: demo_subscribed_eq demo_broker_1_def bcast.mem_pending_def bcast_init_def)
  note sys = built_system [OF demo_build demo_runtime]
  have pend: "bcast.node_pending (w_broker demo_published) (fw_stream demo_task) = [demo_pub]"
    using hub_system.publish_pends [OF sys built_reachable_inv [OF demo_run] _ _ idle demo_publish, of 0] task
    by (simp add: demo_task_def)
  have rt: "w_rt demo_published = w_rt demo_subscribed" by (rule hub_system.publish_frame(1) [OF sys demo_publish])
  have "hub_step demo_hub ({0}, demo_subscribed) ({0}, demo_published)"
    unfolding demo_published_def by (rule hub_step.PublishStep)
  from reachable.Step [OF demo_reachable this]
  have "reachable demo_hub (world_new (node_kinds demo_cfg) demo_broker rt_init) ({0}, demo_published)"
    by (simp add: demo_start_def)
  from forwarder_drains_its_stream [OF demo_build demo_memory demo_runtime this _ _ pend, of 0] task rt
  show ?thesis by (simp add: demo_env_def demo_task_def demo_subscribed_eq rt_init_def)
qed

section \<open>Requests over HTTP\<close>

lemma fold_forward_registry: "w_registry (fold (forward H) hs w) = w_registry w"
proof (induction hs arbitrary: w)
  case (Cons h hs)
  have "w_registry (forward H h w) = w_registry w"
    by (auto simp: forward_def send_frame_def hub_simps split: prod.splits option.splits
        stream_poll.splits bool.splits)
  with Cons show ?case by simp
qed simp

text \<open>What an accepted subscribe request leaves in the registry.\<close>

lemma http_subscribed:
  assumes "build_hub E cfg = Some (Inr (H, ks, b))" and "bc_backend (sc_broker cfg) = Memory"
    and "runtime_ok E t0 used sent closed snds cap rx queue lag"
    and "reachable H (world_new ks b t0) (held, w)" and "m_opened (w_metrics w) + 1 < 2 ^ 64"
    and "subscribe_handler W H clock query a outbox w = (Inr sid, w')"
  shows "\<exists>ref. reg_get (w_registry w') sid = Some ref \<and> reachable H (world_new ks b t0) (held, w') \<and>
    (\<forall>c \<in> set (channels_from_raw_query query). sid \<in> set (subscribers_of (w_registry w') c))"
proof -
  note core = built_core [OF assms(1-3)]
  obtain ref w1 w3 where op: "open_session H outbox w = (ref, w1)"
    and st: "(hub_step H)\<^sup>*\<^sup>* (insert ref held, w1) (insert ref held, w3)" and w': "w' = arc_drop H ref w3"
    and reg: "reg_get (w_registry w3) sid = Some ref"
    and subs: "\<forall>c \<in> set (channels_from_raw_query query). has_subscription (w_store w3 ref) c"
    by (rule subscribe_handler_accepted [OF core [OF assms(4)] assms(6)])
  have "reachable H (world_new ks b t0) (insert ref held, w1)"
    by (rule reachable.Step [OF assms(4) hub_step.Open [OF assms(5) op]])
  from reachable_steps [OF st this] have r3: "reachable H (world_new ks b t0) (insert ref held, w3)" .
  have "ref = w_next_ref w" using op by (auto simp: open_session_def Let_def split: prod.splits)
  moreover have "\<forall>r \<in> held. r < w_next_ref w" using core [OF assms(4)] by (simp add: core_inv_def counts_ok_def)
  ultimately have held: "insert ref held - {ref} = held" by blast
  have "hub_step H (insert ref held, w3) (insert ref held - {ref}, arc_drop H ref w3)"
    by (rule hub_step.Release) simp
  then have "reachable H (world_new ks b t0) (held, w')"
    unfolding held w' by (rule reachable.Step [OF r3])
  moreover have "\<forall>c \<in> set (channels_from_raw_query query). sid \<in> set (subscribers_of (w_registry w3) c)"
    using core_invD(6) [OF core [OF r3]] reg subs by blast
  ultimately show ?thesis using reg by (simp add: w' hub_simps)
qed

text \<open>A web library for the examples.\<close>

definition demo_http :: "(string, bytes) http" where
  "demo_http = \<lparr>to_str = Some,
     to_bytes = (\<lambda>body limit. if length body \<le> limit then Inr body else Inl ''length limit exceeded''),
     json_string = (\<lambda>s. CHR 0x22 # s @ [CHR 0x22]), base64 = (\<lambda>bs. map (char_of \<circ> unat) bs)\<rparr>"

text \<open>
  C15. Publishing over HTTP leaves no session behind, whatever the outcome (body too long, no token, bad
  token, refused or accepted): the registry is as before. The answer is 200 exactly if one publication
  was counted.
\<close>

theorem http_publish_is_stateless:
  assumes "build_hub E cfg = Some (Inr (H, ks, b))" and "bc_backend (sc_broker cfg) = Memory"
    and "runtime_ok E t0 used sent closed snds cap rx queue lag"
    and "reachable H (world_new ks b t0) (held, w)"
    and "publish_handler W H clock q a body outbox w = (r, w')"
  shows "reg_get (w_registry w') = reg_get (w_registry w) \<and>
    m_published (w_metrics w') = m_published (w_metrics w) + of_bool (rs_status r = 200)"
  using publish_handler_effect [OF built_core [OF assms(1-4)] assms(5)] by blast

theorem http_publish_is_stateless_witness:
  "\<exists>w'. publish_handler demo_http demo_hub (\<lambda>_. 0) \<lparr>pq_channel = ''rooms.a'', pq_request_id = 0\<rparr>
       (Some ''Bearer k:alice'') [1, 2, 3] 7 demo_start =
     (\<lparr>rs_status = 422, rs_body = hub_error_msg (SchemaErr (PayloadRejected ''rooms.a'' ''too long''))\<rparr>, w') \<and>
     reg_get (w_registry w') = reg_get (w_registry demo_start) \<and>
     m_published (w_metrics w') = 0"
proof -
  let ?r = "publish_handler demo_http demo_hub (\<lambda>_. 0) \<lparr>pq_channel = ''rooms.a'', pq_request_id = 0\<rparr>
       (Some ''Bearer k:alice'') [1, 2, 3] 7 demo_start"
  have cn: "sse_connect demo_http demo_hub 0 (Some ''Bearer k:alice'') 0 demo_open = (None, demo_connected)"
    by (simp add: sse_connect_def token_from_headers_def demo_http_def demo_connect)
  have pb: "fst (handle_publish demo_hub 0 0 ''rooms.a'' [1, 2, 3] demo_connected) =
      Inl (SchemaErr (PayloadRejected ''rooms.a'' ''too long''))"
    by (simp add: handle_publish_def try_bind_def get_session_def demo_connected_eq demo_open_eq reg_get_def
        require_claims_def session_new_def enforce_acl_def demo_acl_rooms ok_def check_schema_def demo_schema)
  have "to_bytes demo_http [1, 2, 3] (16 * 1024 * 1024) = Inr [1, 2, 3]" by (simp add: demo_http_def)
  then have fst: "fst ?r = \<lparr>rs_status = 422,
      rs_body = hub_error_msg (SchemaErr (PayloadRejected ''rooms.a'' ''too long''))\<rparr>"
    using pb by (cases "handle_publish demo_hub 0 0 ''rooms.a'' [1, 2, 3] demo_connected")
      (simp add: publish_handler_def demo_opened cn into_response_def)
  have eq: "?r = (fst ?r, snd ?r)" by simp
  from http_publish_is_stateless [OF demo_run_0 eq] fst
  show ?thesis by (intro exI [of _ "snd ?r"]) (simp add: prod_eq_iff demo_start_def world_new_def)
qed

text \<open>
  C16. A refused subscribe request leaves the registry as before; an accepted one leaves its session
  registered and listed as a subscriber of every channel of the query.
\<close>

theorem http_subscribe_outcome:
  assumes "build_hub E cfg = Some (Inr (H, ks, b))" and "bc_backend (sc_broker cfg) = Memory"
    and "runtime_ok E t0 used sent closed snds cap rx queue lag"
    and "reachable H (world_new ks b t0) (held, w)" and "m_opened (w_metrics w) + 1 < 2 ^ 64"
    and "subscribe_handler W H clock query a outbox w = (r, w')"
  shows "case r of
      Inl _ \<Rightarrow> reg_get (w_registry w') = reg_get (w_registry w)
    | Inr sid \<Rightarrow> \<exists>ref. reg_get (w_registry w') sid = Some ref \<and>
        (\<forall>c \<in> set (channels_from_raw_query query). sid \<in> set (subscribers_of (w_registry w') c))"
proof (cases r)
  case (Inl x)
  with subscribe_handler_refused [OF built_core [OF assms(1-4)], of W clock query a outbox x w'] assms(6)
  show ?thesis by simp
next
  case (Inr sid)
  with http_subscribed [OF assms(1-5), of W clock query a outbox sid w'] assms(6) show ?thesis by auto
qed

text \<open>The example's subscribe request.\<close>

lemma demo_http_subscribe:
  "subscribe_handler demo_http demo_hub (\<lambda>_. 0) (Some ''channel=rooms%2Ea'') (Some ''Bearer k:alice'') 7 demo_start =
     (Inr 0, arc_drop demo_hub 0 demo_subscribed)"
proof -
  have cn: "sse_connect demo_http demo_hub 0 (Some ''Bearer k:alice'') 0 demo_open = (None, demo_connected)"
    by (simp add: sse_connect_def token_from_headers_def demo_http_def demo_connect)
  have su: "handle_subscribe demo_hub 0 0 0 ''rooms.a'' 0 demo_connected =
      (Inr \<lparr>subok_request_id = 0, subok_channel = ''rooms.a'', subok_epoch = 1, subok_offset = 0\<rparr>, demo_subscribed)"
    unfolding demo_subscribed_def demo_subscribe by simp
  have "channels_from_raw_query (Some ''channel=rooms%2Ea'') = [''rooms.a'']" by code_simp
  then show ?thesis by (simp add: subscribe_handler_def demo_opened cn su)
qed

theorem http_subscribe_outcome_witness:
  "0 \<in> set (subscribers_of (w_registry (arc_drop demo_hub 0 demo_subscribed)) ''rooms.a'')"
proof -
  have "channels_from_raw_query (Some ''channel=rooms%2Ea'') = [''rooms.a'']" by code_simp
  then show ?thesis
    using http_subscribe_outcome [OF demo_run_0 demo_few demo_http_subscribe] by simp
qed

text \<open>
  C33. A subscriber that goes away is not noticed: when the client drops an event stream half way, its
  session stays registered and listed as a subscriber, and no number of forwarder rounds changes that.
\<close>

theorem abandoned_stream_stays_registered:
  assumes "build_hub E cfg = Some (Inr (H, ks, b))" and "bc_backend (sc_broker cfg) = Memory"
    and "runtime_ok E t0 used sent closed snds cap rx queue lag"
    and "reachable H (world_new ks b t0) (held, w)" and "m_opened (w_metrics w) + 1 < 2 ^ 64"
    and "subscribe_handler W H clock query a outbox w = (Inr sid, w')"
    and "c \<in> set (channels_from_raw_query query)"
  shows "reg_get (w_registry (fold (forward H) hs (stream_dropped H outbox w'))) sid \<noteq> None \<and>
    sid \<in> set (subscribers_of (w_registry (fold (forward H) hs (stream_dropped H outbox w'))) c)"
  using http_subscribed [OF assms(1-6)] assms(7)
  by (auto simp: fold_forward_registry stream_dropped_def hub_simps)

theorem abandoned_stream_stays_registered_witness:
  "0 \<in> set (subscribers_of (w_registry (forward demo_hub 0 (stream_dropped demo_hub 7
     (arc_drop demo_hub 0 demo_subscribed)))) ''rooms.a'')"
proof -
  have "''rooms.a'' \<in> set (channels_from_raw_query (Some ''channel=rooms%2Ea''))" by code_simp
  then show ?thesis
    using abandoned_stream_stays_registered [OF demo_run_0 demo_few demo_http_subscribe, of "''rooms.a''" "[0]"] by simp
qed

text \<open>
  C34. The channels of a query string can be read back: a client that percent-encodes every channel name
  and joins the pairs gets exactly its channels subscribed, in order.
\<close>

theorem channel_query_roundtrip:
  assumes "list_all (\<lambda>c. utf8 c \<and> c \<noteq> []) cs"
  shows "channels_from_raw_query (Some (channel_query cs)) = cs"
proof (cases cs)
  case Nil
  then show ?thesis
    by (simp add: channels_from_raw_query_def channel_of_pair_def map_filter_simps)
next
  case (Cons c ds)
  with channels_from_encoded [OF assms] show ?thesis by (simp add: channels_from_raw_query_def)
qed

theorem channel_query_roundtrip_witness:
  "channels_from_raw_query (Some ''channel=a%26b&channel=50%25'') = [''a&b'', ''50%'']"
proof -
  have "list_all (\<lambda>c. utf8 c \<and> c \<noteq> []) [''a&b'', ''50%'']" by code_simp
  moreover have "channel_query [''a&b'', ''50%''] = ''channel=a%26b&channel=50%25''" by code_simp
  ultimately show ?thesis using channel_query_roundtrip by metis
qed

section \<open>The admin API\<close>

text \<open>
  C25. With a token configured, the admin API answers and acts only for requests that present it: any
  other request to an endpoint under the prefix gets 401, reads nothing and changes nothing. Only the
  console page is public.
\<close>

theorem admin_requires_token:
  assumes "ar_auth_token resources = Some token" and "request \<noteq> GetConsole"
    and "\<not> (\<exists>v. a = Some v \<and> to_str W v = Some (''Bearer '' @ token))"
  shows "router W render resources a request w =
    ((401, Plain ''missing or invalid Authorization: Bearer <token>''), w)"
proof -
  have "\<not> presents W a token" using assms(3) unfolding presents_def .
  with router_guard [OF assms(1,2), of W render a w] show ?thesis by simp
qed

theorem admin_requires_token_witness:
  "router demo_http (\<lambda>_. []) (build_resources demo_hub (Some ()) (Some ''s3cret'')) (Some ''Bearer guess'')
     (PostDisconnect 0) demo_subscribed =
   ((401, Plain ''missing or invalid Authorization: Bearer <token>''), demo_subscribed)"
  by (rule admin_requires_token [of _ "''s3cret''"]) (simp_all add: demo_http_def)

text \<open>
  C26. What the admin API shows of a running server is true and consistent: the listing has exactly the
  registered sessions, once each, in the order of their ids, with their subjects and numbers of
  channels; a session's details list a channel exactly if the channel's subscribers list the session.
\<close>

theorem admin_views_agree:
  assumes "build_hub E cfg = Some (Inr (H, ks, b))" and "bc_backend (sc_broker cfg) = Memory"
    and "runtime_ok E t0 used sent closed snds cap rx queue lag"
    and "reachable H (world_new ks b t0) (held, w)" and "ar_sessions resources = Some HubRegistry"
    and "s = app_state resources"
  shows "(\<exists>xs. list_sessions s w = (200, Sessions xs) \<and> sorted (map ss_id xs) \<and> distinct (map ss_id xs) \<and>
      (\<forall>x. x \<in> set xs \<longleftrightarrow> (\<exists>ref. reg_get (w_registry w) (ss_id x) = Some ref \<and>
         ss_subject x = session_subject (w_store w ref) \<and>
         ss_channels x = length (session_channels (w_store w ref))))) \<and>
    ((\<exists>d. admin_get_session s i w = (200, Detail d) \<and> c \<in> set (sd_channels d)) \<longleftrightarrow>
     (\<exists>r. channel_subscribers s c w = (200, Subscribers r) \<and> i \<in> set (sr_subscribers r)))"
proof -
  note core = built_core [OF assms(1-4)]
  have s: "as_sessions s = HubRegistry" using assms(5,6) by (simp add: app_state_def unwrap_or_def)
  obtain xs where xs: "list_sessions s w = (200, Sessions xs)" by (simp add: list_sessions_def)
  have "(\<exists>d. admin_get_session s i w = (200, Detail d) \<and> c \<in> set (sd_channels d)) \<longleftrightarrow>
      (\<exists>ref. reg_get (w_registry w) i = Some ref \<and> has_subscription (w_store w ref) c)"
    by (auto simp: admin_get_session_def the_registry_def s session_channels_def has_subscription_def
        map_of_eq_None_iff split: option.splits)
  then have "(\<exists>d. admin_get_session s i w = (200, Detail d) \<and> c \<in> set (sd_channels d)) \<longleftrightarrow>
     (\<exists>r. channel_subscribers s c w = (200, Subscribers r) \<and> i \<in> set (sr_subscribers r))"
    using core_invD(6) [OF core, of i c] by (simp add: channel_subscribers_def the_registry_def s)
  then show ?thesis using xs listing [OF core s xs] by blast
qed

theorem admin_views_agree_witness:
  "\<exists>d. admin_get_session (app_state (build_resources demo_hub (Some ()) None)) 0 demo_subscribed = (200, Detail d) \<and>
       ''rooms.a'' \<in> set (sd_channels d)"
proof -
  let ?s = "app_state (build_resources demo_hub (Some ()) None)"
  have "\<exists>r. channel_subscribers ?s ''rooms.a'' demo_subscribed = (200, Subscribers r) \<and> 0 \<in> set (sr_subscribers r)"
    by (simp add: channel_subscribers_def the_registry_def app_state_def unwrap_or_def demo_subscribed_eq
        subscribers_of_def)
  with admin_views_agree [OF demo_run build_resources_fields(1) refl] show ?thesis by blast
qed

section \<open>Starting and stopping the server\<close>

text \<open>An operating system for the examples: an address can be bound once.\<close>

definition demo_os :: "(socket_addr, socket_addr list, unit) os" where
  "demo_os = \<lparr>tcp_bind = (\<lambda>a n. if a \<in> set n then (Inl ''address in use'', n) else (Inr a, a # n)),
     tcp_local_addr = Inr, build_recorder = (\<lambda>n. ((), n)), set_global_recorder = (\<lambda>_ n. (True, n))\<rparr>"

lemma node_kinds_transports: "node_kinds (cfg\<lparr>sc_transport := t, sc_admin := a\<rparr>) = node_kinds cfg"
  by (rule ext) (simp add: node_kinds_def Let_def)

lemma build_hub_transports: "build_hub E (cfg\<lparr>sc_transport := t, sc_admin := a\<rparr>) = build_hub E cfg"
proof -
  let ?c = "cfg\<lparr>sc_transport := t, sc_admin := a\<rparr>"
  have "sc_broker ?c = sc_broker cfg" "sc_namespaces ?c = sc_namespaces cfg" "sc_auth ?c = sc_auth cfg"
    "sc_acl ?c = sc_acl cfg" "sc_channel_kinds ?c = sc_channel_kinds cfg" by simp_all
  then show ?thesis by (simp only: build_hub_def node_kinds_transports)
qed

definition demo_full :: "bytes server_config" where
  "demo_full = demo_cfg\<lparr>sc_transport := \<lparr>tc_ws = ws_config_default, tc_sse = Some sse_config_default\<rparr>,
     sc_admin := admin_config_default\<lparr>ac_enabled := True\<rparr>\<rparr>"

text \<open>
  C30. A server that starts runs exactly what its configuration asks for, all on one hub: the WebSocket
  listener with its path and capacity, the SSE listener if there is a section for it, the admin listener
  if it is enabled, with its token and on the hub's registry. Each serves the socket that was bound to
  its configured address, and the handle reports the addresses those sockets got. Shutting down stops
  all of it and nothing else.
\<close>

theorem run_starts_what_is_configured:
  assumes "run E OS cfg pr = (Some (Inr h), pr')" and "\<forall>j. pr_next pr \<le> j \<longrightarrow> pr_tasks pr j = None"
  shows "\<exists>hub ks b lw ls la m. build_hub E cfg = Some (Inr (hub, ks, b)) \<and>
     map (pr_tasks pr') (rh_joins h) = map Some (services hub cfg lw ls la m) \<and>
     listening OS cfg (pr_os pr) lw ls la m h \<and>
     (\<forall>j. j \<notin> set (rh_joins h) \<longrightarrow> pr_tasks pr' j = pr_tasks pr j) \<and>
     pr_tasks (run_shutdown h pr') = pr_tasks pr"
proof -
  from assms(1) obtain hub ks b where hub: "build_hub E cfg = Some (Inr (hub, ks, b))"
    and st: "start_all OS hub cfg pr = (Inr h, pr')"
    by (auto simp: run_def split: option.splits sum.splits prod.splits)
  have free: "\<And>j. pr_next pr \<le> j \<Longrightarrow> pr_tasks pr j = None" using assms(2) by simp
  from hub start_all_Inr [OF st free] show ?thesis by blast
qed

theorem run_starts_what_is_configured_witness:
  "\<exists>h pr'. run demo_env demo_os demo_full \<lparr>pr_os = [], pr_tasks = Map.empty, pr_next = 0\<rparr> = (Some (Inr h), pr') \<and>
     length (rh_joins h) = 3 \<and> (\<exists>lw ls la m. listening demo_os demo_full [] lw ls la m h) \<and> pr_tasks (run_shutdown h pr') = Map.empty"
proof -
  let ?pr = "\<lparr>pr_os = [], pr_tasks = Map.empty, pr_next = 0\<rparr>"
  let ?r = "run demo_env demo_os demo_full ?pr"
  have hub: "build_hub demo_env demo_full = Some (Inr (demo_hub, node_kinds demo_cfg, demo_broker))"
    unfolding demo_full_def build_hub_transports by (rule demo_build)
  have "\<exists>h pr'. start_all demo_os demo_hub demo_full ?pr = (Inr h, pr') \<and> length (rh_joins h) = 3"
    by (simp add: start_all_def start_ws_def start_sse_def start_admin_def demo_full_def ws_config_default_def
        sse_config_default_def admin_config_default_def try_bind_def bind_listener_def on_os_def demo_os_def
        spawn_def ok_def install_prometheus_recorder_def map_filter_simps)
  then obtain h pr' where r: "?r = (Some (Inr h), pr')" and n: "length (rh_joins h) = 3"
    by (auto simp: run_def hub)
  from run_starts_what_is_configured [OF r] n r show ?thesis by auto
qed

text \<open>
  C31. A start that fails half way is not undone: when the SSE address cannot be bound, \<open>run\<close> returns
  the error, but the WebSocket listener it has already started keeps running, with no handle left to
  stop it.
\<close>

theorem failed_start_leaves_ws_running:
  assumes "build_hub E cfg = Some (Inr (hub, ks, b))"
    and "start_ws OS hub (tc_ws (sc_transport cfg)) pr = (Inr (a, j), p1)"
    and "tc_sse (sc_transport cfg) = Some c" and "fst (tcp_bind OS (sse_listen c) (pr_os p1)) = Inl e"
  shows "\<exists>pr' l. run E OS cfg pr = (Some (Inl (STransport (''sse bind: '' @ e))), pr') \<and>
    pr_tasks pr' j = Some (ServeWs l (ws_path (tc_ws (sc_transport cfg))) hub
      (ws_outbox_capacity (tc_ws (sc_transport cfg))))"
proof -
  obtain p2 where p2: "start_sse OS hub (tc_sse (sc_transport cfg)) p1 = (Inl (STransport (''sse bind: '' @ e)), p2)"
    using assms(3,4)
    by (cases "tcp_bind OS (sse_listen c) (pr_os p1)")
       (simp add: start_sse_def try_bind_def bind_listener_def on_os_def)
  from start_all_sse_fails [OF assms(2) p2] start_ws_Inr [OF assms(2)] assms(1)
  show ?thesis by (auto simp: run_def)
qed

theorem failed_start_leaves_ws_running_witness:
  "\<exists>pr' l cap. run demo_env demo_os demo_full
       \<lparr>pr_os = [SocketAddr [127, 0, 0, 1] 7100], pr_tasks = Map.empty, pr_next = 0\<rparr> =
     (Some (Inl (STransport ''sse bind: address in use'')), pr') \<and>
     pr_tasks pr' 0 = Some (ServeWs l ''/connect/v1'' demo_hub cap)"
proof -
  let ?pr = "\<lparr>pr_os = [SocketAddr [127, 0, 0, 1] 7100], pr_tasks = Map.empty, pr_next = 0\<rparr>"
  have hub: "build_hub demo_env demo_full = Some (Inr (demo_hub, node_kinds demo_cfg, demo_broker))"
    unfolding demo_full_def build_hub_transports by (rule demo_build)
  obtain a p1 where ws: "start_ws demo_os demo_hub (tc_ws (sc_transport demo_full)) ?pr = (Inr (a, 0), p1)"
    and os: "SocketAddr [127, 0, 0, 1] 7100 \<in> set (pr_os p1)"
    by (simp add: start_ws_def demo_full_def ws_config_default_def try_bind_def bind_listener_def on_os_def
        demo_os_def spawn_def ok_def)
  have sse: "tc_sse (sc_transport demo_full) = Some sse_config_default" by (simp add: demo_full_def)
  have "fst (tcp_bind demo_os (sse_listen sse_config_default) (pr_os p1)) = Inl ''address in use''"
    using os by (simp add: demo_os_def sse_config_default_def)
  from failed_start_leaves_ws_running [OF hub ws sse this] show ?thesis
    by (auto simp: demo_full_def ws_config_default_def)
qed

end
