(* ===== verification/Sdk.thy ===== *)
theory Sdk
  imports App "HOL-Library.List_Lexorder" "HOL-Library.Char_ord"
begin

text \<open>
  \<open>cherenkov-sdk-ts\<close>: the generator of TypeScript helpers (\<open>tsgen.rs\<close>) and of AsyncAPI documents
  (\<open>asyncapi.rs\<close>) from the namespaces of a server configuration (\<open>main.rs\<close>). YAML and JSON
  parsing and printing, the tables of Unicode and the file system are parameters.
\<close>

section \<open>JSON values\<close>

text \<open>
  \<open>serde_json::Value\<close>; the numbers are not looked at and stand for themselves. An object is a map sorted
  by key, of which \<open>map_insert\<close> is the insertion.
\<close>

datatype json =
    JNull
  | JBool bool
  | JNumber int
  | JString string
  | JArray "json list"
  | JObject "(string \<times> json) list"

fun json_get :: "string \<Rightarrow> json \<Rightarrow> json option" where
  "json_get k (JObject m) = map_of m k"
| "json_get k _ = None"

fun as_str :: "json \<Rightarrow> string option" where
  "as_str (JString s) = Some s"
| "as_str _ = None"

fun as_array :: "json \<Rightarrow> json list option" where
  "as_array (JArray xs) = Some xs"
| "as_array _ = None"

fun as_object :: "json \<Rightarrow> (string \<times> json) list option" where
  "as_object (JObject m) = Some m"
| "as_object _ = None"

fun map_insert :: "string \<Rightarrow> 'a \<Rightarrow> (string \<times> 'a) list \<Rightarrow> (string \<times> 'a) list" where
  "map_insert k v [] = [(k, v)]"
| "map_insert k v ((k', v') # m) =
     (if k = k' then (k, v) # m
      else if k < k' then (k, v) # (k', v') # m
      else (k', v') # map_insert k v m)"

definition json_object :: "(string \<times> json) list \<Rightarrow> json" where
  "json_object kvs = JObject (fold (\<lambda>(k, v). map_insert k v) kvs [])"

lemma map_of_insert [simp]: "map_of (map_insert k v m) = (map_of m)(k \<mapsto> v)"
  by (induction k v m rule: map_insert.induct) auto

lemma map_of_inserts: "map_of (fold (\<lambda>(k, v). map_insert k v) kvs m) = map_of m ++ map_of (rev kvs)"
  by (induction kvs arbitrary: m) (auto simp: map_add_def split: option.splits)

lemma json_get_object [simp]: "json_get k (json_object kvs) = map_of (rev kvs) k"
  by (simp add: json_object_def map_of_inserts)

lemma size_json_value: "(k, v) \<in> set m \<Longrightarrow> size v < size (JObject m)"
  by (induction m) auto

lemma size_json_get: "json_get k j = Some v \<Longrightarrow> size v < size j"
  by (cases j) (auto dest!: map_of_SomeD size_json_value)

section \<open>TypeScript\<close>

text \<open>
  \<open>chars\<close> splits a string at the boundaries of its UTF-8 sequences. The tables of \<open>char\<close> are a
  parameter.
\<close>

definition utf8_rest :: "char \<Rightarrow> nat" where
  "utf8_rest c =
     (let n = of_char c :: nat in if n < 128 then 0 else if n < 224 then 1 else if n < 240 then 2 else 3)"

function (sequential) chars :: "string \<Rightarrow> string list" where
  "chars [] = []"
| "chars (c # cs) = (c # take (utf8_rest c) cs) # chars (drop (utf8_rest c) cs)"
  by pat_completeness auto

termination chars
  by (relation "measure length") auto

record unicode =
  is_alphanumeric :: "string \<Rightarrow> bool"
  to_uppercase :: "string \<Rightarrow> string"

fun type_name_loop :: "unicode \<Rightarrow> bool \<Rightarrow> string list \<Rightarrow> string" where
  "type_name_loop U upper_next [] = []"
| "type_name_loop U upper_next (c # cs) =
     (if is_alphanumeric U c
      then (if upper_next then to_uppercase U c else c) @ type_name_loop U False cs
      else type_name_loop U True cs)"

definition type_name :: "unicode \<Rightarrow> string \<Rightarrow> string" where
  "type_name U namespace =
     (let out = type_name_loop U True (chars namespace)
      in if out = [] then ''Payload'' else out @ ''Payload'')"

definition required :: "json \<Rightarrow> string list" where
  "required schema =
     (case Option.bind (json_get ''required'' schema) as_array of
        None \<Rightarrow> []
      | Some arr \<Rightarrow> List.map_filter as_str arr)"

fun join :: "string \<Rightarrow> string list \<Rightarrow> string" where
  "join sep [] = []"
| "join sep [s] = s"
| "join sep (s # ss) = s @ sep @ join sep ss"

function (sequential) ts_type :: "json \<Rightarrow> string" and render_object :: "json \<Rightarrow> string" where
  "ts_type schema =
     (case Option.bind (json_get ''type'' schema) as_str of
        None \<Rightarrow> ''unknown''
      | Some t \<Rightarrow>
          if t = ''string'' then ''string''
          else if t = ''integer'' \<or> t = ''number'' then ''number''
          else if t = ''boolean'' then ''boolean''
          else if t = ''array'' then
            (case json_get ''items'' schema of None \<Rightarrow> ''unknown'' | Some i \<Rightarrow> ts_type i) @ ''[]''
          else if t = ''object'' then render_object schema
          else ''unknown'')"
| "render_object schema =
     (case json_get ''properties'' schema of
        Some (JObject props) \<Rightarrow>
          ''{ '' @ join ''; '' (map (\<lambda>(key, value).
             key @ (if key \<in> set (required schema) then [] else ''?'') @ '': '' @ ts_type value) props) @ '' }''
      | _ \<Rightarrow> ''Record<string, unknown>'')"
  by pat_completeness auto

termination
proof (relation "measure (\<lambda>x. case x of Inl j \<Rightarrow> Suc (2 * size j) | Inr j \<Rightarrow> 2 * size j)", goal_cases)
  case 1
  show ?case by simp
next
  case (2 schema t i)
  then show ?case using size_json_get [of "''items''" schema i] by simp
next
  case (3 schema t)
  then show ?case by simp
next
  case (4 schema p props x key v)
  then show ?case
    using size_json_get [of "''properties''" schema p] size_json_value [of key v props] by simp
qed

abbreviation LF :: char where "LF \<equiv> CHR 0x0A"

definition TS_PRELUDE :: string where
  "TS_PRELUDE = concat (map (\<lambda>l. l @ [LF])
    [''// AUTO-GENERATED by cherenkov-sdk-ts. Do not edit by hand.'',
     ''// Wire protocol: cherenkov.v1'',
     ''// Each declared namespace has a typed publish helper; channels in'',
     ''// undeclared namespaces accept arbitrary payloads.'',
     [],
     ''export interface CherenkovTransport {'',
     ''  send(bytes: Uint8Array): Promise<void>;'',
     ''  onMessage(handler: (bytes: Uint8Array) => void): void;'',
     ''}'',
     [],
     ''export interface PublishOptions {'',
     ''  requestId?: number;'',
     ''}'',
     [],
     ''export class CherenkovClient {'',
     ''  private nextRequestId = 1;'',
     ''  constructor(private readonly transport: CherenkovTransport) {}'',
     [],
     ''  publish(channel: string, data: Uint8Array, opts: PublishOptions = {}): Promise<void> {'',
     ''    // Encoding the v1 Publish frame is left to a wire library; this'',
     ''    // SDK passes the channel + payload through to the transport.'',
     ''    const requestId = opts.requestId ?? this.nextRequestId++;'',
     ''    return this.transport.send(encodePublishFrame(requestId, channel, data));'',
     ''  }'',
     ''}'',
     [],
     ''// Implemented in the runtime companion package.'',
     ''declare function encodePublishFrame('',
     ''  requestId: number,'',
     ''  channel: string,'',
     ''  data: Uint8Array,'',
     ''): Uint8Array;''])"

definition render_namespace :: "unicode \<Rightarrow> string \<times> json \<Rightarrow> string" where
  "render_namespace U ns =
     (case ns of (name, schema) \<Rightarrow>
        [LF] @ ''// Namespace: '' @ name @ [LF] @
        ''export type '' @ type_name U name @ '' = '' @ ts_type schema @ '';'' @ [LF] @
        ''export function publish'' @ type_name U name @
        ''(client: CherenkovClient, channel: string, value: '' @ type_name U name @
        '', encode: (v: '' @ type_name U name @ '') => Uint8Array): Promise<void> {'' @ [LF] @
        ''  return client.publish(channel, encode(value));'' @ [LF] @ ''}'' @ [LF])"

definition ts_render :: "unicode \<Rightarrow> (string \<times> json) list \<Rightarrow> string" where
  "ts_render U namespaces = TS_PRELUDE @ [LF] @ concat (map (render_namespace U) namespaces)"

section \<open>AsyncAPI\<close>

definition operation :: "string \<Rightarrow> string \<Rightarrow> string \<Rightarrow> json" where
  "operation verb name component_ref =
     json_object
       [(''operationId'', JString (verb @ ''_'' @ name)),
        (''message'', json_object
           [(''name'', JString (name @ ''Publication'')),
            (''payload'', json_object [(''$ref'', JString component_ref)])])]"

definition channel_item :: "string \<Rightarrow> json" where
  "channel_item name =
     (let component_ref = ''#/components/schemas/'' @ name @ ''Payload''
      in json_object
        [(''parameters'', json_object
            [(''channelTail'', json_object
               [(''description'', JString ''Channel suffix after the namespace separator''),
                (''schema'', json_object [(''type'', JString ''string'')])])]),
         (''publish'', operation ''publish'' name component_ref),
         (''subscribe'', operation ''subscribe'' name component_ref)])"

definition add_namespace ::
    "string \<times> json \<Rightarrow> (string \<times> json) list \<times> (string \<times> json) list \<Rightarrow>
     (string \<times> json) list \<times> (string \<times> json) list" where
  "add_namespace ns st =
     (case (ns, st) of ((name, schema), (channels, schemas)) \<Rightarrow>
        (map_insert (name @ ''.{channelTail}'') (channel_item name) channels,
         map_insert (name @ ''Payload'') schema schemas))"

definition asyncapi_doc :: "(string \<times> json) list \<Rightarrow> json" where
  "asyncapi_doc namespaces =
     (case fold add_namespace namespaces ([], []) of
        (channels, schemas) \<Rightarrow>
          json_object
            [(''asyncapi'', JString ''2.6.0''),
             (''info'', json_object
                [(''title'', JString ''Cherenkov realtime API''), (''version'', JString ''0.1.0''),
                 (''description'', JString ''Generated by cherenkov-sdk-ts from a server config file.'')]),
             (''servers'', json_object
                [(''default'', json_object
                    [(''url'', JString ''ws://localhost:7000/connect/v1''), (''protocol'', JString ''ws'')])]),
             (''channels'', JObject channels),
             (''components'', json_object [(''schemas'', JObject schemas)])])"

section \<open>The command\<close>

text \<open>A path is its components, which is what equality of paths compares.\<close>

record path =
  p_absolute :: bool
  p_components :: "string list"

definition path_parent :: "path \<Rightarrow> path option" where
  "path_parent p = (if p_components p = [] then None else Some (p\<lparr>p_components := butlast (p_components p)\<rparr>))"

definition path_join :: "path \<Rightarrow> path \<Rightarrow> path" where
  "path_join d p =
     (if p_absolute p then p
      else \<lparr>p_absolute = p_absolute d, p_components = p_components d @ p_components p\<rparr>)"

datatype target = Ts | Asyncapi

record cli =
  cli_config :: path
  cli_target :: target
  cli_output :: "path option"

record namespace_section =
  ns_kind :: "string option"
  ns_schema :: "json option"
  ns_schema_path :: "path option"

text \<open>
  What the command uses of its libraries: \<open>y_document\<close> reads the \<open>namespaces\<close> of a configuration,
  \<open>y_str\<close> a key, \<open>y_section\<close> a value, \<open>y_print\<close> prints a document; \<open>j_parse\<close> parses
  JSON; \<open>f_read\<close> and \<open>f_write\<close> are the file system, \<open>f_debug\<close> shows a path.
\<close>

record ('y, 'f) sdk_libs =
  y_document :: "string \<Rightarrow> (string, ('y \<times> 'y) list) result"
  y_str :: "'y \<Rightarrow> string option"
  y_section :: "'y \<Rightarrow> (string, namespace_section) result"
  y_print :: "json \<Rightarrow> (string, string) result"
  j_parse :: "string \<Rightarrow> (string, json) result"
  f_read :: "path \<Rightarrow> 'f \<Rightarrow> (string, string) result"
  f_write :: "path \<Rightarrow> string \<Rightarrow> 'f \<Rightarrow> (string, unit) result \<times> 'f"
  f_debug :: "path \<Rightarrow> string"

text \<open>An error is the chain of its messages, the outermost context first.\<close>

type_synonym chain = "string list"

definition context_msg :: "string \<Rightarrow> (string, 'a) result \<Rightarrow> (chain, 'a) result" where
  "context_msg msg r = map_sum (\<lambda>e. [msg, e]) id r"

definition resolve_path :: "path \<Rightarrow> path \<Rightarrow> path" where
  "resolve_path config_dir path = (if p_absolute path then path else path_join config_dir path)"

definition section_schema ::
    "('y, 'f) sdk_libs \<Rightarrow> 'f \<Rightarrow> path \<Rightarrow> string \<Rightarrow> namespace_section \<Rightarrow> (chain, json option) result" where
  "section_schema L fs config_dir name s =
     (case (ns_schema s, ns_schema_path s) of
        (Some inline, None) \<Rightarrow> Inr (Some inline)
      | (None, Some path) \<Rightarrow>
          (let resolved = resolve_path config_dir path
           in (case context_msg (''read '' @ f_debug L resolved) (f_read L resolved fs) of
                 Inl e \<Rightarrow> Inl e
               | Inr text \<Rightarrow>
                   map_sum id Some (context_msg (''parse '' @ f_debug L resolved) (j_parse L text))))
      | (Some _, Some _) \<Rightarrow>
          Inl [''namespace `'' @ name @ ''`: schema and schema_path are mutually exclusive'']
      | (None, None) \<Rightarrow> Inr None)"

fun collect ::
    "('y, 'f) sdk_libs \<Rightarrow> 'f \<Rightarrow> path \<Rightarrow> ('y \<times> 'y) list \<Rightarrow> (chain, (string \<times> json) list) result" where
  "collect L fs config_dir [] = Inr []"
| "collect L fs config_dir ((key, v) # rest) =
     (case y_str L key of
        None \<Rightarrow> Inl [''namespace key must be a string'']
      | Some name \<Rightarrow>
          (case context_msg ''parse namespace section'' (y_section L v) of
             Inl e \<Rightarrow> Inl e
           | Inr s \<Rightarrow>
               (case section_schema L fs config_dir name s of
                  Inl e \<Rightarrow> Inl e
                | Inr None \<Rightarrow> collect L fs config_dir rest
                | Inr (Some schema) \<Rightarrow> map_sum id ((#) (name, schema)) (collect L fs config_dir rest))))"

text \<open>The state is the file system and what was printed.\<close>

definition generate ::
    "unicode \<Rightarrow> ('y, 'f) sdk_libs \<Rightarrow> cli \<Rightarrow> 'f \<Rightarrow> (chain, string) result" where
  "generate U L c fs =
     (case context_msg (''read '' @ f_debug L (cli_config c)) (f_read L (cli_config c) fs) of
        Inl e \<Rightarrow> Inl e
      | Inr config_text \<Rightarrow>
          (case context_msg ''parse config yaml'' (y_document L config_text) of
             Inl e \<Rightarrow> Inl e
           | Inr doc \<Rightarrow>
               (let config_dir = unwrap_or (path_parent (cli_config c)) \<lparr>p_absolute = False, p_components = []\<rparr>
                in (case collect L fs config_dir doc of
                      Inl e \<Rightarrow> Inl e
                    | Inr namespaces \<Rightarrow>
                        (case cli_target c of
                           Ts \<Rightarrow> Inr (ts_render U namespaces)
                         | Asyncapi \<Rightarrow> map_sum (\<lambda>e. [e]) id (y_print L (asyncapi_doc namespaces)))))))"

definition sdk_main ::
    "unicode \<Rightarrow> ('y, 'f) sdk_libs \<Rightarrow> cli \<Rightarrow> ('f \<times> string, chain, unit) comp" where
  "sdk_main U L c st =
     (case st of (fs, stdout) \<Rightarrow>
        (case generate U L c fs of
           Inl e \<Rightarrow> (Inl e, st)
         | Inr rendered \<Rightarrow>
             (case cli_output c of
                Some path \<Rightarrow>
                  (case f_write L path rendered fs of
                     (r, fs') \<Rightarrow> (context_msg (''write '' @ f_debug L path) r, (fs', stdout)))
              | None \<Rightarrow> (Inr (), (fs, stdout @ rendered @ [LF])))))"

section \<open>References in the document\<close>

text \<open>A reference without escapes names the way from the root of the document; escapes are not followed.\<close>

fun walk :: "string list \<Rightarrow> json \<Rightarrow> json option" where
  "walk [] j = Some j"
| "walk (k # ks) j = Option.bind (json_get k j) (walk ks)"

definition resolve_ref :: "json \<Rightarrow> string \<Rightarrow> json option" where
  "resolve_ref doc r =
     (if CHR ''~'' \<in> set r \<or> CHR ''%'' \<in> set r then None
      else Option.bind (strip_prefix ''#/'' r) (\<lambda>p. walk (split_on (CHR ''/'') p) doc))"

definition plain :: "string \<Rightarrow> bool" where
  "plain name \<longleftrightarrow> list_all (\<lambda>c. c \<noteq> CHR ''/'' \<and> c \<noteq> CHR ''~'' \<and> c \<noteq> CHR ''%'') name"

definition payload_of :: "json \<Rightarrow> string \<Rightarrow> string \<Rightarrow> json option" where
  "payload_of doc channel verb =
     Option.bind (Option.bind (walk [''channels'', channel, verb, ''message'', ''payload'', ''$ref''] doc) as_str)
       (resolve_ref doc)"

lemma add_namespaces:
  "map_of (fst (fold add_namespace nss st)) (name @ ''.{channelTail}'') =
     (if name \<in> fst ` set nss then Some (channel_item name) else map_of (fst st) (name @ ''.{channelTail}''))"
  "map_of (snd (fold add_namespace nss st)) (name @ ''Payload'') =
     (case map_of (rev nss) name of Some s \<Rightarrow> Some s | None \<Rightarrow> map_of (snd st) (name @ ''Payload''))"
  by (induction nss arbitrary: st)
    (auto simp: add_namespace_def map_add_def image_iff split: prod.splits option.splits)

lemma channel_ref:
  "verb = ''publish'' \<or> verb = ''subscribe'' \<Longrightarrow>
     walk [verb, ''message'', ''payload'', ''$ref''] (channel_item name) =
       Some (JString (''#/components/schemas/'' @ name @ ''Payload''))"
  by (auto simp: channel_item_def operation_def Let_def)

lemma doc_parts:
  "json_get ''channels'' (asyncapi_doc nss) = Some (JObject (fst (fold add_namespace nss ([], []))))"
  "Option.bind (json_get ''components'' (asyncapi_doc nss)) (json_get ''schemas'') =
     Some (JObject (snd (fold add_namespace nss ([], []))))"
  by (simp_all add: asyncapi_doc_def split: prod.splits)

lemma asyncapi_payload:
  assumes "(name, schema) \<in> set nss" and "distinct (map fst nss)" and "plain name"
    and "verb = ''publish'' \<or> verb = ''subscribe''"
  shows "payload_of (asyncapi_doc nss) (name @ ''.{channelTail}'') verb = Some schema"
proof -
  let ?doc = "asyncapi_doc nss" and ?ref = "''#/components/schemas/'' @ name @ ''Payload''"
  have "name \<in> fst ` set nss" using assms(1) by force
  then have w: "walk [''channels'', name @ ''.{channelTail}'', verb, ''message'', ''payload'', ''$ref''] ?doc =
      Some (JString ?ref)"
    using channel_ref [OF assms(4), of name] by (simp add: doc_parts add_namespaces(1))
  have "CHR ''/'' \<notin> set (name @ ''Payload'')" using assms(3) by (auto simp: plain_def list_all_iff)
  then have "split_on (CHR ''/'') (''components/schemas/'' @ name @ ''Payload'') =
      [''components'', ''schemas'', name @ ''Payload'']"
    using split_on_whole [of "CHR ''/''" "name @ ''Payload''"] by simp
  moreover have "CHR ''~'' \<notin> set ?ref" "CHR ''%'' \<notin> set ?ref"
    using assms(3) by (auto simp: plain_def list_all_iff)
  moreover have "map_of (rev nss) name = Some schema"
    using assms(1,2) by (simp add: rev_map [symmetric])
  ultimately have "resolve_ref ?doc ?ref = Some schema"
    using doc_parts(2) [of nss] add_namespaces(2) [of nss "([], [])" name]
    by (cases "json_get ''components'' ?doc") (simp_all add: resolve_ref_def)
  with w show ?thesis by (simp only: payload_of_def bind.bind_lunit as_str.simps)
qed

section \<open>The generator and the server\<close>

lemma with_namespaces_compiled:
  "with_namespaces J nss b = Inr b' \<Longrightarrow> (name, schema) \<in> set nss \<Longrightarrow> validator_for J schema \<noteq> Inl e"
  by (induction J nss b rule: with_namespaces.induct) (auto simp: with_namespace_def split: sum.splits)

lemma compiled_of_decl:
  assumes "with_namespaces J nss schema_builder_new = Inr b" and "(name, schema) \<in> set nss"
    and "distinct (map fst nss)"
  shows "\<exists>v. validator_for J schema = Inr v \<and> map_of (sb_schemas b) name = Some v"
proof -
  have "map_of (rev nss) name = Some schema" using assms(2,3) by (simp add: rev_map [symmetric])
  moreover have "\<nexists>e. validator_for J schema = Inl e"
    using with_namespaces_compiled [OF assms(1,2)] by blast
  ultimately show ?thesis
    using with_namespaces_lookup [OF assms(1), of name] by (cases "validator_for J schema") auto
qed

lemma build_schema_loop_decls:
  assumes "build_schema_loop J read cs b = Some (Inr reg)"
  shows "\<exists>nss b'. list_all2 (\<lambda>(n, c) (n', j). n' = n \<and> schema_value J read n c = Some (Inr j)) cs nss \<and>
    with_namespaces J nss b = Inr b' \<and> reg = schema_build b'"
  using assms
proof (induction J read cs b rule: build_schema_loop.induct)
  case (2 J read ns c rest b)
  from "2.prems" obtain u j b1 where v: "validate_schema_source c = Inr u"
    and j: "schema_value J read ns c = Some (Inr j)" and b1: "with_namespace J ns j b = Inr b1"
    and loop: "build_schema_loop J read rest b1 = Some (Inr reg)"
    by (auto split: sum.splits option.splits)
  from "2.IH" [OF v j _ b1 loop] obtain nss b' where
    nss: "list_all2 (\<lambda>(n, c) (n', j). n' = n \<and> schema_value J read n c = Some (Inr j)) rest nss"
    "with_namespaces J nss b1 = Inr b'" "reg = schema_build b'" by blast
  with j b1 show ?case by (intro exI [of _ "(ns, j) # nss"] exI [of _ b']) simp
qed auto

text \<open>What a server that has started holds for each declared namespace.\<close>

lemma registry_of_decl:
  assumes "build_schema_registry J read cs = Some (Inr reg)" and "distinct (map fst cs)"
    and "(name, c) \<in> set cs"
  shows "\<exists>j v. schema_value J read name c = Some (Inr j) \<and> validator_for J j = Inr v \<and>
    map_of (sr_schemas reg) name = Some v"
proof -
  from build_schema_loop_decls [OF assms(1) [unfolded build_schema_registry_def]] obtain nss b' where
    nss: "list_all2 (\<lambda>(n, c) (n', j). n' = n \<and> schema_value J read n c = Some (Inr j)) cs nss"
    and b': "with_namespaces J nss schema_builder_new = Inr b'" "reg = schema_build b'" by blast
  from nss have "map fst nss = map fst cs" by (induction rule: list_all2_induct) auto
  with assms(2) have d: "distinct (map fst nss)" by simp
  from nss assms(3) obtain j where j: "(name, j) \<in> set nss" "schema_value J read name c = Some (Inr j)"
    by (induction rule: list_all2_induct) auto
  from compiled_of_decl [OF b'(1) j(1) d] j(2) b'(2) show ?thesis by (auto simp: schema_build_def)
qed

text \<open>
  What is assumed of the parsers: the server's and the generator's reader find the same declaration in
  an entry of the document, \<open>path_new\<close> being \<open>PathBuf::from\<close>; and \<open>from_slice\<close> accepts the JSON
  texts in UTF-8 with the value \<open>from_str\<close> gives them.
\<close>

definition read_alike ::
    "('y, 'f) sdk_libs \<Rightarrow> (string \<Rightarrow> path) \<Rightarrow> string \<times> json namespace_config \<Rightarrow> 'y \<times> 'y \<Rightarrow> bool" where
  "read_alike L path_new ns entry \<longleftrightarrow>
     (case (ns, entry) of ((name, c), (key, v)) \<Rightarrow>
        y_str L key = Some name \<and>
        (\<exists>s. y_section L v = Inr s \<and> ns_schema s = nc_schema c \<and>
           ns_schema_path s = map_option path_new (nc_schema_path c)))"

definition parsers_agree :: "(json, 'v) json_lib \<Rightarrow> ('y, 'f) sdk_libs \<Rightarrow> bool" where
  "parsers_agree J L \<longleftrightarrow>
     (\<forall>bs j. from_slice J bs = Inr j \<longleftrightarrow> utf8 (of_bytes bs) \<and> j_parse L (of_bytes bs) = Inr j)"

text \<open>
  What is assumed of the file system: both processes see the same files, each resolving a relative path
  in its own working directory (\<open>cwd\<close> the server's, \<open>gcwd\<close> the generator's); \<open>read_to_string\<close>
  wants UTF-8.
\<close>

definition locate :: "string list \<Rightarrow> path \<Rightarrow> string list" where
  "locate cwd p = (if p_absolute p then p_components p else cwd @ p_components p)"

definition same_files ::
    "(string list \<rightharpoonup> bytes) \<Rightarrow> (string \<Rightarrow> path) \<Rightarrow> string list \<Rightarrow>
     (string \<Rightarrow> (string, bytes) result) \<Rightarrow> string list \<Rightarrow> ('y, 'f) sdk_libs \<Rightarrow> 'f \<Rightarrow> bool" where
  "same_files files path_new cwd read gcwd L fs \<longleftrightarrow>
     (\<forall>p bs. read p = Inr bs \<longleftrightarrow> files (locate cwd (path_new p)) = Some bs) \<and>
     (\<forall>p text. f_read L p fs = Inr text \<longleftrightarrow>
        (\<exists>bs. files (locate gcwd p) = Some bs \<and> utf8 (of_bytes bs) \<and> text = of_bytes bs))"

text \<open>
  A path names one file for both: it is absolute, or the server runs in the directory of the
  configuration file.
\<close>

definition same_place ::
    "(string \<Rightarrow> path) \<Rightarrow> string list \<Rightarrow> string list \<Rightarrow> path \<Rightarrow> string \<times> json namespace_config \<Rightarrow> bool" where
  "same_place path_new cwd gcwd config_dir ns \<longleftrightarrow>
     (case nc_schema_path (snd ns) of
        None \<Rightarrow> True
      | Some p \<Rightarrow> p_absolute (path_new p) \<or> cwd = locate gcwd config_dir)"

lemma locate_resolved:
  "p_absolute p \<or> cwd = locate gcwd dir \<Longrightarrow> locate gcwd (resolve_path dir p) = locate cwd p"
  by (auto simp: locate_def resolve_path_def path_join_def)

lemma section_of_server:
  assumes "same_files files path_new cwd read gcwd L fs" and "parsers_agree J L"
    and "same_place path_new cwd gcwd dir (name, c)" and "schema_value J read name c = Some (Inr j)"
    and "ns_schema s = nc_schema c" and "ns_schema_path s = map_option path_new (nc_schema_path c)"
  shows "section_schema L fs dir name s = Inr (Some j)"
proof (cases "nc_schema_path c")
  case None
  with assms(4-6) show ?thesis by (auto simp: schema_value_def section_schema_def split: option.splits)
next
  case (Some p)
  with assms(4) obtain bs where c: "nc_schema c = None" and bs: "read p = Inr bs" "from_slice J bs = Inr j"
    by (auto simp: schema_value_def split: option.splits sum.splits)
  have "files (locate gcwd (resolve_path dir (path_new p))) = Some bs"
    using assms(1,3) bs(1) Some locate_resolved [of "path_new p" cwd gcwd dir]
    by (auto simp: same_files_def same_place_def)
  moreover have "utf8 (of_bytes bs)" and parse: "j_parse L (of_bytes bs) = Inr j"
    using assms(2) bs(2) by (auto simp: parsers_agree_def)
  ultimately have "f_read L (resolve_path dir (path_new p)) fs = Inr (of_bytes bs)"
    using assms(1) by (auto simp: same_files_def)
  with parse c Some assms(5,6) show ?thesis by (simp add: section_schema_def context_msg_def)
qed

lemma collect_decls:
  assumes "list_all2 (read_alike L path_new) decls doc"
    and "\<And>n c s. (n, c) \<in> set decls \<Longrightarrow> ns_schema s = nc_schema c \<Longrightarrow>
      ns_schema_path s = map_option path_new (nc_schema_path c) \<Longrightarrow>
      section_schema L fs dir n s = Inr (Some (schema n c))"
  shows "collect L fs dir doc = Inr (map (\<lambda>(n, c). (n, schema n c)) decls)"
  using assms
proof (induction rule: list_all2_induct)
  case (Cons ns decls entry doc)
  obtain n c key v where e: "ns = (n, c)" "entry = (key, v)" by (cases ns; cases entry)
  from Cons.hyps(1) obtain s where s: "y_str L key = Some n" "y_section L v = Inr s"
    "ns_schema s = nc_schema c" "ns_schema_path s = map_option path_new (nc_schema_path c)"
    by (auto simp: e read_alike_def)
  have "section_schema L fs dir n s = Inr (Some (schema n c))"
    using Cons.prems s(3,4) by (simp add: e)
  moreover have "collect L fs dir doc = Inr (map (\<lambda>(n, c). (n, schema n c)) decls)"
    using Cons.IH Cons.prems by simp
  ultimately show ?case using s(1,2) by (simp add: e context_msg_def)
qed simp


text \<open>
  A document with a namespace whose schema is in a file next to it and one with an inline schema.
\<close>

definition demo_sdk :: "(json, unit) sdk_libs" where
  "demo_sdk = \<lparr>y_document = (\<lambda>_. Inr []), y_str = as_str,
     y_section = (\<lambda>v. Inr (case v of
        JString p \<Rightarrow> \<lparr>ns_kind = None, ns_schema = None,
          ns_schema_path = Some \<lparr>p_absolute = False, p_components = [p]\<rparr>\<rparr>
      | _ \<Rightarrow> \<lparr>ns_kind = None, ns_schema = Some v, ns_schema_path = None\<rparr>)),
     y_print = (\<lambda>_. Inr []), j_parse = (\<lambda>t. Inr (JString t)),
     f_read = (\<lambda>p _. if p_components p = [''etc'', ''docs.json''] then Inr ''docs'' else Inl ''not found''),
     f_write = (\<lambda>_ _ fs. (Inr (), fs)), f_debug = (\<lambda>p. concat (p_components p))\<rparr>"

definition demo_json :: "(json, json) json_lib" where
  "demo_json = \<lparr>from_slice = (\<lambda>bs. if utf8 (of_bytes bs) then Inr (JString (of_bytes bs)) else Inl ''not UTF-8''), validator_for = Inr,
     check_value = (\<lambda>_ _. Inr ())\<rparr>"


section \<open>Names of types\<close>

definition alnum :: "char \<Rightarrow> bool" where
  "alnum c = (let n = of_char c :: nat in 48 \<le> n \<and> n \<le> 57 \<or> 65 \<le> n \<and> n \<le> 90 \<or> 97 \<le> n \<and> n \<le> 122)"

definition upper :: "char \<Rightarrow> char" where
  "upper c = (let n = of_char c :: nat in if 97 \<le> n \<and> n \<le> 122 then char_of (n - 32) else c)"

text \<open>On ASCII the tables of Unicode are these.\<close>

definition ascii_tables :: "unicode \<Rightarrow> bool" where
  "ascii_tables U \<longleftrightarrow> (\<forall>c. (of_char c :: nat) < 128 \<longrightarrow>
     is_alphanumeric U [c] = alnum c \<and> to_uppercase U [c] = [upper c])"

lemma alnum_upper: "alnum c \<Longrightarrow> alnum (upper c)"
  by (auto simp: alnum_def upper_def Let_def)

lemma chars_ascii: "list_all (\<lambda>c. (of_char c :: nat) < 128) s \<Longrightarrow> chars s = map (\<lambda>c. [c]) s"
  by (induction s) (simp_all add: utf8_rest_def)

lemma type_name_loop_step:
  assumes "ascii_tables U" and "(of_char c :: nat) < 128"
  shows "type_name_loop U up ([c] # cs) =
    (if alnum c then (if up then upper c else c) # type_name_loop U False cs else type_name_loop U True cs)"
  using assms by (simp add: ascii_tables_def)

lemma type_name_loop_alnum:
  assumes "ascii_tables U"
  shows "list_all (\<lambda>c. (of_char c :: nat) < 128) s \<Longrightarrow> list_all alnum (type_name_loop U up (map (\<lambda>c. [c]) s))"
  by (induction s arbitrary: up) (simp_all add: type_name_loop_step [OF assms] alnum_upper del: type_name_loop.simps(2))

lemma type_name_loop_hd:
  assumes "ascii_tables U" and "list_all (\<lambda>c. (of_char c :: nat) < 128) s"
  shows "filter alnum s = [] \<Longrightarrow> type_name_loop U True (map (\<lambda>c. [c]) s) = []"
    and "filter alnum s = c # cs \<Longrightarrow> \<exists>t. type_name_loop U True (map (\<lambda>c. [c]) s) = upper c # t"
  using assms(2)
  by (induction s) (auto simp: type_name_loop_step [OF assms(1)] simp del: type_name_loop.simps(2) split: if_splits)

text \<open>
  An identifier of TypeScript, among the strings of letters and digits.
\<close>

definition digit :: "char \<Rightarrow> bool" where
  "digit c = (let n = of_char c :: nat in 48 \<le> n \<and> n \<le> 57)"

definition ts_identifier :: "string \<Rightarrow> bool" where
  "ts_identifier s \<longleftrightarrow> s \<noteq> [] \<and> list_all alnum s \<and> \<not> digit (hd s)"

lemma digit_upper [simp]: "digit (upper c) = digit c"
  by (auto simp: digit_def upper_def Let_def)

lemma type_name_alnum:
  assumes "ascii_tables U" and "list_all (\<lambda>c. (of_char c :: nat) < 128) ns"
  shows "list_all alnum (type_name U ns)" and "type_name U ns \<noteq> []"
    and "hd (type_name U ns) = (case filter alnum ns of [] \<Rightarrow> CHR ''P'' | c # _ \<Rightarrow> upper c)"
proof -
  have "list_all alnum ''Payload''" by (simp add: alnum_def)
  with type_name_loop_alnum [OF assms] show "list_all alnum (type_name U ns)"
    unfolding type_name_def Let_def chars_ascii [OF assms(2)] by (simp only: list_all_append if_split) blast
  show "hd (type_name U ns) = (case filter alnum ns of [] \<Rightarrow> CHR ''P'' | c # _ \<Rightarrow> upper c)"
    using type_name_loop_hd [OF assms] unfolding type_name_def Let_def chars_ascii [OF assms(2)]
    by (cases "filter alnum ns") force+
  show "type_name U ns \<noteq> []" by (simp add: type_name_def Let_def)
qed

text \<open>
  C36. The type that is generated for an ASCII namespace has a name of letters and digits, and the name
  is an identifier of TypeScript exactly when the first letter or digit of the namespace is no digit.
\<close>

theorem generated_names_are_identifiers:
  assumes "ascii_tables U" and "list_all (\<lambda>c. (of_char c :: nat) < 128) ns"
  shows "list_all alnum (type_name U ns) \<and>
    (ts_identifier (type_name U ns) \<longleftrightarrow> \<not> (\<exists>c cs. filter alnum ns = c # cs \<and> digit c))"
proof (cases "filter alnum ns")
  case Nil
  then have "hd (type_name U ns) = CHR ''P''" by (simp add: type_name_alnum(3) [OF assms])
  with Nil type_name_alnum(1,2) [OF assms] show ?thesis by (simp add: ts_identifier_def digit_def)
next
  case (Cons c cs)
  then have "hd (type_name U ns) = upper c" by (simp add: type_name_alnum(3) [OF assms])
  with Cons type_name_alnum(1,2) [OF assms] show ?thesis by (simp add: ts_identifier_def)
qed

definition ascii :: unicode where
  "ascii = \<lparr>is_alphanumeric = list_all alnum, to_uppercase = map upper\<rparr>"

theorem generated_names_are_identifiers_witness:
  "ts_identifier (type_name ascii ''rooms.lobby'') \<and> \<not> ts_identifier (type_name ascii ''2fa'')"
proof -
  have U: "ascii_tables ascii" by (simp add: ascii_tables_def ascii_def)
  show ?thesis
    using generated_names_are_identifiers [OF U, of "''rooms.lobby''"]
      generated_names_are_identifiers [OF U, of "''2fa''"]
    by (simp add: alnum_def digit_def)
qed

end
