(* ===== verification/Cli.thy ===== *)
theory Cli
  imports Serve Service Sdk
begin

text \<open>
  \<open>cherenkov-server/src/main.rs\<close>: the server's binary, from the path of its configuration to the exit
  code. Loading (\<open>figment\<close>) and building the runtime are parameters; so is what ends the process,
  a signal or the first task to stop. Logging is not modelled.
\<close>

section \<open>Errors and exit codes\<close>

text \<open>An \<open>anyhow\<close> error is the chain of its causes, the outermost first.\<close>

datatype cause = Context string | FigmentError string | IoError string | Message string

fun cause_msg :: "cause \<Rightarrow> string" where
  "cause_msg (Context m) = m"
| "cause_msg (FigmentError m) = m"
| "cause_msg (IoError m) = m"
| "cause_msg (Message m) = m"

fun is_figment :: "cause \<Rightarrow> bool" where
  "is_figment (FigmentError _) = True"
| "is_figment _ = False"

definition RUNTIME_ERROR :: nat where "RUNTIME_ERROR = 1"

definition CONFIG_ERROR :: nat where "CONFIG_ERROR = 3"

definition exit_code_for_error :: "cause list \<Rightarrow> nat" where
  "exit_code_for_error chain = (if list_ex is_figment chain then CONFIG_ERROR else RUNTIME_ERROR)"

section \<open>The command\<close>

record ('f, 'p, 'j) boot =
  boot_figment :: "('f, 'p, 'j) figment"
  build_runtime :: "(string, unit) result"

text \<open>\<open>Stopped i r\<close>: the \<open>i\<close>-th task is the first to stop, and its join handle gives \<open>r\<close>.\<close>

datatype stop = Signalled | Stopped nat "(string, (server_error, unit) result) result"

text \<open>The outer None is a panic, as in \<open>build_hub\<close>.\<close>

definition serve ::
    "('y, 'u, 'm, 'g, 'j, 'v, 'jv, 'jk, 'c, 'pe, 'fg, 'r, 'nt, 't) env \<Rightarrow> ('l, 'n, 'p) os \<Rightarrow>
     'j server_config \<Rightarrow> stop \<Rightarrow> (('y, 'm) node_kind, ('c, 'r, 'nt) node_broker, 't, 'l, 'n, 'p) process \<Rightarrow>
     (cause list, unit) result option \<times> (('y, 'm) node_kind, ('c, 'r, 'nt) node_broker, 't, 'l, 'n, 'p) process" where
  "serve E OS config stop pr =
     (case run E OS config pr of
        (None, pr) \<Rightarrow> (None, pr)
      | (Some (Inl e), pr) \<Rightarrow> (Some (Inl [Message (server_error_msg e)]), pr)
      | (Some (Inr handle), pr) \<Rightarrow>
          (case stop of
             Signalled \<Rightarrow> (Some (Inr ()), pr)
           | Stopped i r \<Rightarrow>
               (case wait_all handle (i, r) pr of
                  (Inl e, pr) \<Rightarrow> (Some (Inl [Message (server_error_msg e)]), pr)
                | (Inr _, pr) \<Rightarrow> (Some (Inr ()), pr))))"

definition run_cli ::
    "('y, 'u, 'm, 'g, 'j, 'v, 'jv, 'jk, 'c, 'pe, 'fg, 'r, 'nt, 't) env \<Rightarrow> ('l, 'n, 'p) os \<Rightarrow>
     ('ff, 'fp, 'j) boot \<Rightarrow> string \<Rightarrow> stop \<Rightarrow> (('y, 'm) node_kind, ('c, 'r, 'nt) node_broker, 't, 'l, 'n, 'p) process \<Rightarrow>
     (cause list, unit) result option \<times> (('y, 'm) node_kind, ('c, 'r, 'nt) node_broker, 't, 'l, 'n, 'p) process" where
  "run_cli E OS B path stop pr =
     (case load (boot_figment B) path of
        Inl e \<Rightarrow> (Some (Inl [Context (''loading config from '' @ path), FigmentError e]), pr)
      | Inr config \<Rightarrow>
          (case build_runtime B of
             Inl e \<Rightarrow> (Some (Inl [Context ''building tokio runtime'', IoError e]), pr)
           | Inr _ \<Rightarrow> serve E OS config stop pr))"

text \<open>The exit code, what is printed to the error stream, and the process.\<close>

definition cli_main ::
    "('y, 'u, 'm, 'g, 'j, 'v, 'jv, 'jk, 'c, 'pe, 'fg, 'r, 'nt, 't) env \<Rightarrow> ('l, 'n, 'p) os \<Rightarrow>
     ('ff, 'fp, 'j) boot \<Rightarrow> string \<Rightarrow> stop \<Rightarrow> (('y, 'm) node_kind, ('c, 'r, 'nt) node_broker, 't, 'l, 'n, 'p) process \<Rightarrow>
     (nat \<times> string) option \<times> (('y, 'm) node_kind, ('c, 'r, 'nt) node_broker, 't, 'l, 'n, 'p) process" where
  "cli_main E OS B path stop pr =
     (case run_cli E OS B path stop pr of
        (None, pr) \<Rightarrow> (None, pr)
      | (Some (Inr _), pr) \<Rightarrow> (Some (0, []), pr)
      | (Some (Inl chain), pr) \<Rightarrow>
          (Some (exit_code_for_error chain, ''cherenkov-server: '' @ join '': '' (map cause_msg chain)), pr))"

section \<open>How the binary ends\<close>

lemma run_not_panics: "fst (run E OS cfg pr) \<noteq> None"
proof -
  obtain b where "build_hub E cfg = Some b" using build_hub_total by blast
  then show ?thesis by (auto simp: run_def split: sum.splits prod.splits)
qed

lemma serve_outcome:
  obtains (failed) e pr' where "serve E OS cfg stop pr = (Some (Inl [Message (server_error_msg e)]), pr')"
  | (served) h p1 pr' where "serve E OS cfg stop pr = (Some (Inr ()), pr')"
      and "run E OS cfg pr = (Some (Inr h), p1)"
proof -
  obtain x p1 where x: "run E OS cfg pr = (Some x, p1)"
    using run_not_panics [of E OS cfg pr] by (cases "run E OS cfg pr") auto
  show thesis
  proof (cases x)
    case (Inl e)
    with x failed show thesis by (simp add: serve_def)
  next
    case (Inr h)
    show thesis
    proof (cases stop)
      case Signalled
      with x Inr served show thesis by (simp add: serve_def)
    next
      case (Stopped i r)
      obtain y p2 where "wait_all h (i, r) p1 = (y, p2)" by (cases "wait_all h (i, r) p1")
      with x Inr Stopped served failed show thesis by (cases y) (simp_all add: serve_def)
    qed
  qed
qed


text \<open>A Redis backend without its URL.\<close>

definition redis_cfg :: "bytes server_config" where
  "redis_cfg = demo_cfg\<lparr>sc_broker := broker_config_default\<lparr>bc_backend := Redis\<rparr>\<rparr>"

definition redis_boot :: "(bytes server_config list, bytes server_config list, bytes) boot" where
  "redis_boot = \<lparr>boot_figment = \<lparr>fig_new = [], fig_yaml = (\<lambda>_. [redis_cfg]), fig_env = (\<lambda>_ _. []),
     fig_merge = (\<lambda>p f. p @ f), fig_extract = (\<lambda>f. case f of [] \<Rightarrow> Inl ''missing'' | c # _ \<Rightarrow> Inr c)\<rparr>,
     build_runtime = Inr ()\<rparr>"


text \<open>
  A path of the WebSocket section that is no route stops the server only after the start: the accept
  loop's task panics, and the process ends with the runtime's code.
\<close>

lemma bad_path_ends_the_server:
  assumes "run E OS cfg pr = (Some (Inr h), p1)" and "\<forall>j. pr_next pr \<le> j \<longrightarrow> pr_tasks pr j = None"
    and "\<And>p. ax_route AX p \<Longrightarrow> \<exists>q. p = CHR ''/'' # q"
    and "\<nexists>q. ws_path (tc_ws (sc_transport cfg)) = CHR ''/'' # q"
    and "pr_tasks p1 (hd (rh_joins h)) = Some s"
  shows "fst (serve E OS cfg (Stopped 0 (service_outcome AX s)) pr) =
    Some (Inl [Message (''transport task panicked: '' @ ax_panic AX)])"
proof -
  from assms(1) obtain hub ks b where "build_hub E cfg = Some (Inr (hub, ks, b))"
    and st: "start_all OS hub cfg pr = (Inr h, p1)"
    by (auto simp: run_def split: option.splits sum.splits prod.splits)
  from start_all_Inr(1) [OF st] assms(2) obtain lw ls la m where
    "map (pr_tasks p1) (rh_joins h) = map Some (services hub cfg lw ls la m)" by blast
  then have j: "rh_joins h \<noteq> []" and "pr_tasks p1 (hd (rh_joins h)) = Some (hd (services hub cfg lw ls la m))"
    by (auto simp: services_def Let_def)
  with assms(5) have "s = ServeWs lw (ws_path (tc_ws (sc_transport cfg))) hub (ws_outbox_capacity (tc_ws (sc_transport cfg)))"
    by (simp add: services_def Let_def)
  then have "service_outcome AX s = Inl (ax_panic AX)"
    using ws_bad_path_panics [OF assms(3,4)] by simp
  with assms(1) j show ?thesis by (simp add: serve_def wait_all_def)
qed

end
