(* ===== verification/Interleave.thy ===== *)
theory Interleave
  imports Server Connection
begin

text \<open>
  Subscribing, taken apart. \<open>Hub.handle_subscribe\<close> awaits between its parts, so other requests may
  run in between. \<open>subscribe_open\<close> ends with the broker's stream, \<open>replay\<close> sends the history and
  \<open>subscribe_finish\<close> starts the forwarder and registers the subscription. The request keeps a handle
  on its session all along. Run without interruption the parts are \<open>handle_subscribe\<close>; two
  interleavings show what the other theorems' atomic view leaves out.
\<close>

section \<open>The parts of a subscribe\<close>

definition subscribe_open ::
    "('k, 'b, 't) hub \<Rightarrow> u64 \<Rightarrow> string \<Rightarrow>
     (('k, 'b, 't) world, hub_error, nat \<times> channel_cursor \<times> nat) comp" where
  "subscribe_open H sid channel =
     try_bind (get_session sid) (\<lambda>ref.
     try_bind (require_claims H ref) (\<lambda>claims.
     try_bind (enforce_acl H claims ActSubscribe channel) (\<lambda>_.
     try_bind (check_not_subscribed sid ref channel) (\<lambda>_.
     let k = kind_for H channel in
     try_bind (on_kind k (k_on_subscribe (hub_kops H) channel)) (\<lambda>cursor.
     try_bind (or_cleanup (unwind H k channel) (on_broker (br_subscribe (hub_broker H) channel)))
       (\<lambda>stream w. (Inr (ref, cursor, stream), arc_clone ref w)))))))"

definition subscribe_replay ::
    "('k, 'b, 't) hub \<Rightarrow> instant \<Rightarrow> u64 \<Rightarrow> string \<Rightarrow> u64 \<Rightarrow> nat \<Rightarrow> nat \<Rightarrow>
     (('k, 'b, 't) world, hub_error, unit) comp" where
  "subscribe_replay H now sid channel since_offset ref stream w =
     or_cleanup (arc_drop H ref)
       (replay H now sid (s_outbox (w_store w ref)) channel since_offset (kind_for H channel) stream) w"

definition subscribe_finish ::
    "('k, 'b, 't) hub \<Rightarrow> u64 \<Rightarrow> u64 \<Rightarrow> string \<Rightarrow> nat \<Rightarrow> channel_cursor \<Rightarrow> nat \<Rightarrow>
     (('k, 'b, 't) world, hub_error, subscribe_ok) comp" where
  "subscribe_finish H sid rid channel ref cursor stream w =
     (case attach H sid ref channel (kind_for H channel) stream w of
        (Inl e, w') \<Rightarrow> (Inl e, arc_drop H ref w')
      | (Inr _, w') \<Rightarrow>
          (Inr \<lparr>subok_request_id = rid, subok_channel = channel, subok_epoch = cur_epoch cursor,
               subok_offset = cur_offset cursor\<rparr>, arc_drop H ref w'))"

definition subscribe_phases ::
    "('k, 'b, 't) hub \<Rightarrow> instant \<Rightarrow> u64 \<Rightarrow> u64 \<Rightarrow> string \<Rightarrow> u64 \<Rightarrow>
     (('k, 'b, 't) world, hub_error, subscribe_ok) comp" where
  "subscribe_phases H now sid rid channel since_offset =
     try_bind (subscribe_open H sid channel) (\<lambda>(ref, cursor, stream).
     try_bind (subscribe_replay H now sid channel since_offset ref stream) (\<lambda>_.
     subscribe_finish H sid rid channel ref cursor stream))"

section \<open>Without interruption\<close>

text \<open>A computation that neither reads nor writes the counts of the handles.\<close>

definition countless :: "(('k, 'b, 't) world, 'e, 'a) comp \<Rightarrow> bool" where
  "countless m \<longleftrightarrow> (\<forall>f w. m (w\<lparr>w_strong := f\<rparr>) = apsnd (\<lambda>w. w\<lparr>w_strong := f\<rparr>) (m w))"

lemma countless_step:
  assumes "countless m" and "m w = (r, w')"
  shows "m (w\<lparr>w_strong := f\<rparr>) = (r, w'\<lparr>w_strong := f\<rparr>)" and "w_strong w' = w_strong w"
proof -
  show eq: "m (w\<lparr>w_strong := f\<rparr>) = (r, w'\<lparr>w_strong := f\<rparr>)" for f
    using assms by (simp add: countless_def)
  have "m w = (r, w'\<lparr>w_strong := w_strong w\<rparr>)" using eq [of "w_strong w"] by simp
  with assms(2) have "w' = w'\<lparr>w_strong := w_strong w\<rparr>" by simp
  then show "w_strong w' = w_strong w" by (metis world.select_convs(3) world.surjective world.update_convs(3))
qed

lemma countless_try_bind:
  assumes "countless m" and "\<And>x. countless (f x)"
  shows "countless (try_bind m f)"
  using assms by (auto simp: countless_def try_bind_def split: prod.splits sum.splits)

lemma countless_or_cleanup:
  assumes "countless m" and "\<And>g w. c (w\<lparr>w_strong := g\<rparr>) = (c w)\<lparr>w_strong := g\<rparr>"
  shows "countless (or_cleanup c m)"
  using assms by (auto simp: countless_def or_cleanup_def split: prod.splits sum.splits)

lemma countless_on: "countless (on_kind k m)" "countless (on_broker m')"
  by (auto simp: countless_def on_kind_def on_broker_def split: prod.splits)

lemma countless_drops:
  "unwind H k c (w\<lparr>w_strong := f\<rparr>) = (unwind H k c w)\<lparr>w_strong := f\<rparr>"
  "drop_stream H s (w\<lparr>w_strong := f\<rparr>) = (drop_stream H s w)\<lparr>w_strong := f\<rparr>"
  "abort_task H h (w\<lparr>w_strong := f\<rparr>) = (abort_task H h w)\<lparr>w_strong := f\<rparr>"
  by (simp_all add: unwind_def drop_stream_def abort_task_def split: option.splits)

lemma strong_last: "w\<lparr>w_strong := f, w_rt := t\<rparr> = w\<lparr>w_rt := t, w_strong := f\<rparr>"
  by (cases w) simp

lemma countless_send_replay: "countless (send_replay H sid ob ps)"
  unfolding countless_def
  by (induction ps) (auto simp: send_frame_def strong_last split: prod.splits bool.splits)

lemma countless_replay: "countless (replay H now sid ob c since k st)"
  unfolding replay_def
  by (auto intro!: countless_or_cleanup countless_try_bind countless_on countless_send_replay
      simp: countless_drops) (simp add: countless_def ok_def)

lemma countless_attach: "countless (attach H sid ref c k st)"
  by (auto simp: countless_def attach_def insert_subscription_def upd_registry_def upd_session_def
      countless_drops strong_last Let_def split: prod.splits option.splits)

lemma arc_drop_clone:
  assumes "0 < w_strong w ref" and "w_strong w' = w_strong w"
  shows "arc_drop H ref (w'\<lparr>w_strong := w_strong (arc_clone ref w)\<rparr>) = w'"
proof -
  have "w'\<lparr>w_strong := w_strong w\<rparr> = w'" using assms(2) by (metis world.surjective world.update_convs(3))
  with assms show ?thesis by (simp add: arc_drop_def arc_clone_def fun_upd_idem)
qed

text \<open>Without interruption, the parts of a subscribe are the operation of the hub.\<close>

lemma subscribe_open_Inr:
  assumes "subscribe_open H sid channel w = (Inr (ref, cursor, stream), w1)"
  obtains w0 where "w1 = arc_clone ref w0" and "reg_get (w_registry w) sid = Some ref"
    and "w_registry w0 = w_registry w" and "w_strong w0 = w_strong w"
    and "\<not> has_subscription (w_store w0 ref) channel"
    and "handle_subscribe H now sid rid channel since w =
      try_bind (replay H now sid (s_outbox (w_store w0 ref)) channel since (kind_for H channel) stream) (\<lambda>_.
      try_bind (attach H sid ref channel (kind_for H channel) stream) (\<lambda>_.
      ok \<lparr>subok_request_id = rid, subok_channel = channel, subok_epoch = cur_epoch cursor,
         subok_offset = cur_offset cursor\<rparr>)) w0"
proof -
  let ?k = "kind_for H channel"
  from assms obtain claims wa wb wc wd we w0 u v where
    g: "get_session sid w = (Inr ref, wa)" and cl: "require_claims H ref wa = (Inr claims, wb)"
    and acl: "enforce_acl H claims ActSubscribe channel wb = (Inr u, wc)"
    and ns: "check_not_subscribed sid ref channel wc = (Inr v, wd)"
    and k: "on_kind ?k (k_on_subscribe (hub_kops H) channel) wd = (Inr cursor, we)"
    and br: "or_cleanup (unwind H ?k channel) (on_broker (br_subscribe (hub_broker H) channel)) we = (Inr stream, w0)"
    and w1: "w1 = arc_clone ref w0"
    by (auto simp: subscribe_open_def try_bind_eq_Inr Let_def)
  from g cl have get: "reg_get (w_registry w) sid = Some ref" and b: "w_registry wb = w_registry w"
      "w_strong wb = w_strong w"
    by (auto simp: get_session_def require_claims_def hub_simps split: option.splits if_splits)
  from acl ns have d: "wd = wb" and n: "\<not> has_subscription (w_store wb ref) channel"
    by (auto simp: enforce_acl_def ok_def err_def check_not_subscribed_def
        split: sum.splits acl_decision.splits if_splits)
  from k br have e: "w_registry w0 = w_registry wd" "w_strong w0 = w_strong wd" "w_store w0 = w_store wd"
    by (auto simp: on_kind_def on_broker_def or_cleanup_def split: prod.splits sum.splits)
  have "handle_subscribe H now sid rid channel since w =
      try_bind (replay H now sid (s_outbox (w_store w0 ref)) channel since ?k stream) (\<lambda>_.
      try_bind (attach H sid ref channel ?k stream) (\<lambda>_.
      ok \<lparr>subok_request_id = rid, subok_channel = channel, subok_epoch = cur_epoch cursor,
         subok_offset = cur_offset cursor\<rparr>)) w0"
    by (simp add: handle_subscribe_def try_bind_def Let_def g cl acl ns k br)
  with that [OF w1 get] b d e n show thesis by simp
qed

lemma subscribe_open_Inl:
  assumes "subscribe_open H sid channel w = (Inl e, w1)"
  shows "handle_subscribe H now sid rid channel since w = (Inl e, w1)"
  using assms
  by (auto simp: subscribe_open_def handle_subscribe_def try_bind_def Let_def split: prod.splits sum.splits)

lemma subscribe_uninterrupted:
  assumes "\<And>ref. reg_get (w_registry w) sid = Some ref \<Longrightarrow> 0 < w_strong w ref"
  shows "subscribe_phases H now sid rid channel since w = handle_subscribe H now sid rid channel since w"
proof (cases "subscribe_open H sid channel w")
  case (Pair r w1)
  show ?thesis
  proof (cases r)
    case (Inl e)
    with Pair show ?thesis
      by (simp add: subscribe_phases_def try_bind_def subscribe_open_Inl)
  next
    case (Inr x)
    obtain ref cursor stream where x: "x = (ref, cursor, stream)" by (cases x)
    let ?k = "kind_for H channel"
    from subscribe_open_Inr [OF Pair [unfolded Inr x]] obtain w0 where w1: "w1 = arc_clone ref w0"
      and get: "reg_get (w_registry w) sid = Some ref" and st: "w_strong w0 = w_strong w"
      and h: "handle_subscribe H now sid rid channel since w =
        try_bind (replay H now sid (s_outbox (w_store w0 ref)) channel since ?k stream) (\<lambda>_.
        try_bind (attach H sid ref channel ?k stream) (\<lambda>_.
        ok \<lparr>subok_request_id = rid, subok_channel = channel, subok_epoch = cur_epoch cursor,
           subok_offset = cur_offset cursor\<rparr>)) w0" by metis
    let ?f = "w_strong (arc_clone ref w0)"
    have clone: "w1 = w0\<lparr>w_strong := ?f\<rparr>" by (simp add: w1 arc_clone_def)
    have pos: "0 < w_strong w0 ref" using assms [OF get] st by simp
    obtain r2 w2 where r2: "replay H now sid (s_outbox (w_store w0 ref)) channel since ?k stream w0 = (r2, w2)"
      by (cases "replay H now sid (s_outbox (w_store w0 ref)) channel since ?k stream w0")
    note c2 = countless_step [OF countless_replay r2]
    obtain r3 w3 where r3: "attach H sid ref channel ?k stream w2 = (r3, w3)"
      by (cases "attach H sid ref channel ?k stream w2")
    note c3 = countless_step [OF countless_attach r3]
    have drop2: "arc_drop H ref (w2\<lparr>w_strong := ?f\<rparr>) = w2" and drop3: "arc_drop H ref (w3\<lparr>w_strong := ?f\<rparr>) = w3"
      using arc_drop_clone [OF pos] c2(2) c3(2) by simp_all
    have ob: "w_store (w0\<lparr>w_strong := ?f\<rparr>) = w_store w0" by simp
    show ?thesis
      unfolding h subscribe_phases_def
      by (cases r2; cases r3)
         (simp_all add: try_bind_def Pair Inr x clone subscribe_replay_def subscribe_finish_def or_cleanup_def
           ob c2(1) c3(1) r2 r3 drop2 drop3 ok_def)
  qed
qed

section \<open>A kick in between\<close>

lemma kick_subscriptions:
  "s_subscriptions (w_store (snd (kick_session H sid w)) ref) \<in> {s_subscriptions (w_store w ref), []}"
  by (auto simp: kick_session_def arc_clone_def emptied_def hub_simps Let_def
      split: option.splits prod.splits)

lemma finish_unregistered:
  assumes "\<not> has_subscription (w_store w ref) channel"
    and "subscribe_finish H sid rid channel ref cursor stream w = (r, w')"
  shows "\<exists>ack. r = Inr ack"
    and "w_registry w' = add_subscription sid channel (w_registry w)"
  using assms
  by (auto simp: subscribe_finish_def attach_def insert_subscription_def has_subscription_def hub_simps Let_def
      split: prod.splits option.splits)

lemma teardown_unregistered:
  assumes "reg_get (w_registry w) sid = None"
  shows "w_registry (teardown H sid ref w) = w_registry w"
  using assms fst_deregister [of sid "w_registry w"]
  by (auto simp: teardown_def close_session_def hub_simps split: prod.splits)

text \<open>
  C8. A session that is kicked while its subscribe awaits stays in the reverse index: the subscribe is
  acknowledged, and the channel lists the session as a subscriber although it is no longer registered,
  also after its connection is gone.
\<close>

theorem kick_during_subscribe_leaves_stale_entry:
  assumes "subscribe_open H sid channel w = (Inr (ref, cursor, stream), w1)"
    and "kick_session H sid w1 = (kicked, w2)"
    and "subscribe_finish H sid rid channel ref cursor stream w2 = (r, w3)"
  shows "kicked \<and> (\<exists>ack. r = Inr ack) \<and> reg_get (w_registry (teardown H sid ref w3)) sid = None \<and>
    sid \<in> set (subscribers_of (w_registry (teardown H sid ref w3)) channel)"
proof -
  from subscribe_open_Inr [OF assms(1)] obtain w0 where w0: "w1 = arc_clone ref w0"
    "reg_get (w_registry w) sid = Some ref" "w_registry w0 = w_registry w"
    "\<not> has_subscription (w_store w0 ref) channel" by metis
  have w2: "w2 = snd (kick_session H sid w1)" using assms(2) by simp
  have kicked: "kicked"
    using assms(2) w0 fst_deregister [of sid "w_registry w"]
    by (auto simp: kick_session_def arc_clone_def hub_simps Let_def split: prod.splits option.splits)
  have "\<not> has_subscription (w_store w2 ref) channel"
    using kick_subscriptions [of H sid w1 ref] w0(1,4) by (auto simp: w2 has_subscription_def arc_clone_def)
  from finish_unregistered [OF this assms(3)] have ack: "\<exists>ack. r = Inr ack"
    and w3: "w_registry w3 = add_subscription sid channel (w_registry w2)" by blast+
  have gone: "reg_get (w_registry w3) sid = None" by (simp add: w3 reg_simps w2 kick_view)
  show ?thesis
    using kicked ack gone by (simp add: teardown_unregistered [OF gone]) (simp add: w3 reg_simps)
qed

lemma demo_subscribe_open:
  "\<exists>cursor w1. subscribe_open demo_hub 0 ''rooms.a'' demo_connected = (Inr (0, cursor, 0), w1)"
  by (simp add: subscribe_open_def try_bind_def get_session_def demo_connected_eq demo_open_eq
      reg_get_def require_claims_def enforce_acl_def demo_acl_rooms ok_def check_not_subscribed_def
      has_subscription_def session_new_def on_kind_def demo_start_def world_new_def demo_kinds_0
      pubsub_ops_def pubsub_on_subscribe_def lift_comp_def or_cleanup_def on_broker_def
      demo_br_subscribe pubsub_cursor_def with_bounds_def)

theorem kick_during_subscribe_leaves_stale_entry_witness:
  "\<exists>cursor w1 w2 r w3. subscribe_open demo_hub 0 ''rooms.a'' demo_connected = (Inr (0, cursor, 0), w1) \<and>
     kick_session demo_hub 0 w1 = (True, w2) \<and>
     subscribe_finish demo_hub 0 2 ''rooms.a'' 0 cursor 0 w2 = (r, w3) \<and>
     reg_get (w_registry (teardown demo_hub 0 0 w3)) 0 = None \<and>
     0 \<in> set (subscribers_of (w_registry (teardown demo_hub 0 0 w3)) ''rooms.a'')"
proof -
  obtain cursor w1 where o: "subscribe_open demo_hub 0 ''rooms.a'' demo_connected = (Inr (0, cursor, 0), w1)"
    using demo_subscribe_open by blast
  obtain kicked w2 where k: "kick_session demo_hub 0 w1 = (kicked, w2)" by (cases "kick_session demo_hub 0 w1")
  obtain r w3 where f: "subscribe_finish demo_hub 0 2 ''rooms.a'' 0 cursor 0 w2 = (r, w3)"
    by (cases "subscribe_finish demo_hub 0 2 ''rooms.a'' 0 cursor 0 w2")
  note stale = kick_during_subscribe_leaves_stale_entry [OF o k f]
  with k have "kick_session demo_hub 0 w1 = (True, w2)" by simp
  with stale o f show ?thesis by blast
qed

end
