(* ===== verification/Spec2Isabelle.thy ===== *)
theory Spec2Isabelle
  imports Cli Interleave
begin

text \<open>
  A verification of \<^bold>\<open>cherenkov\<close>, a realtime messaging server in Rust. Clients connect over
  WebSocket, WebTransport or HTTP with server-sent events, authenticate with a token, subscribe to
  channels and publish on them. A hub checks claims, access control and schemas, hands a publication
  to the channel kind of its namespace, which numbers and stores it, and then to a broker, which fans
  it out; one forwarder task per subscription copies a broker stream into the session's outbox, from
  which the transport writes. A server binary puts this together from a configuration, with an admin
  API beside it; a generator derives client code from the same configuration. Paths below are under
  \<open>src/crates/\<close>.

  \<^bold>\<open>How the code is modelled.\<close> Functions are HOL functions with the source's names where HOL allows
  it. A \<open>Result\<close> is a sum with the error on the left, a panic that the code can reach is None in an
  outer option. Stateful code passes its state: \<open>world\<close> (theory Hub) holds the registry, the heap
  of sessions with the strong count of each \<open>Arc\<close>, the channel kinds, the broker, the runtime and
  the counters. Trait objects are records of operations. Identifiers and offsets are 64-bit words.
  Strings are the bytes of their UTF-8 encoding. Time is a number of nanoseconds that each
  operation takes as an argument. A library the sources only call is a record of functions, an
  argument of the definitions that use it; what is relied on is a locale with laws, and an executable
  instance shows that the laws can hold.

  \<^bold>\<open>The theories.\<close>
  \<^item> Prelude: words, \<open>?\<close> on state-passing computations, the rules for invariants (\<open>pres\<close>) and for
    pre- and postconditions with an error exit (\<open>valid\<close>), the parts of \<open>str\<close> the crates use.
  \<^item> Frame, Wire (\<open>cherenkov-protocol\<close>): frames, their protobuf messages, the conversions and the
    codec over prost as a parameter; Wire is an instance, the protobuf wire format itself. Frames
    survive encoding and decoding.
  \<^item> Traits (\<open>cherenkov-core/src/{channel,broker,auth,acl,schema,transport,error}.rs\<close>): errors with
    their messages, the traits, and the contracts \<open>channel_kind\<close> and \<open>broker\<close> as locales.
  \<^item> Session (\<open>cherenkov-core/src/session.rs\<close>): sessions and the registry with its reverse index,
    which refines a session map and a subscription relation.
  \<^item> Runtime: what is used of tokio (tasks, mailboxes, notifications) and its laws.
  \<^item> PubSub (\<open>cherenkov-channel-pubsub\<close>), Crdt (\<open>cherenkov-channel-crdt\<close>): the channel kinds. The
    first refines an abstract log per channel; the history stays within its bound; offsets are
    consecutive. The snapshot of a Y.js channel is the document of exactly its well-formed updates.
  \<^item> MemBroker (\<open>cherenkov-broker\<close>), Remote (\<open>cherenkov-broker-redis\<close>, \<open>cherenkov-broker-nats\<close>): the
    brokers. The first satisfies the broker's contract and delivers in order; a receiver that falls
    behind loses the oldest publications, which are counted, and no others.
  \<^item> Hub (\<open>cherenkov-core/src/hub.rs\<close>): the builder, every handler, the forwarder, and the step
    relation \<open>hub_step\<close> of the operations in any order. HubInv and HubSafety: the invariant
    (registry, index, strong counts, authorisation, counters; forwarders and their streams) and that
    every step keeps it. HubFlow: what each handler does on each branch and how a publication
    travels.
  \<^item> Acl, Jwt (\<open>cherenkov-auth\<close>), Schema (\<open>cherenkov-schema\<close>): the checks behind the hub.
  \<^item> Config, App, Run, Serve (\<open>cherenkov-server/src/{config,app}.rs\<close>, the \<open>serve\<close> functions of the
    transports): from a configuration to a hub and to running listeners. Cli
    (\<open>cherenkov-server/src/main.rs\<close>): to an exit code.
  \<^item> Ws, Wt, Sse (\<open>cherenkov-transport-ws\<close>, \<open>-wt\<close>, \<open>-sse\<close>), Connection: dispatch of frames, framing
    of the byte stream, the life of a connection as a step relation, the HTTP handlers. Admin
    (\<open>cherenkov-admin\<close>): the operators' API.
  \<^item> Sdk (\<open>cherenkov-sdk-ts\<close>): the TypeScript and AsyncAPI generators, which take the schemas the
    server compiles where both resolve a \<open>schema_path\<close> to one file.
  \<^item> Example: a concrete server on which every hypothesis is evaluated. Server and Service: the
    properties of the server as a whole. Interleave: a subscribe taken apart at its awaits.

  \<^bold>\<open>What is shown.\<close> On a server built from any configuration with the in-process broker, in every
  state reachable by operations in any order: the reverse index agrees with the sessions, every
  subscription was allowed for claims decoded from a token, every forwarder belongs to a live
  session, counts and counters balance. An accepted publication reaches every idle subscriber with its
  bytes and the next offset; a forwarder drains its stream; a resubscribe replays the retained history
  after its offset; refused or failed requests leave nothing
  behind; every request of a socket is answered; a finished connection leaves no session. HTTP
  requests leave the registry as it was, the admin token guards every endpoint but the console page,
  and the process starts and stops exactly the listeners of its configuration, on the configured
  addresses. Some theorems record
  behaviour that is not intended: an abandoned event stream and a subscribe interrupted by a kick
  leave entries behind, a failed start leaves a listener running, a NATS channel with a wildcard
  receives other channels, a gap in the history is not reported. The theorems are about the code as
  it is; where \<open>openspec/specs\<close> says otherwise the text of the property says so: the cursor of a
  pub/sub channel, the socket after a failed connect or undecodable bytes, a lagging subscriber, the
  snapshot of a channel without publications.

  \<^bold>\<open>Bounds and fuel.\<close> \<open>mem_poll\<close> takes a number of rounds: a lag is reported once and is followed by
  a value or by nothing, so two rounds give the result of any larger number
  (\<open>poll_ends_after_two_rounds\<close>). \<open>get_fields\<close> takes the number of bytes left, and each field takes
  at least one. The session counter is assumed not to pass \<open>2 ^ 64\<close> openings, where identifiers would
  repeat; offsets saturate as in the code. A frame of the WebTransport stream has at most
  \<open>MAX_FRAME\<close> bytes, a request body 16 MiB.

  \<^bold>\<open>Not modelled.\<close> An operation of the hub is one step, as if it ran without interruption; only
  Interleave looks at a subscribe's awaits. The waiting of a full mailbox is not modelled: a send
  completes or finds the receiver gone. A kick's notification is recorded but a connection may leave
  its loop at any time, so a lost notification is covered by not assuming one. An abort takes effect at
  once. Three panics are left out: those of allocating a history buffer or a broadcast channel of a
  capacity beyond what the allocator or tokio allows, and the debug assertion of \<open>register\<close>. A request to a path the admin router does not know is answered by axum. The NATS
  instance delivers a message at the next poll. Sockets, TLS, QUIC,
  HTTP parsing and routing (axum, wtransport), protobuf, JSON, YAML, glob, JWT, CRDT and NATS/Redis
  client code are parameters. Logging, the values shown by the metrics exporter, command-line parsing
  and signal handlers are input and output of the process. The console page is a constant file. The
  facade crate and the module roots only re-export; \<open>build.rs\<close>, benches, examples and tests are not
  part of the server.
\<close>

end
